theory Spec2Isabelle
  imports Complex_Main "HOL-Library.Word"
begin

unbundle bit_operations_syntax

section \<open>Machine types and the constants of asm.hpp\<close>

type_synonym u8 = "8 word"
type_synonym u16 = "16 word"
type_synonym u32 = "32 word"
type_synonym u64 = "64 word"

text \<open>
  The header asm.hpp is not among the sources. The numeric values of the UVM type codes
  and of the section permission flags are therefore parameters of the model: every
  function that reads one of them takes the record below as its first argument.
\<close>

record AsmConsts =
  UVM_TYPE_I8 :: u8
  UVM_TYPE_I16 :: u8
  UVM_TYPE_I32 :: u8
  UVM_TYPE_I64 :: u8
  UVM_TYPE_F32 :: u8
  UVM_TYPE_F64 :: u8
  SEC_PERM_READ :: u8
  SEC_PERM_WRITE :: u8
  SEC_PERM_EXECUTE :: u8

text \<open>
  The six type codes are labels of C++ switch statements and keys of the type variant
  tables, so they are pairwise different in every build of the program.
\<close>

definition uvm_distinct :: "AsmConsts \<Rightarrow> bool" where
  "uvm_distinct c = distinct [UVM_TYPE_I8 c, UVM_TYPE_I16 c, UVM_TYPE_I32 c,
                              UVM_TYPE_I64 c, UVM_TYPE_F32 c, UVM_TYPE_F64 c]"

text \<open>One admissible choice of the constants, used to run the model on concrete inputs.\<close>

definition sample_consts :: AsmConsts where
  "sample_consts = \<lparr> UVM_TYPE_I8 = 0x01, UVM_TYPE_I16 = 0x02, UVM_TYPE_I32 = 0x03,
      UVM_TYPE_I64 = 0x04, UVM_TYPE_F32 = 0xF0, UVM_TYPE_F64 = 0xF1,
      SEC_PERM_READ = 0x80, SEC_PERM_WRITE = 0x40, SEC_PERM_EXECUTE = 0x20 \<rparr>"

text \<open>
  Modelled from the spec: the instruction flags of asm.hpp, which is not among the
  sources (section 6: ENCODE_TYPE = 1, TYPE_VARIANTS = 2).
\<close>

definition INSTR_FLAG_ENCODE_TYPE :: u8 where
  "INSTR_FLAG_ENCODE_TYPE = 1"

definition INSTR_FLAG_TYPE_VARIANTS :: u8 where
  "INSTR_FLAG_TYPE_VARIANTS = 2"

section \<open>Free functions of the parser\<close>

datatype RegisterType = INTEGER | FLOAT

text \<open>getRegisterType: the comparison \<open>regId >= 0\<close> is on an unsigned byte.\<close>

definition getRegisterType :: "u8 \<Rightarrow> RegisterType" where
  "getRegisterType regId =
     (if 0 \<le> regId \<and> regId \<le> 0x14 \<and> regId \<noteq> 0x4 then INTEGER else FLOAT)"

text \<open>
  \<open>std::abs(static_cast<int64_t>(num))\<close> assigned back to the unsigned \<open>num\<close>. The
  signed view of the word is \<open>sint\<close>; the result is converted back modulo \<open>2^64\<close>,
  which is what two's complement hardware gives for the one overflowing input
  \<open>INT64_MIN\<close>.
\<close>

definition abs_int64 :: "u64 \<Rightarrow> u64" where
  "abs_int64 num = word_of_int \<bar>sint num\<bar>"

definition checkIntWidth :: "AsmConsts \<Rightarrow> u64 \<Rightarrow> u8 \<Rightarrow> bool \<Rightarrow> bool" where
  "checkIntWidth c num ty isSigned =
     (let num1 = (if isSigned then abs_int64 num else num) in
      if ty = UVM_TYPE_I8 c then num1 \<le> 0xFF
      else if ty = UVM_TYPE_I16 c then num1 \<le> 0xFFFF
      else if ty = UVM_TYPE_I32 c then num1 \<le> 0xFFFFFFFF
      else if ty = UVM_TYPE_I64 c then True
      else False)"

text \<open>
  Values of the C++ type double: the finite ones are real numbers (every finite double
  is one), plus the two infinities and NaN. \<open>double_le\<close> is the operator \<open><=\<close> of
  IEEE 754, which is false whenever an operand is NaN.
\<close>

datatype double = Finite real | PosInf | NegInf | NaN

fun double_le :: "double \<Rightarrow> double \<Rightarrow> bool" where
  "double_le NaN y = False"
| "double_le x NaN = False"
| "double_le (Finite a) (Finite b) = (a \<le> b)"
| "double_le NegInf y = True"
| "double_le x PosInf = True"
| "double_le PosInf y = False"
| "double_le (Finite a) NegInf = False"

fun double_abs :: "double \<Rightarrow> double" where
  "double_abs (Finite a) = Finite \<bar>a\<bar>"
| "double_abs PosInf = PosInf"
| "double_abs NegInf = PosInf"
| "double_abs NaN = NaN"

definition FLT_MAX :: double where
  "FLT_MAX = Finite ((2 ^ 24 - 1) * 2 ^ 104)"

definition DBL_MAX :: double where
  "DBL_MAX = Finite ((2 ^ 53 - 1) * 2 ^ 971)"

definition checkFloatWidth :: "AsmConsts \<Rightarrow> double \<Rightarrow> u8 \<Rightarrow> bool" where
  "checkFloatWidth c num ty =
     (if ty = UVM_TYPE_F32 c then double_le num FLT_MAX
      else if ty = UVM_TYPE_F64 c then double_le num DBL_MAX
      else False)"

section \<open>The abstract syntax tree (ast.hpp)\<close>

datatype ASTSectionType = STATIC | GLOBAL | CODE

definition RO_LAYOUT_NEGATIVE :: u8 where
  "RO_LAYOUT_NEGATIVE = 0x80"

definition RO_LAYOUT_IR :: u8 where
  "RO_LAYOUT_IR = 0x4F"

definition RO_LAYOUT_IR_INT :: u8 where
  "RO_LAYOUT_IR_INT = 0x2F"

definition RO_LAYOUT_IR_IR_INT :: u8 where
  "RO_LAYOUT_IR_IR_INT = 0x1F"

text \<open>
  The base class ASTNode carries the source position. Its \<open>Type\<close> tag is not a field
  of the records: the tag of a node (the enum ASTType) is the constructor of the sum
  types \<open>Node\<close> and \<open>BodyNode\<close> below, which is what the tag tests followed by
  \<open>dynamic_cast\<close> of the source decide on.
\<close>

record ASTNode =
  Index :: u32
  Size :: u32
  LineRow :: u32
  LineCol :: u32

record LabelDef = ASTNode +
  Name :: string

record Identifier = ASTNode +
  Name :: string

record ASTFloat = ASTNode +
  Num :: double
  DataType :: u8

text \<open>\<open>ASTInt.Num\<close> is an \<open>int64_t\<close>; the word holds its bits, \<open>sint\<close> reads them.\<close>

record ASTInt = ASTNode +
  Num :: u64
  DataType :: u8
  IsSigned :: bool

record RegisterId = ASTNode +
  Id :: u8

text \<open>
  The union ROInt overlays \<open>U16\<close> on the low half of \<open>U32\<close> (little endian, as on the
  machines the assembler is built for); the record field holds the four bytes.
\<close>

record RegisterOffset = ASTNode +
  Layout :: u8
  Base :: "RegisterId option"
  Offset :: "RegisterId option"
  Immediate :: u32
  Var :: "Identifier option"

definition ROInt_set_U16 :: "u16 \<Rightarrow> u32 \<Rightarrow> u32" where
  "ROInt_set_U16 v old = (old AND 0xFFFF0000) OR ucast v"

record TypeInfo = ASTNode +
  DataType :: u8

record ASTString = ASTNode +
  Val :: string

text \<open>
  The elements of \<open>Instruction::Params\<close> and the values of variables: the node classes
  without children.
\<close>

datatype Node =
    LabelDefNode LabelDef
  | IdentifierNode Identifier
  | FloatNode ASTFloat
  | IntNode ASTInt
  | RegisterIdNode RegisterId
  | RegisterOffsetNode RegisterOffset
  | TypeInfoNode TypeInfo
  | StringNode ASTString

section \<open>Instruction definitions (asm.hpp, encoding.hpp)\<close>

text \<open>
  Modelled from the spec: the parameter categories and the structs TypeVariant,
  InstrParamList and InstrDefNode of asm.hpp, which is not among the sources; the field
  names are those that parser.cpp and encoding.hpp use.
\<close>

datatype InstrParamType =
    INT_TYPE | FLOAT_TYPE | INT_REG | FLOAT_REG | REG_OFFSET | INT_NUM | FLOAT_NUM
  | LABEL_ID | SYS_INT

record TypeVariant =
  Type :: u8
  Opcode :: u8

record InstrParamList =
  Opcode :: u8
  Flags :: u8
  Params :: "InstrParamType list"
  OpcodeVariants :: "TypeVariant list"

datatype InstrDefNode =
  InstrDefNode (Type: InstrParamType) (ParamList: "InstrParamList option")
    (Children: "InstrDefNode list")

abbreviation tv :: "u8 \<Rightarrow> u8 \<Rightarrow> TypeVariant" where
  "tv t opc \<equiv> \<lparr> TypeVariant.Type = t, TypeVariant.Opcode = opc \<rparr>"

abbreviation sig :: "u8 \<Rightarrow> u8 \<Rightarrow> InstrParamType list \<Rightarrow> TypeVariant list \<Rightarrow> InstrParamList" where
  "sig opc fl ps vs \<equiv> \<lparr> InstrParamList.Opcode = opc, Flags = fl,
      InstrParamList.Params = ps, OpcodeVariants = vs \<rparr>"

text \<open>The mnemonics and their indices into the definition table (encoding.hpp).\<close>

definition INSTR_NAMES :: "(string \<times> nat) list" where
  "INSTR_NAMES =
     [(''nop'', 0), (''push'', 1), (''pop'', 2), (''load'', 3), (''loadf'', 4),
      (''store'', 5), (''storef'', 6), (''copy'', 7), (''copyf'', 8), (''exit'', 9),
      (''call'', 10), (''ret'', 11), (''sys'', 12), (''lea'', 13), (''add'', 14),
      (''addf'', 15), (''sub'', 16), (''subf'', 17), (''mul'', 18), (''mulf'', 19),
      (''muls'', 20), (''div'', 21), (''divf'', 22), (''divs'', 23), (''sqrt'', 24),
      (''mod'', 25), (''and'', 26), (''or'', 27), (''xor'', 28), (''not'', 29),
      (''lsh'', 30), (''rsh'', 31), (''srsh'', 32), (''b2l'', 33), (''s2l'', 34),
      (''i2l'', 35), (''b2sl'', 36), (''s2sl'', 37), (''i2sl'', 38), (''f2d'', 39),
      (''d2f'', 40), (''i2f'', 41), (''i2d'', 42), (''f2i'', 43), (''d2i'', 44),
      (''cmp'', 45), (''cmpf'', 46), (''jmp'', 47), (''je'', 48), (''jne'', 49),
      (''jgt'', 50), (''jlt'', 51), (''jge'', 52), (''jle'', 53)]"

text \<open>The generated table of encoding.hpp, one row of signatures per mnemonic.\<close>

definition INSTR_ASM_DEFS :: "AsmConsts \<Rightarrow> InstrParamList list list" where
  "INSTR_ASM_DEFS c = [
     [sig 0xA0 0 [] []],
     [sig 0x01 INSTR_FLAG_TYPE_VARIANTS [INT_TYPE, INT_NUM] [tv (UVM_TYPE_I8 c) 0x01, tv (UVM_TYPE_I16 c) 0x02, tv (UVM_TYPE_I32 c) 0x03, tv (UVM_TYPE_I64 c) 0x04],
      sig 0x05 INSTR_FLAG_ENCODE_TYPE [INT_TYPE, INT_REG] []],
     [sig 0x06 INSTR_FLAG_ENCODE_TYPE [INT_TYPE] [],
      sig 0x07 INSTR_FLAG_ENCODE_TYPE [INT_TYPE, INT_REG] []],
     [sig 0x11 INSTR_FLAG_TYPE_VARIANTS [INT_TYPE, INT_NUM, INT_REG] [tv (UVM_TYPE_I8 c) 0x11, tv (UVM_TYPE_I16 c) 0x12, tv (UVM_TYPE_I32 c) 0x13, tv (UVM_TYPE_I64 c) 0x14],
      sig 0x15 INSTR_FLAG_ENCODE_TYPE [INT_TYPE, REG_OFFSET, INT_REG] []],
     [sig 0x16 INSTR_FLAG_TYPE_VARIANTS [FLOAT_TYPE, FLOAT_NUM, FLOAT_REG] [tv (UVM_TYPE_F32 c) 0x16, tv (UVM_TYPE_F64 c) 0x17],
      sig 0x18 INSTR_FLAG_ENCODE_TYPE [FLOAT_TYPE, REG_OFFSET, FLOAT_REG] []],
     [sig 0x08 INSTR_FLAG_ENCODE_TYPE [INT_TYPE, INT_REG, REG_OFFSET] []],
     [sig 0x09 INSTR_FLAG_ENCODE_TYPE [FLOAT_TYPE, FLOAT_REG, REG_OFFSET] []],
     [sig 0x21 INSTR_FLAG_TYPE_VARIANTS [INT_TYPE, INT_NUM, REG_OFFSET] [tv (UVM_TYPE_I8 c) 0x21, tv (UVM_TYPE_I16 c) 0x22, tv (UVM_TYPE_I32 c) 0x23, tv (UVM_TYPE_I64 c) 0x24],
      sig 0x25 INSTR_FLAG_ENCODE_TYPE [INT_TYPE, INT_REG, INT_REG] [],
      sig 0x26 INSTR_FLAG_ENCODE_TYPE [INT_TYPE, REG_OFFSET, REG_OFFSET] []],
     [sig 0x27 INSTR_FLAG_TYPE_VARIANTS [FLOAT_TYPE, FLOAT_NUM, REG_OFFSET] [tv (UVM_TYPE_F32 c) 0x27, tv (UVM_TYPE_F64 c) 0x28],
      sig 0x29 INSTR_FLAG_ENCODE_TYPE [FLOAT_TYPE, FLOAT_REG, FLOAT_REG] [],
      sig 0x2A INSTR_FLAG_ENCODE_TYPE [FLOAT_TYPE, REG_OFFSET, REG_OFFSET] []],
     [sig 0x50 0 [] []],
     [sig 0x20 0 [LABEL_ID] []],
     [sig 0x30 0 [] []],
     [sig 0x40 0 [SYS_INT] []],
     [sig 0x10 0 [REG_OFFSET, INT_REG] []],
     [sig 0x31 INSTR_FLAG_TYPE_VARIANTS [INT_TYPE, INT_REG, INT_NUM] [tv (UVM_TYPE_I8 c) 0x31, tv (UVM_TYPE_I16 c) 0x32, tv (UVM_TYPE_I32 c) 0x33, tv (UVM_TYPE_I64 c) 0x34],
      sig 0x35 INSTR_FLAG_ENCODE_TYPE [INT_TYPE, INT_REG, INT_REG] []],
     [sig 0x36 INSTR_FLAG_TYPE_VARIANTS [FLOAT_TYPE, FLOAT_REG, FLOAT_NUM] [tv (UVM_TYPE_F32 c) 0x36, tv (UVM_TYPE_F64 c) 0x37],
      sig 0x38 INSTR_FLAG_ENCODE_TYPE [FLOAT_TYPE, FLOAT_REG, FLOAT_REG] []],
     [sig 0x41 INSTR_FLAG_TYPE_VARIANTS [INT_TYPE, INT_REG, INT_NUM] [tv (UVM_TYPE_I8 c) 0x41, tv (UVM_TYPE_I16 c) 0x42, tv (UVM_TYPE_I32 c) 0x43, tv (UVM_TYPE_I64 c) 0x44],
      sig 0x45 INSTR_FLAG_ENCODE_TYPE [INT_TYPE, INT_REG, INT_REG] []],
     [sig 0x46 INSTR_FLAG_TYPE_VARIANTS [FLOAT_TYPE, FLOAT_REG, FLOAT_NUM] [tv (UVM_TYPE_F32 c) 0x46, tv (UVM_TYPE_F64 c) 0x47],
      sig 0x48 INSTR_FLAG_ENCODE_TYPE [FLOAT_TYPE, FLOAT_REG, FLOAT_REG] []],
     [sig 0x51 INSTR_FLAG_TYPE_VARIANTS [INT_TYPE, INT_REG, INT_NUM] [tv (UVM_TYPE_I8 c) 0x51, tv (UVM_TYPE_I16 c) 0x52, tv (UVM_TYPE_I32 c) 0x53, tv (UVM_TYPE_I64 c) 0x54],
      sig 0x55 INSTR_FLAG_ENCODE_TYPE [INT_TYPE, INT_REG, INT_REG] []],
     [sig 0x56 INSTR_FLAG_TYPE_VARIANTS [FLOAT_TYPE, FLOAT_REG, FLOAT_NUM] [tv (UVM_TYPE_F32 c) 0x56, tv (UVM_TYPE_F64 c) 0x57],
      sig 0x58 INSTR_FLAG_ENCODE_TYPE [FLOAT_TYPE, FLOAT_REG, FLOAT_REG] []],
     [sig 0x59 INSTR_FLAG_TYPE_VARIANTS [INT_TYPE, INT_REG, INT_NUM] [tv (UVM_TYPE_I8 c) 0x59, tv (UVM_TYPE_I16 c) 0x5A, tv (UVM_TYPE_I32 c) 0x5B, tv (UVM_TYPE_I64 c) 0x5C],
      sig 0x5D INSTR_FLAG_ENCODE_TYPE [INT_TYPE, INT_REG, INT_REG] []],
     [sig 0x61 INSTR_FLAG_TYPE_VARIANTS [INT_TYPE, INT_REG, INT_NUM] [tv (UVM_TYPE_I8 c) 0x61, tv (UVM_TYPE_I16 c) 0x62, tv (UVM_TYPE_I32 c) 0x63, tv (UVM_TYPE_I64 c) 0x64],
      sig 0x65 INSTR_FLAG_ENCODE_TYPE [INT_TYPE, INT_REG, INT_REG] []],
     [sig 0x66 INSTR_FLAG_TYPE_VARIANTS [FLOAT_TYPE, FLOAT_REG, FLOAT_NUM] [tv (UVM_TYPE_F32 c) 0x66, tv (UVM_TYPE_F64 c) 0x67],
      sig 0x68 INSTR_FLAG_ENCODE_TYPE [FLOAT_TYPE, FLOAT_REG, FLOAT_REG] []],
     [sig 0x69 INSTR_FLAG_TYPE_VARIANTS [INT_TYPE, INT_REG, INT_NUM] [tv (UVM_TYPE_I8 c) 0x69, tv (UVM_TYPE_I16 c) 0x6A, tv (UVM_TYPE_I32 c) 0x6B, tv (UVM_TYPE_I64 c) 0x6C],
      sig 0x6D INSTR_FLAG_ENCODE_TYPE [INT_TYPE, INT_REG, INT_REG] []],
     [sig 0x86 INSTR_FLAG_ENCODE_TYPE [FLOAT_TYPE, FLOAT_REG] []],
     [sig 0x96 INSTR_FLAG_ENCODE_TYPE [INT_TYPE, INT_REG, INT_REG] []],
     [sig 0x75 INSTR_FLAG_ENCODE_TYPE [INT_TYPE, INT_REG, INT_REG] []],
     [sig 0x85 INSTR_FLAG_ENCODE_TYPE [INT_TYPE, INT_REG, INT_REG] []],
     [sig 0x95 INSTR_FLAG_ENCODE_TYPE [INT_TYPE, INT_REG, INT_REG] []],
     [sig 0xA5 INSTR_FLAG_ENCODE_TYPE [INT_TYPE, INT_REG] []],
     [sig 0x76 0 [INT_REG, INT_REG] []],
     [sig 0x77 0 [INT_REG, INT_REG] []],
     [sig 0x78 0 [INT_REG, INT_REG] []],
     [sig 0xB1 0 [INT_REG] []],
     [sig 0xB2 0 [INT_REG] []],
     [sig 0xB3 0 [INT_REG] []],
     [sig 0xC1 0 [INT_REG] []],
     [sig 0xC2 0 [INT_REG] []],
     [sig 0xC3 0 [INT_REG] []],
     [sig 0xB4 0 [FLOAT_REG] []],
     [sig 0xC4 0 [FLOAT_REG] []],
     [sig 0xB5 0 [INT_REG, FLOAT_REG] []],
     [sig 0xC5 0 [INT_REG, FLOAT_REG] []],
     [sig 0xB6 0 [FLOAT_REG, INT_REG] []],
     [sig 0xC6 0 [FLOAT_REG, INT_REG] []],
     [sig 0xD1 INSTR_FLAG_ENCODE_TYPE [INT_TYPE, INT_REG, INT_REG] []],
     [sig 0xD5 INSTR_FLAG_ENCODE_TYPE [FLOAT_TYPE, FLOAT_REG, FLOAT_REG] []],
     [sig 0xE1 0 [LABEL_ID] []],
     [sig 0xE2 0 [LABEL_ID] []],
     [sig 0xE3 0 [LABEL_ID] []],
     [sig 0xE4 0 [LABEL_ID] []],
     [sig 0xE5 0 [LABEL_ID] []],
     [sig 0xE6 0 [LABEL_ID] []],
     [sig 0xE7 0 [LABEL_ID] []]]"

text \<open>
  Modelled from the spec: the construction of the signature trie \<open>InstrDefs\<close> from the
  table, which is code of the repository that is not among the sources. Section 4.2:
  each node branches on the category of the next operand, the node reached after the
  last operand carries the signature, and a mnemonic without operands is a root with
  the signature and no children. Children are kept in the order in which the table
  first mentions them. The \<open>Type\<close> of a root is never read.
\<close>

fun upd_child :: "(InstrDefNode \<Rightarrow> InstrDefNode) \<Rightarrow> InstrParamType \<Rightarrow> InstrDefNode list
    \<Rightarrow> InstrDefNode list" where
  "upd_child f t [] = [f (InstrDefNode t None [])]"
| "upd_child f t (ch # chs) =
     (if InstrDefNode.Type ch = t then f ch # chs else ch # upd_child f t chs)"

primrec insertSig :: "InstrParamList \<Rightarrow> InstrParamType list \<Rightarrow> InstrDefNode \<Rightarrow> InstrDefNode" where
  "insertSig pl [] = (\<lambda>n. InstrDefNode (InstrDefNode.Type n) (Some pl) (Children n))"
| "insertSig pl (t # ts) =
     (\<lambda>n. InstrDefNode (InstrDefNode.Type n) (ParamList n) (upd_child (insertSig pl ts) t (Children n)))"

definition buildInstrDefNode :: "InstrParamList list \<Rightarrow> InstrDefNode" where
  "buildInstrDefNode sigs =
     foldl (\<lambda>n pl. insertSig pl (InstrParamList.Params pl) n) (InstrDefNode INT_TYPE None []) sigs"

definition buildInstrDefs :: "AsmConsts \<Rightarrow> InstrDefNode list" where
  "buildInstrDefs c = map buildInstrDefNode (INSTR_ASM_DEFS c)"

section \<open>Sections, the file node and the tables of the parser\<close>

record Instruction = ASTNode +
  Name :: string
  Params :: "Node list"
  ASMDefIndex :: u32
  Opcode :: u8
  EncodingFlags :: u8
  ParamList :: "InstrParamList option"

record ASTVariable = ASTNode +
  Id :: Identifier
  DataType :: TypeInfo
  Val :: Node
  VarDeclIndex :: u32

text \<open>
  The elements of \<open>ASTSection::Body\<close>: an instruction, a variable, or one of the
  childless nodes (a label definition in the code section).
\<close>

datatype BodyNode =
    InstructionNode Instruction
  | VariableNode ASTVariable
  | LeafNode Node

record ASTSection = ASTNode +
  SecType :: ASTSectionType
  Name :: string
  Body :: "BodyNode list"

record ASTFileNode =
  SecStatic :: "ASTSection option"
  SecGlobal :: "ASTSection option"
  SecCode :: "ASTSection option"

record LabelDefLookup =
  Def :: LabelDef
  VAddr :: u64

text \<open>
  Modelled from the spec: the struct VarDeclaration of asm.hpp, which is not among the
  sources; typeCheckVars and checkVarRefs use its fields \<open>Id\<close> and \<open>SecPerm\<close>.
\<close>

record VarDeclaration =
  Id :: Identifier
  SecPerm :: u8

text \<open>
  Modelled from the spec: the token of token.hpp, which is not among the sources
  (section 6: kind, byte index, byte size, line row, line column, and a tag that holds
  the register id of a register token and the type code of a type token).
\<close>

datatype TokenType =
    IDENTIFIER | INSTRUCTION | TYPE_INFO | REGISTER_DEFINITION
  | INTEGER_NUMBER | FLOAT_NUMBER | STRING | LABEL_DEF
  | LEFT_CURLY_BRACKET | RIGHT_CURLY_BRACKET | LEFT_SQUARE_BRACKET | RIGHT_SQUARE_BRACKET
  | PLUS_SIGN | MINUS_SIGN | ASTERISK | COLON | COMMA | EQUALS_SIGN | EOL | END_OF_FILE

record Token =
  Type :: TokenType
  Index :: u32
  Size :: u32
  LineRow :: u32
  LineCol :: u32
  Tag :: u8

text \<open>
  What the program writes to the console: \<open>printError\<close> (cli.hpp, not among the
  sources) is called with a source position and a message; the two messages about a
  missing main label go to \<open>std::cout\<close> directly.
\<close>

datatype Diag =
    TokenError string u32 u32 u32 u32
  | ConsoleLine string

datatype Fault = NullPointer | OutOfBounds | UncaughtException

text \<open>
  The members of the class Parser. \<open>Console\<close> is the output written so far, and
  \<open>LabelRefs\<close> is the local vector \<open>labelRefs\<close> of typeCheck, kept in the state so
  that it can be inspected after the pass.
\<close>

record Parser =
  InstrDefs :: "InstrDefNode list"
  Src :: string
  Tokens :: "Token list"
  FileNode :: ASTFileNode
  LabelDefs :: "LabelDefLookup list"
  VarDecls :: "VarDeclaration list"
  Cursor :: nat
  LabelRefs :: "Identifier list"
  Console :: "Diag list"

definition printError :: "u32 \<Rightarrow> u32 \<Rightarrow> u32 \<Rightarrow> u32 \<Rightarrow> string \<Rightarrow> Parser \<Rightarrow> Parser" where
  "printError idx sz row col msg p = p\<lparr> Console := Console p @ [TokenError msg idx sz row col] \<rparr>"

definition printLine :: "string \<Rightarrow> Parser \<Rightarrow> Parser" where
  "printLine msg p = p\<lparr> Console := Console p @ [ConsoleLine msg] \<rparr>"


section \<open>Results of functions that can fail\<close>

text \<open>
  A run of a function either ends in a fault of the C++ program (a null pointer or an
  index out of range is used, an exception is not caught), \<open>Inl\<close>, or returns,
  \<open>Inr\<close>. \<open>andThen\<close> sequences two steps.
\<close>

definition andThen :: "Fault + 'a \<Rightarrow> ('a \<Rightarrow> Fault + 'b) \<Rightarrow> Fault + 'b" where
  "andThen m f = (case m of Inl e \<Rightarrow> Inl e | Inr x \<Rightarrow> f x)"

section \<open>The type checker (parser.cpp)\<close>

subsection \<open>typeCheckInstrParams\<close>

text \<open>
  The locals of the two nested loops of typeCheckInstrParams: \<open>nextNode\<close>, the operand
  \<open>astNode\<close> (written back into \<open>Params\<close> after the inner loop, since the loop
  assigns the literal's \<open>DataType\<close> through the pointer), the remembered \<open>type\<close>,
  the flag \<open>error\<close>, the vector \<open>labelRefs\<close> and the parser (for its console).
\<close>

record Walk =
  nextNode :: "InstrDefNode option"
  astNode :: Node
  typeRef :: "TypeInfo option"
  error :: bool
  refs :: "Identifier list"
  parser :: Parser

text \<open>One pass through the \<open>switch\<close> for the child \<open>ch\<close> of the current node.\<close>

definition matchChild :: "AsmConsts \<Rightarrow> InstrDefNode \<Rightarrow> Walk \<Rightarrow> Fault + Walk" where
  "matchChild c ch w =
    (case InstrDefNode.Type ch of
       INT_TYPE \<Rightarrow>
         (case astNode w of
            TypeInfoNode typeInfo \<Rightarrow>
              if TypeInfo.DataType typeInfo \<noteq> UVM_TYPE_I8 c \<and>
                 TypeInfo.DataType typeInfo \<noteq> UVM_TYPE_I16 c \<and>
                 TypeInfo.DataType typeInfo \<noteq> UVM_TYPE_I32 c \<and>
                 TypeInfo.DataType typeInfo \<noteq> UVM_TYPE_I64 c
              then Inr (w\<lparr> parser := printError (ASTNode.Index typeInfo) (ASTNode.Size typeInfo)
                          (ASTNode.LineRow typeInfo) (ASTNode.LineCol typeInfo)
                          ''Expected int type found float type'' (parser w) \<rparr>)
              else Inr (w\<lparr> typeRef := Some typeInfo, nextNode := Some ch \<rparr>)
          | _ \<Rightarrow> Inr w)
     | FLOAT_TYPE \<Rightarrow>
         (case astNode w of
            TypeInfoNode typeInfo \<Rightarrow>
              if TypeInfo.DataType typeInfo \<noteq> UVM_TYPE_F32 c \<and>
                 TypeInfo.DataType typeInfo \<noteq> UVM_TYPE_F64 c
              then Inr (w\<lparr> parser := printError (ASTNode.Index typeInfo) (ASTNode.Size typeInfo)
                          (ASTNode.LineRow typeInfo) (ASTNode.LineCol typeInfo)
                          ''Expected float type found int type'' (parser w) \<rparr>)
              else Inr (w\<lparr> typeRef := Some typeInfo, nextNode := Some ch \<rparr>)
          | _ \<Rightarrow> Inr w)
     | LABEL_ID \<Rightarrow>
         (case astNode w of
            IdentifierNode labelRef \<Rightarrow> Inr (w\<lparr> refs := refs w @ [labelRef], nextNode := Some ch \<rparr>)
          | _ \<Rightarrow> Inr w)
     | INT_REG \<Rightarrow>
         (case astNode w of
            RegisterIdNode regId \<Rightarrow>
              if getRegisterType (RegisterId.Id regId) \<noteq> INTEGER
              then Inr (w\<lparr> parser := printError (ASTNode.Index regId) (ASTNode.Size regId)
                          (ASTNode.LineRow regId) (ASTNode.LineCol regId)
                          ''Expected integer register'' (parser w) \<rparr>)
              else Inr (w\<lparr> nextNode := Some ch \<rparr>)
          | _ \<Rightarrow> Inr w)
     | FLOAT_REG \<Rightarrow>
         (case astNode w of
            RegisterIdNode regId \<Rightarrow>
              if getRegisterType (RegisterId.Id regId) \<noteq> FLOAT
              then Inr (w\<lparr> parser := printError (ASTNode.Index regId) (ASTNode.Size regId)
                          (ASTNode.LineRow regId) (ASTNode.LineCol regId)
                          ''Expected float register'' (parser w) \<rparr>)
              else Inr (w\<lparr> nextNode := Some ch \<rparr>)
          | _ \<Rightarrow> Inr w)
     | REG_OFFSET \<Rightarrow>
         (case astNode w of
            RegisterOffsetNode ro \<Rightarrow> Inr (w\<lparr> nextNode := Some ch \<rparr>)
          | _ \<Rightarrow> Inr w)
     | INT_NUM \<Rightarrow>
         (case astNode w of
            IntNode num0 \<Rightarrow>
              (case typeRef w of
                 None \<Rightarrow> Inl NullPointer
               | Some ty \<Rightarrow>
                   let num = num0\<lparr> ASTInt.DataType := TypeInfo.DataType ty \<rparr>;
                       w1 = (if \<not> checkIntWidth c (ASTInt.Num num) (ASTInt.DataType num) (IsSigned num)
                             then w\<lparr> parser := printError (ASTNode.Index num) (ASTNode.Size num)
                                       (ASTNode.LineRow num) (ASTNode.LineCol num)
                                       ''Integer does not fit into given type'' (parser w),
                                     error := True \<rparr>
                             else w)
                   in Inr (w1\<lparr> astNode := IntNode num, nextNode := Some ch \<rparr>))
          | _ \<Rightarrow> Inr w)
     | FLOAT_NUM \<Rightarrow>
         (case astNode w of
            FloatNode num0 \<Rightarrow>
              (case typeRef w of
                 None \<Rightarrow> Inl NullPointer
               | Some ty \<Rightarrow>
                   let num = num0\<lparr> ASTFloat.DataType := TypeInfo.DataType ty \<rparr>;
                       w1 = (if \<not> checkFloatWidth c (ASTFloat.Num num) (ASTFloat.DataType num)
                             then w\<lparr> parser := printError (ASTNode.Index num) (ASTNode.Size num)
                                       (ASTNode.LineRow num) (ASTNode.LineCol num)
                                       ''Float does not fit into given type'' (parser w),
                                     error := True \<rparr>
                             else w)
                   in Inr (w1\<lparr> astNode := FloatNode num, nextNode := Some ch \<rparr>))
          | _ \<Rightarrow> Inr w)
     | SYS_INT \<Rightarrow>
         (case astNode w of
            IntNode num0 \<Rightarrow>
              Inr (w\<lparr> astNode := IntNode (num0\<lparr> ASTInt.DataType := UVM_TYPE_I8 c \<rparr>),
                      nextNode := Some ch \<rparr>)
          | _ \<Rightarrow> Inr w))"

text \<open>The inner loop \<open>for n\<close>: it runs over all children and does not stop at a match.\<close>

fun matchChildren :: "AsmConsts \<Rightarrow> InstrDefNode list \<Rightarrow> Walk \<Rightarrow> Fault + Walk" where
  "matchChildren c [] w = Inr w"
| "matchChildren c (ch # chs) w = andThen (matchChild c ch w) (matchChildren c chs)"

text \<open>
  The outer loop \<open>for i\<close> from the current node on, over the operands that are left.
  It returns \<open>paramList\<close> (set only when the last operand was matched), the operands
  as the loop leaves them, and the locals.
\<close>

fun walkParams :: "AsmConsts \<Rightarrow> InstrDefNode \<Rightarrow> Node list \<Rightarrow> Walk
    \<Rightarrow> Fault + (InstrParamList option \<times> Node list \<times> Walk)" where
  "walkParams c currentNode [] w = Inr (None, [], w)"
| "walkParams c currentNode (a # as) w =
     andThen (matchChildren c (Children currentNode) (w\<lparr> nextNode := None, astNode := a \<rparr>))
       (\<lambda>w1. case nextNode w1 of
                None \<Rightarrow> Inr (None, astNode w1 # as, w1)
              | Some nx \<Rightarrow>
                  if as = [] then Inr (InstrDefNode.ParamList nx, [astNode w1], w1)
                  else andThen (walkParams c nx as w1)
                         (\<lambda>(paramList, as1, w2). Inr (paramList, astNode w1 # as1, w2)))"

text \<open>The loop that looks the remembered type up in the variant table; the last match wins.\<close>

fun findVariant :: "TypeVariant list \<Rightarrow> TypeInfo option \<Rightarrow> u8 \<Rightarrow> Fault + u8" where
  "findVariant [] ty opcode = Inr opcode"
| "findVariant (v # vs) ty opcode =
     (case ty of
        None \<Rightarrow> Inl NullPointer
      | Some t \<Rightarrow>
          findVariant vs ty (if TypeVariant.Type v = TypeInfo.DataType t then TypeVariant.Opcode v else opcode))"

definition typeCheckInstrParams :: "AsmConsts \<Rightarrow> Instruction \<Rightarrow> Identifier list \<Rightarrow> Parser
    \<Rightarrow> Fault + (bool \<times> Instruction \<times> Identifier list \<times> Parser)" where
  "typeCheckInstrParams c instr labelRefs p =
    (if length (InstrDefs p) \<le> unat (ASMDefIndex instr) then Inl OutOfBounds
     else
       let paramNode = InstrDefs p ! unat (ASMDefIndex instr) in
       case Instruction.Params instr of
         [] \<Rightarrow>
           if Children paramNode = [] then
             (case InstrDefNode.ParamList paramNode of
                None \<Rightarrow> Inl NullPointer
              | Some pl \<Rightarrow>
                  Inr (True,
                       instr\<lparr> Instruction.Opcode := InstrParamList.Opcode pl, EncodingFlags := Flags pl \<rparr>,
                       labelRefs, p))
           else
             Inr (False, instr, labelRefs,
                  printError (ASTNode.Index instr) (of_nat (length (Instruction.Name instr)))
                    (ASTNode.LineRow instr) (ASTNode.LineCol instr)
                    ''Expected parameters found none'' p)
       | a # as \<Rightarrow>
           andThen (walkParams c paramNode (a # as)
                      \<lparr> nextNode = None, astNode = a, typeRef = None, error = False,
                        refs = labelRefs, parser = p \<rparr>)
             (\<lambda>(paramList, params1, w).
                let instr1 = instr\<lparr> Instruction.Params := params1 \<rparr> in
                case paramList of
                  None \<Rightarrow>
                    Inr (False, instr1, refs w,
                         printError (ASTNode.Index instr) (of_nat (length (Instruction.Name instr)))
                           (ASTNode.LineRow instr) (ASTNode.LineCol instr)
                           ''Error no matching parameter list found for instruction'' (parser w))
                | Some pl \<Rightarrow>
                    if error w then Inr (False, instr1, refs w, parser w)
                    else if Flags pl AND INSTR_FLAG_TYPE_VARIANTS \<noteq> 0 then
                      andThen (findVariant (OpcodeVariants pl) (typeRef w) 0)
                        (\<lambda>opcode. Inr (True,
                           instr1\<lparr> Instruction.Opcode := opcode, EncodingFlags := Flags pl \<rparr>,
                           refs w, parser w))
                    else
                      Inr (True,
                           instr1\<lparr> Instruction.Opcode := InstrParamList.Opcode pl,
                                   EncodingFlags := Flags pl \<rparr>,
                           refs w, parser w)))"

subsection \<open>typeCheckVars\<close>

text \<open>
  The loop of typeCheckVars over the body of a section. A body element that is not
  an ASTVariable makes the \<open>dynamic_cast\<close> return null, which is then dereferenced.
\<close>

fun typeCheckVarsLoop :: "AsmConsts \<Rightarrow> ASTSectionType \<Rightarrow> BodyNode list \<Rightarrow> bool \<Rightarrow> Parser
    \<Rightarrow> Fault + (bool \<times> BodyNode list \<times> Parser)" where
  "typeCheckVarsLoop c secType [] valid p = Inr (valid, [], p)"
| "typeCheckVarsLoop c secType (VariableNode var # rest) valid p =
     (if list_ex (\<lambda>varDecl. Identifier.Name (VarDeclaration.Id varDecl) = Identifier.Name (ASTVariable.Id var))
           (VarDecls p)
      then
        andThen (typeCheckVarsLoop c secType rest False
                   (printError (ASTNode.Index var) (ASTNode.Size var) (ASTNode.LineRow var)
                      (ASTNode.LineCol var) ''Variable redefiniton'' p))
          (\<lambda>(valid1, rest1, p1). Inr (valid1, VariableNode var # rest1, p1))
      else
        let varDecl = \<lparr> VarDeclaration.Id = ASTVariable.Id var,
                        SecPerm = (case secType of
                                     STATIC \<Rightarrow> SEC_PERM_READ c
                                   | GLOBAL \<Rightarrow> SEC_PERM_READ c AND SEC_PERM_WRITE c
                                   | CODE \<Rightarrow> SEC_PERM_READ c AND SEC_PERM_EXECUTE c) \<rparr>;
            var1 = var\<lparr> VarDeclIndex := of_nat (length (VarDecls p)) \<rparr>
        in andThen (typeCheckVarsLoop c secType rest valid (p\<lparr> VarDecls := VarDecls p @ [varDecl] \<rparr>))
             (\<lambda>(valid1, rest1, p1). Inr (valid1, VariableNode var1 # rest1, p1)))"
| "typeCheckVarsLoop c secType (node # rest) valid p = Inl NullPointer"

definition typeCheckVars :: "AsmConsts \<Rightarrow> ASTSection \<Rightarrow> Parser
    \<Rightarrow> Fault + (bool \<times> ASTSection \<times> Parser)" where
  "typeCheckVars c sec p =
     andThen (typeCheckVarsLoop c (SecType sec) (Body sec) True p)
       (\<lambda>(valid, body, p1). Inr (valid, sec\<lparr> Body := body \<rparr>, p1))"

subsection \<open>checkVarRefs\<close>

fun checkVarRefsParams :: "Node list \<Rightarrow> bool \<Rightarrow> Parser \<Rightarrow> bool \<times> Parser" where
  "checkVarRefsParams [] valid p = (valid, p)"
| "checkVarRefsParams (RegisterOffsetNode ro # rest) valid p =
     (case Var ro of
        None \<Rightarrow> checkVarRefsParams rest valid p
      | Some v \<Rightarrow>
          if list_ex (\<lambda>decl. Identifier.Name (VarDeclaration.Id decl) = Identifier.Name v) (VarDecls p)
          then checkVarRefsParams rest valid p
          else checkVarRefsParams rest False
                 (printError (ASTNode.Index v) (ASTNode.Size v) (ASTNode.LineRow v) (ASTNode.LineCol v)
                    ''Variable reference does not exist'' p))"
| "checkVarRefsParams (instrParam # rest) valid p = checkVarRefsParams rest valid p"

fun checkVarRefsBody :: "BodyNode list \<Rightarrow> bool \<Rightarrow> Parser \<Rightarrow> bool \<times> Parser" where
  "checkVarRefsBody [] valid p = (valid, p)"
| "checkVarRefsBody (InstructionNode instr # rest) valid p =
     (case checkVarRefsParams (Instruction.Params instr) valid p of
        (valid1, p1) \<Rightarrow> checkVarRefsBody rest valid1 p1)"
| "checkVarRefsBody (node # rest) valid p = checkVarRefsBody rest valid p"

definition checkVarRefs :: "Parser \<Rightarrow> Fault + (bool \<times> Parser)" where
  "checkVarRefs p =
     (case SecCode (FileNode p) of
        None \<Rightarrow> Inl NullPointer
      | Some code \<Rightarrow> Inr (checkVarRefsBody (Body code) True p))"

subsection \<open>typeCheck\<close>

text \<open>One round of the loop over the static and the global section.\<close>

definition typeCheckSection :: "AsmConsts \<Rightarrow> ASTSection option \<Rightarrow> bool \<Rightarrow> Parser
    \<Rightarrow> Fault + (ASTSection option \<times> bool \<times> Parser)" where
  "typeCheckSection c sec typeCheckError p =
     (case sec of
        None \<Rightarrow> Inr (None, typeCheckError, p)
      | Some s \<Rightarrow>
          andThen (typeCheckVars c s p)
            (\<lambda>(valid, s1, p1). Inr (Some s1, (if \<not> valid then True else typeCheckError), p1)))"

text \<open>The search for the label \<open>main\<close>: \<open>mainEntry\<close> is non-null afterwards.\<close>

fun isMainLabel :: "BodyNode \<Rightarrow> bool" where
  "isMainLabel (LeafNode (LabelDefNode label)) = (LabelDef.Name label = ''main'')"
| "isMainLabel node = False"

definition findMainEntry :: "BodyNode list \<Rightarrow> bool" where
  "findMainEntry body = list_ex isMainLabel body"

text \<open>The loop over the body of the code section.\<close>

fun typeCheckBody :: "AsmConsts \<Rightarrow> BodyNode list \<Rightarrow> bool \<Rightarrow> Identifier list \<Rightarrow> Parser
    \<Rightarrow> Fault + (BodyNode list \<times> bool \<times> Identifier list \<times> Parser)" where
  "typeCheckBody c [] typeCheckError labelRefs p = Inr ([], typeCheckError, labelRefs, p)"
| "typeCheckBody c (LeafNode (LabelDefNode label) # rest) typeCheckError labelRefs p =
     (let labelRedef = list_ex (\<lambda>d. LabelDef.Name (Def d) = LabelDef.Name label) (LabelDefs p);
          p1 = (if labelRedef
                then printError (ASTNode.Index label) (of_nat (length (LabelDef.Name label)))
                       (ASTNode.LineRow label) (ASTNode.LineCol label)
                       ''Label is already defined'' p
                else p);
          p2 = p1\<lparr> LabelDefs := LabelDefs p1 @ [\<lparr> Def = label, VAddr = 0 \<rparr>] \<rparr>
      in andThen (typeCheckBody c rest (if labelRedef then True else typeCheckError) labelRefs p2)
           (\<lambda>(rest1, e, refs1, p3). Inr (LeafNode (LabelDefNode label) # rest1, e, refs1, p3)))"
| "typeCheckBody c (InstructionNode instr # rest) typeCheckError labelRefs p =
     andThen (typeCheckInstrParams c instr labelRefs p)
       (\<lambda>(ok, instr1, refs1, p1).
          andThen (typeCheckBody c rest (if \<not> ok then True else typeCheckError) refs1 p1)
            (\<lambda>(rest1, e, refs2, p2). Inr (InstructionNode instr1 # rest1, e, refs2, p2)))"
| "typeCheckBody c (globElem # rest) typeCheckError labelRefs p =
     andThen (typeCheckBody c rest typeCheckError labelRefs p)
       (\<lambda>(rest1, e, refs1, p1). Inr (globElem # rest1, e, refs1, p1))"

text \<open>The loop that resolves the collected label references.\<close>

fun checkLabelRefs :: "Identifier list \<Rightarrow> bool \<Rightarrow> Parser \<Rightarrow> bool \<times> Parser" where
  "checkLabelRefs [] typeCheckError p = (typeCheckError, p)"
| "checkLabelRefs (labelRef # rest) typeCheckError p =
     (if list_ex (\<lambda>d. Identifier.Name labelRef = LabelDef.Name (Def d)) (LabelDefs p)
      then checkLabelRefs rest typeCheckError p
      else checkLabelRefs rest True
             (printError (ASTNode.Index labelRef) (of_nat (length (Identifier.Name labelRef)))
                (ASTNode.LineRow labelRef) (ASTNode.LineCol labelRef) ''Unresolved label'' p))"

definition typeCheck :: "AsmConsts \<Rightarrow> Parser \<Rightarrow> Fault + (bool \<times> Parser)" where
  "typeCheck c p =
     andThen (typeCheckSection c (SecStatic (FileNode p)) False p)
       (\<lambda>(secStatic, e1, p1).
     andThen (typeCheckSection c (SecGlobal (FileNode p)) e1 p1)
       (\<lambda>(secGlobal, e2, p2).
     let p3 = p2\<lparr> FileNode := (FileNode p2)\<lparr> SecStatic := secStatic, SecGlobal := secGlobal \<rparr> \<rparr> in
     case SecCode (FileNode p3) of
       None \<Rightarrow> Inl NullPointer
     | Some code \<Rightarrow>
         if Body code = [] then Inr (False, printLine ''[Type Checker] Missing main label'' p3)
         else if \<not> findMainEntry (Body code)
         then Inr (False, printLine ''[Type Checker] Missing main entry'' p3)
         else
           andThen (typeCheckBody c (Body code) e2 [] p3)
             (\<lambda>(body, e3, labelRefs, p4).
                let p5 = p4\<lparr> FileNode := (FileNode p4)\<lparr> SecCode := Some (code\<lparr> Body := body \<rparr>) \<rparr>,
                             LabelRefs := labelRefs \<rparr>
                in case checkLabelRefs labelRefs e3 p5 of
                     (e4, p6) \<Rightarrow>
                       andThen (checkVarRefs p6)
                         (\<lambda>(valid, p7). Inr (\<not> (if \<not> valid then True else e4), p7)))))"

text \<open>The magnitude that the integer range rule of the specification speaks of.\<close>

definition magnitude :: "u64 \<Rightarrow> bool \<Rightarrow> int" where
  "magnitude num isSigned = (if isSigned then \<bar>sint num\<bar> else uint num)"

section \<open>Notions used to state and prove the properties\<close>

text \<open>
  \<open>console_ext p p1\<close>: \<open>p1\<close> is \<open>p\<close> with more output on the console and nothing else
  changed.
\<close>

definition console_ext :: "Parser \<Rightarrow> Parser \<Rightarrow> bool" where
  "console_ext p p1 = (\<exists>ds. p1 = p\<lparr> Console := Console p @ ds \<rparr>)"

text \<open>\<open>erase\<close> forgets the \<open>DataType\<close> that the type checker assigns to a literal.\<close>

fun erase :: "Node \<Rightarrow> Node" where
  "erase (IntNode n) = IntNode (n\<lparr> ASTInt.DataType := 0 \<rparr>)"
| "erase (FloatNode f) = FloatNode (f\<lparr> ASTFloat.DataType := 0 \<rparr>)"
| "erase a = a"

definition isIntType :: "AsmConsts \<Rightarrow> u8 \<Rightarrow> bool" where
  "isIntType c t = (t = UVM_TYPE_I8 c \<or> t = UVM_TYPE_I16 c \<or> t = UVM_TYPE_I32 c \<or> t = UVM_TYPE_I64 c)"

definition isFloatType :: "AsmConsts \<Rightarrow> u8 \<Rightarrow> bool" where
  "isFloatType c t = (t = UVM_TYPE_F32 c \<or> t = UVM_TYPE_F64 c)"

text \<open>
  The acceptance rule of each parameter category (section 4.2 of the specification),
  and the operands on which a category prints a mismatch diagnostic.
\<close>

fun operandAccepted :: "AsmConsts \<Rightarrow> InstrParamType \<Rightarrow> Node \<Rightarrow> bool" where
  "operandAccepted c INT_TYPE (TypeInfoNode ti) = isIntType c (TypeInfo.DataType ti)"
| "operandAccepted c FLOAT_TYPE (TypeInfoNode ti) = isFloatType c (TypeInfo.DataType ti)"
| "operandAccepted c INT_REG (RegisterIdNode r) = (getRegisterType (RegisterId.Id r) = INTEGER)"
| "operandAccepted c FLOAT_REG (RegisterIdNode r) = (getRegisterType (RegisterId.Id r) = FLOAT)"
| "operandAccepted c REG_OFFSET (RegisterOffsetNode ro) = True"
| "operandAccepted c INT_NUM (IntNode n) = True"
| "operandAccepted c FLOAT_NUM (FloatNode f) = True"
| "operandAccepted c LABEL_ID (IdentifierNode i) = True"
| "operandAccepted c SYS_INT (IntNode n) = True"
| "operandAccepted c t a = False"

fun mismatch :: "AsmConsts \<Rightarrow> InstrParamType \<Rightarrow> Node \<Rightarrow> bool" where
  "mismatch c INT_TYPE (TypeInfoNode ti) = (\<not> isIntType c (TypeInfo.DataType ti))"
| "mismatch c FLOAT_TYPE (TypeInfoNode ti) = (\<not> isFloatType c (TypeInfo.DataType ti))"
| "mismatch c INT_REG (RegisterIdNode r) = (getRegisterType (RegisterId.Id r) \<noteq> INTEGER)"
| "mismatch c FLOAT_REG (RegisterIdNode r) = (getRegisterType (RegisterId.Id r) \<noteq> FLOAT)"
| "mismatch c t a = False"

text \<open>
  A trie is well separated when no node has children for both type classes or for both
  register classes. It is type guarded when a number category and a signature with type
  variants only occur below a type category.
\<close>

fun wellSeparated :: "InstrDefNode \<Rightarrow> bool" where
  "wellSeparated (InstrDefNode t pl chs) =
     (\<not> (INT_TYPE \<in> set (map InstrDefNode.Type chs) \<and> FLOAT_TYPE \<in> set (map InstrDefNode.Type chs))
      \<and> \<not> (INT_REG \<in> set (map InstrDefNode.Type chs) \<and> FLOAT_REG \<in> set (map InstrDefNode.Type chs))
      \<and> list_all wellSeparated chs)"

fun typeGuarded :: "bool \<Rightarrow> InstrDefNode \<Rightarrow> bool" where
  "typeGuarded seen (InstrDefNode t pl chs) =
     ((case pl of None \<Rightarrow> True | Some l \<Rightarrow> if OpcodeVariants l = [] then True else seen)
      \<and> list_all (\<lambda>ch.
           (if InstrDefNode.Type ch = INT_NUM \<or> InstrDefNode.Type ch = FLOAT_NUM then seen else True)
           \<and> typeGuarded (seen \<or> InstrDefNode.Type ch = INT_TYPE \<or> InstrDefNode.Type ch = FLOAT_TYPE) ch) chs)"

text \<open>
  A root is complete when it has children or carries a signature. A signature keeps
  the look-behind discipline when a number parameter only occurs after a leading type
  parameter and at most one type parameter occurs.
\<close>

definition rootComplete :: "InstrDefNode \<Rightarrow> bool" where
  "rootComplete n = (Children n \<noteq> [] \<or> InstrDefNode.ParamList n \<noteq> None)"

definition typeBeforeNumber :: "InstrParamList \<Rightarrow> bool" where
  "typeBeforeNumber pl =
     ((if INT_NUM \<in> set (InstrParamList.Params pl) \<or> FLOAT_NUM \<in> set (InstrParamList.Params pl)
       then (case InstrParamList.Params pl of [] \<Rightarrow> False | t # ts \<Rightarrow> t = INT_TYPE \<or> t = FLOAT_TYPE)
       else True)
      \<and> length (filter (\<lambda>t. t = INT_TYPE \<or> t = FLOAT_TYPE) (InstrParamList.Params pl)) \<le> 1)"

subsection \<open>Constructors\<close>

text \<open>
  The constructors that ast.hpp declares; their bodies (ast.cpp) are not among the
  sources. Each stores its arguments, a member with a default initialiser starts from
  it, and the \<open>DataType\<close> of a literal, which the declaration leaves uninitialised,
  starts at 0 in the model.
\<close>

definition new_LabelDef :: "u32 \<Rightarrow> u32 \<Rightarrow> u32 \<Rightarrow> u32 \<Rightarrow> string \<Rightarrow> LabelDef" where
  "new_LabelDef pos sz lineNr lineCol name =
     \<lparr> ASTNode.Index = pos, ASTNode.Size = sz, ASTNode.LineRow = lineNr, ASTNode.LineCol = lineCol,
       LabelDef.Name = name \<rparr>"

definition new_Identifier :: "u32 \<Rightarrow> u32 \<Rightarrow> u32 \<Rightarrow> u32 \<Rightarrow> string \<Rightarrow> Identifier" where
  "new_Identifier pos sz lineNr lineCol name =
     \<lparr> ASTNode.Index = pos, ASTNode.Size = sz, ASTNode.LineRow = lineNr, ASTNode.LineCol = lineCol,
       Identifier.Name = name \<rparr>"

definition new_Instruction :: "u32 \<Rightarrow> u32 \<Rightarrow> u32 \<Rightarrow> u32 \<Rightarrow> string \<Rightarrow> u32 \<Rightarrow> Instruction" where
  "new_Instruction pos sz lineNr lineCol name asmDefIndex =
     \<lparr> ASTNode.Index = pos, ASTNode.Size = sz, ASTNode.LineRow = lineNr, ASTNode.LineCol = lineCol,
       Instruction.Name = name, Instruction.Params = [], ASMDefIndex = asmDefIndex,
       Instruction.Opcode = 0, EncodingFlags = 0, Instruction.ParamList = None \<rparr>"

definition new_ASTFloat :: "u32 \<Rightarrow> u32 \<Rightarrow> u32 \<Rightarrow> u32 \<Rightarrow> double \<Rightarrow> ASTFloat" where
  "new_ASTFloat pos sz lineNr lineCol num =
     \<lparr> ASTNode.Index = pos, ASTNode.Size = sz, ASTNode.LineRow = lineNr, ASTNode.LineCol = lineCol,
       ASTFloat.Num = num, ASTFloat.DataType = 0 \<rparr>"

definition new_ASTInt :: "u32 \<Rightarrow> u32 \<Rightarrow> u32 \<Rightarrow> u32 \<Rightarrow> u64 \<Rightarrow> bool \<Rightarrow> ASTInt" where
  "new_ASTInt pos sz lineNr lineCol num isSigned =
     \<lparr> ASTNode.Index = pos, ASTNode.Size = sz, ASTNode.LineRow = lineNr, ASTNode.LineCol = lineCol,
       ASTInt.Num = num, ASTInt.DataType = 0, IsSigned = isSigned \<rparr>"

definition new_RegisterId :: "u32 \<Rightarrow> u32 \<Rightarrow> u32 \<Rightarrow> u32 \<Rightarrow> u8 \<Rightarrow> RegisterId" where
  "new_RegisterId pos sz lineNr lineCol regId =
     \<lparr> ASTNode.Index = pos, ASTNode.Size = sz, ASTNode.LineRow = lineNr, ASTNode.LineCol = lineCol,
       RegisterId.Id = regId \<rparr>"

definition new_RegisterOffset :: RegisterOffset where
  "new_RegisterOffset =
     \<lparr> ASTNode.Index = 0, ASTNode.Size = 0, ASTNode.LineRow = 0, ASTNode.LineCol = 0,
       Layout = 0, Base = None, Offset = None, Immediate = 0, Var = None \<rparr>"

definition new_TypeInfo :: "u32 \<Rightarrow> u32 \<Rightarrow> u32 \<Rightarrow> u32 \<Rightarrow> u8 \<Rightarrow> TypeInfo" where
  "new_TypeInfo pos sz lineNr lineCol dataType =
     \<lparr> ASTNode.Index = pos, ASTNode.Size = sz, ASTNode.LineRow = lineNr, ASTNode.LineCol = lineCol,
       TypeInfo.DataType = dataType \<rparr>"

definition new_ASTString :: "u32 \<Rightarrow> u32 \<Rightarrow> u32 \<Rightarrow> u32 \<Rightarrow> string \<Rightarrow> ASTString" where
  "new_ASTString pos sz lineNr lineCol v =
     \<lparr> ASTNode.Index = pos, ASTNode.Size = sz, ASTNode.LineRow = lineNr, ASTNode.LineCol = lineCol,
       ASTString.Val = v \<rparr>"

definition new_ASTVariable :: "u32 \<Rightarrow> u32 \<Rightarrow> u32 \<Rightarrow> u32 \<Rightarrow> Identifier \<Rightarrow> TypeInfo \<Rightarrow> Node \<Rightarrow> ASTVariable" where
  "new_ASTVariable pos sz lineNr lineCol ident dataType v =
     \<lparr> ASTNode.Index = pos, ASTNode.Size = sz, ASTNode.LineRow = lineNr, ASTNode.LineCol = lineCol,
       ASTVariable.Id = ident, ASTVariable.DataType = dataType, ASTVariable.Val = v, VarDeclIndex = 0 \<rparr>"

definition new_ASTSection :: "u32 \<Rightarrow> u32 \<Rightarrow> u32 \<Rightarrow> u32 \<Rightarrow> string \<Rightarrow> ASTSectionType \<Rightarrow> ASTSection" where
  "new_ASTSection pos sz lineNr lineCol name secType =
     \<lparr> ASTNode.Index = pos, ASTNode.Size = sz, ASTNode.LineRow = lineNr, ASTNode.LineCol = lineCol,
       SecType = secType, ASTSection.Name = name, Body = [] \<rparr>"

definition new_ASTFileNode :: ASTFileNode where
  "new_ASTFileNode = \<lparr> SecStatic = None, SecGlobal = None, SecCode = None \<rparr>"

text \<open>
  The constructor of Parser. The two vectors \<open>funcDefs\<close> and \<open>varDecls\<close> are output
  parameters, which the driver passes empty.
\<close>

definition new_Parser :: "InstrDefNode list \<Rightarrow> string \<Rightarrow> Token list \<Rightarrow> ASTFileNode \<Rightarrow> Parser" where
  "new_Parser instrDefs src tokens fileNode =
     \<lparr> InstrDefs = instrDefs, Src = src, Tokens = tokens, FileNode = fileNode,
       LabelDefs = [], VarDecls = [], Cursor = 0, LabelRefs = [], Console = [] \<rparr>"

subsection \<open>Sample programs\<close>

text \<open>
  The instructions \<open>push i32 42\<close> and \<open>exit\<close> and the label \<open>@main\<close> as the parser
  builds them for the text \<open>code {\<newline>@main\<newline>    push i32 42\<newline>    exit\<newline>}\<close>.
\<close>

definition ex_main :: LabelDef where
  "ex_main = new_LabelDef 7 5 2 1 ''main''"

definition ex_push :: "AsmConsts \<Rightarrow> Instruction" where
  "ex_push c = (new_Instruction 17 4 3 5 ''push'' 1)
     \<lparr> Instruction.Params := [TypeInfoNode (new_TypeInfo 22 3 3 10 (UVM_TYPE_I32 c)),
                              IntNode (new_ASTInt 26 2 3 14 42 False)] \<rparr>"

definition ex_exit :: Instruction where
  "ex_exit = new_Instruction 33 4 4 5 ''exit'' 9"

definition ex_code :: "AsmConsts \<Rightarrow> ASTSection" where
  "ex_code c = (new_ASTSection 0 4 1 1 ''code'' CODE)
     \<lparr> Body := [LeafNode (LabelDefNode ex_main), InstructionNode (ex_push c), InstructionNode ex_exit] \<rparr>"

definition ex_parser :: "AsmConsts \<Rightarrow> Parser" where
  "ex_parser c = new_Parser (buildInstrDefs c) [] []
     (new_ASTFileNode \<lparr> SecCode := Some (ex_code c) \<rparr>)"

text \<open>The variable \<open>counter : i64 = 0\<close> of the text \<open>global {\<newline>    counter : i64 = 0\<newline>}\<close>.\<close>

definition ex_counter :: "AsmConsts \<Rightarrow> ASTVariable" where
  "ex_counter c = new_ASTVariable 13 17 2 5 (new_Identifier 13 7 2 5 ''counter'')
     (new_TypeInfo 23 3 2 15 (UVM_TYPE_I64 c)) (IntNode (new_ASTInt 29 1 2 21 0 False))"

definition ex_global :: "AsmConsts \<Rightarrow> ASTSection" where
  "ex_global c = (new_ASTSection 0 6 1 1 ''global'' GLOBAL) \<lparr> Body := [VariableNode (ex_counter c)] \<rparr>"

text \<open>The instruction \<open>exit 1\<close>: an operand where the mnemonic takes none.\<close>

definition ex_exit_1 :: Instruction where
  "ex_exit_1 = ex_exit \<lparr> Instruction.Params := [IntNode (new_ASTInt 38 1 4 10 1 False)] \<rparr>"

text \<open>
  What the symbol rules speak of: the label definitions of a body, the variable
  identifiers that the register offsets of a body refer to, and the variables that a
  section declares.
\<close>

fun labelDefsOf :: "BodyNode list \<Rightarrow> LabelDef list" where
  "labelDefsOf [] = []"
| "labelDefsOf (LeafNode (LabelDefNode l) # rest) = l # labelDefsOf rest"
| "labelDefsOf (node # rest) = labelDefsOf rest"

fun varRefsOfParams :: "Node list \<Rightarrow> Identifier list" where
  "varRefsOfParams [] = []"
| "varRefsOfParams (RegisterOffsetNode ro # rest) =
     (case Var ro of None \<Rightarrow> varRefsOfParams rest | Some v \<Rightarrow> v # varRefsOfParams rest)"
| "varRefsOfParams (a # rest) = varRefsOfParams rest"

fun varRefsOf :: "BodyNode list \<Rightarrow> Identifier list" where
  "varRefsOf [] = []"
| "varRefsOf (InstructionNode instr # rest) = varRefsOfParams (Instruction.Params instr) @ varRefsOf rest"
| "varRefsOf (node # rest) = varRefsOf rest"

fun variablesOf :: "BodyNode list \<Rightarrow> ASTVariable list" where
  "variablesOf [] = []"
| "variablesOf (VariableNode v # rest) = v # variablesOf rest"
| "variablesOf (node # rest) = variablesOf rest"

definition bodyOf :: "ASTSection option \<Rightarrow> BodyNode list" where
  "bodyOf sec = (case sec of None \<Rightarrow> [] | Some s \<Rightarrow> Body s)"

definition declaredNames :: "ASTFileNode \<Rightarrow> string list" where
  "declaredNames f =
     map (\<lambda>v. Identifier.Name (ASTVariable.Id v))
       (variablesOf (bodyOf (SecStatic f)) @ variablesOf (bodyOf (SecGlobal f)))"

text \<open>
  \<open>reported e p e1 p1\<close>: from the state \<open>p\<close> with error flag \<open>e\<close> a step leads to \<open>p1\<close>
  with flag \<open>e1\<close>; the console did not shrink, and the flag is set afterwards exactly
  when it was set before or the console has grown.
\<close>

definition reported :: "bool \<Rightarrow> Parser \<Rightarrow> bool \<Rightarrow> Parser \<Rightarrow> bool" where
  "reported e p e1 p1 =
     (length (Console p) \<le> length (Console p1) \<and> e1 = (e \<or> length (Console p) < length (Console p1)))"

text \<open>\<open>same_tables p p1\<close>: only the console and the variable table differ.\<close>

definition same_tables :: "Parser \<Rightarrow> Parser \<Rightarrow> bool" where
  "same_tables p p1 = (InstrDefs p1 = InstrDefs p \<and> LabelDefs p1 = LabelDefs p
     \<and> FileNode p1 = FileNode p \<and> LabelRefs p1 = LabelRefs p)"

text \<open>The table entry that typeCheck appends for a label, and the state after that step.\<close>

definition lookupOf :: "LabelDef \<Rightarrow> LabelDefLookup" where
  "lookupOf l = \<lparr> Def = l, VAddr = 0 \<rparr>"

definition afterLabel :: "LabelDef \<Rightarrow> Parser \<Rightarrow> Parser" where
  "afterLabel label p =
     (let p1 = (if list_ex (\<lambda>d. LabelDef.Name (Def d) = LabelDef.Name label) (LabelDefs p)
                then printError (ASTNode.Index label) (of_nat (length (LabelDef.Name label)))
                       (ASTNode.LineRow label) (ASTNode.LineCol label)
                       ''Label is already defined'' p
                else p)
      in p1\<lparr> LabelDefs := LabelDefs p1 @ [\<lparr> Def = label, VAddr = 0 \<rparr>] \<rparr>)"

text \<open>A code section with two labels \<open>@main\<close>: the text \<open>code {\<newline>@main\<newline>@main\<newline>}\<close>.\<close>

definition ex_dup_code :: ASTSection where
  "ex_dup_code = (new_ASTSection 0 4 1 1 ''code'' CODE)
     \<lparr> Body := [LeafNode (LabelDefNode (new_LabelDef 7 5 2 1 ''main'')),
                LeafNode (LabelDefNode (new_LabelDef 13 5 3 1 ''main''))] \<rparr>"

definition ex_dup_parser :: "AsmConsts \<Rightarrow> Parser" where
  "ex_dup_parser c = new_Parser (buildInstrDefs c) [] []
     (new_ASTFileNode \<lparr> SecCode := Some ex_dup_code \<rparr>)"

text \<open>
  A file with a variable reference and a label reference, as the parser builds it for
  the text
  \<open>static {\<newline>    msg : i8 = "hi"\<newline>}\<newline>code {\<newline>@main\<newline>    lea [msg], r0\<newline>    jmp loop\<newline>@loop\<newline>    exit\<newline>}\<close>.
\<close>

definition ex_msg :: "AsmConsts \<Rightarrow> ASTVariable" where
  "ex_msg c = new_ASTVariable 13 15 2 5 (new_Identifier 13 3 2 5 ''msg'')
     (new_TypeInfo 19 2 2 11 (UVM_TYPE_I8 c)) (StringNode (new_ASTString 24 4 2 16 ''hi''))"

definition ex_lea :: Instruction where
  "ex_lea = (new_Instruction 48 3 6 5 ''lea'' 13)
     \<lparr> Instruction.Params :=
         [RegisterOffsetNode (new_RegisterOffset \<lparr> Var := Some (new_Identifier 53 3 6 10 ''msg'') \<rparr>),
          RegisterIdNode (new_RegisterId 59 2 6 16 0x05)] \<rparr>"

definition ex_jmp :: Instruction where
  "ex_jmp = (new_Instruction 66 3 7 5 ''jmp'' 47)
     \<lparr> Instruction.Params := [IdentifierNode (new_Identifier 70 4 7 9 ''loop'')] \<rparr>"

definition ex_refs_file :: "AsmConsts \<Rightarrow> ASTFileNode" where
  "ex_refs_file c = new_ASTFileNode
     \<lparr> SecStatic := Some ((new_ASTSection 0 6 1 1 ''static'' STATIC) \<lparr> Body := [VariableNode (ex_msg c)] \<rparr>),
       SecCode := Some ((new_ASTSection 31 4 4 1 ''code'' CODE)
         \<lparr> Body := [LeafNode (LabelDefNode (new_LabelDef 38 5 5 1 ''main'')),
                    InstructionNode ex_lea, InstructionNode ex_jmp,
                    LeafNode (LabelDefNode (new_LabelDef 75 5 8 1 ''loop'')),
                    InstructionNode ((new_Instruction 85 4 9 5 ''exit'' 9))] \<rparr>) \<rparr>"

definition ex_refs_parser :: "AsmConsts \<Rightarrow> Parser" where
  "ex_refs_parser c = new_Parser (buildInstrDefs c) [] [] (ex_refs_file c)"

text \<open>
  A trie is sound for a list of signatures when every signature that a node carries is
  in the list and its parameter list is the path of categories from the root to the
  node.
\<close>

fun trieSound :: "InstrParamList list \<Rightarrow> InstrParamType list \<Rightarrow> InstrDefNode \<Rightarrow> bool" where
  "trieSound sigs path (InstrDefNode t pl chs) =
     ((case pl of None \<Rightarrow> True | Some l \<Rightarrow> l \<in> set sigs \<and> InstrParamList.Params l = path)
      \<and> list_all (\<lambda>ch. trieSound sigs (path @ [InstrDefNode.Type ch]) ch) chs)"

text \<open>The last type operand of a list of operands, \<open>t\<close> when there is none.\<close>

fun lastTypeOf :: "TypeInfo option \<Rightarrow> Node list \<Rightarrow> TypeInfo option" where
  "lastTypeOf t [] = t"
| "lastTypeOf t (TypeInfoNode ti # as) = lastTypeOf (Some ti) as"
| "lastTypeOf t (a # as) = lastTypeOf t as"

text \<open>
  A signature with the flag TYPE_VARIANTS starts with its only type parameter and has
  one variant for each type of that class, in the order of the table.
\<close>

definition isTypeParam :: "InstrParamType \<Rightarrow> bool" where
  "isTypeParam t = (t = INT_TYPE \<or> t = FLOAT_TYPE)"

definition variantsCover :: "AsmConsts \<Rightarrow> InstrParamList \<Rightarrow> bool" where
  "variantsCover c l =
     (if Flags l AND INSTR_FLAG_TYPE_VARIANTS \<noteq> 0 then
        (case InstrParamList.Params l of
           [] \<Rightarrow> False
         | t # ts \<Rightarrow>
             list_all (\<lambda>t. \<not> isTypeParam t) ts \<and>
             (if t = INT_TYPE
              then map TypeVariant.Type (OpcodeVariants l)
                     = [UVM_TYPE_I8 c, UVM_TYPE_I16 c, UVM_TYPE_I32 c, UVM_TYPE_I64 c]
              else t = FLOAT_TYPE \<and>
                   map TypeVariant.Type (OpcodeVariants l) = [UVM_TYPE_F32 c, UVM_TYPE_F64 c]))
      else True)"

subsection \<open>The diagnostics of the pass\<close>

text \<open>
  The diagnostics of the pass, item by item. \<open>checkAlone\<close> checks one instruction on its
  own: against the definitions \<open>defs\<close>, with no label reference collected before and an
  empty console. \<open>instrDiags\<close> are the diagnostics of that check and \<open>instrRefs\<close> the
  label references that it collects.
\<close>

definition checkAlone :: "AsmConsts \<Rightarrow> InstrDefNode list \<Rightarrow> Instruction
    \<Rightarrow> Fault + (bool \<times> Instruction \<times> Identifier list \<times> Parser)" where
  "checkAlone c defs instr = typeCheckInstrParams c instr [] (new_Parser defs [] [] new_ASTFileNode)"

definition instrDiags :: "AsmConsts \<Rightarrow> InstrDefNode list \<Rightarrow> Instruction \<Rightarrow> Diag list" where
  "instrDiags c defs instr =
     (case checkAlone c defs instr of Inl f \<Rightarrow> [] | Inr (ok, instr1, refs1, p1) \<Rightarrow> Console p1)"

definition instrRefs :: "AsmConsts \<Rightarrow> InstrDefNode list \<Rightarrow> Instruction \<Rightarrow> Identifier list" where
  "instrRefs c defs instr =
     (case checkAlone c defs instr of Inl f \<Rightarrow> [] | Inr (ok, instr1, refs1, p1) \<Rightarrow> refs1)"

text \<open>
  \<open>repeated name seen xs\<close>: the elements of \<open>xs\<close> whose name is in \<open>seen\<close> or is the name
  of an element further to the front of \<open>xs\<close>.
\<close>

fun repeated :: "('a \<Rightarrow> string) \<Rightarrow> string set \<Rightarrow> 'a list \<Rightarrow> 'a list" where
  "repeated name seen [] = []"
| "repeated name seen (x # xs) =
     (if name x \<in> seen then x # repeated name (insert (name x) seen) xs
      else repeated name (insert (name x) seen) xs)"

definition varName :: "ASTVariable \<Rightarrow> string" where
  "varName v = Identifier.Name (ASTVariable.Id v)"

definition declNames :: "Parser \<Rightarrow> string set" where
  "declNames p = set (map (\<lambda>d. Identifier.Name (VarDeclaration.Id d)) (VarDecls p))"

definition labelNames :: "Parser \<Rightarrow> string set" where
  "labelNames p = set (map (\<lambda>d. LabelDef.Name (Def d)) (LabelDefs p))"

definition varDiag :: "ASTVariable \<Rightarrow> Diag" where
  "varDiag v = TokenError ''Variable redefiniton'' (ASTNode.Index v) (ASTNode.Size v)
                 (ASTNode.LineRow v) (ASTNode.LineCol v)"

definition labelDiag :: "LabelDef \<Rightarrow> Diag" where
  "labelDiag l = TokenError ''Label is already defined'' (ASTNode.Index l)
                   (of_nat (length (LabelDef.Name l))) (ASTNode.LineRow l) (ASTNode.LineCol l)"

definition refDiag :: "Identifier \<Rightarrow> Diag" where
  "refDiag r = TokenError ''Unresolved label'' (ASTNode.Index r)
                 (of_nat (length (Identifier.Name r))) (ASTNode.LineRow r) (ASTNode.LineCol r)"

definition varRefDiag :: "Identifier \<Rightarrow> Diag" where
  "varRefDiag v = TokenError ''Variable reference does not exist'' (ASTNode.Index v) (ASTNode.Size v)
                    (ASTNode.LineRow v) (ASTNode.LineCol v)"

text \<open>
  The diagnostics of the elements of the code section, in the order of the section: a
  label whose name is in \<open>seen\<close> or is the name of a label further to the front is a
  duplicate, and an instruction gives the diagnostics of its own check.
\<close>

fun bodyDiags :: "AsmConsts \<Rightarrow> InstrDefNode list \<Rightarrow> string set \<Rightarrow> BodyNode list \<Rightarrow> Diag list" where
  "bodyDiags c defs seen [] = []"
| "bodyDiags c defs seen (LeafNode (LabelDefNode l) # rest) =
     (if LabelDef.Name l \<in> seen then [labelDiag l] else [])
     @ bodyDiags c defs (insert (LabelDef.Name l) seen) rest"
| "bodyDiags c defs seen (InstructionNode instr # rest) =
     instrDiags c defs instr @ bodyDiags c defs seen rest"
| "bodyDiags c defs seen (node # rest) = bodyDiags c defs seen rest"

fun bodyRefs :: "AsmConsts \<Rightarrow> InstrDefNode list \<Rightarrow> BodyNode list \<Rightarrow> Identifier list" where
  "bodyRefs c defs [] = []"
| "bodyRefs c defs (InstructionNode instr # rest) = instrRefs c defs instr @ bodyRefs c defs rest"
| "bodyRefs c defs (node # rest) = bodyRefs c defs rest"

text \<open>
  The diagnostics of the whole pass over the file of the parser \<open>p\<close>: those of the
  variables of the static and the global section, then either the line about the missing
  label \<open>main\<close>, or those of the elements of the code section, of the label references
  that no label of the section resolves, and of the variable references that no variable
  resolves.
\<close>

definition passDiags :: "AsmConsts \<Rightarrow> Parser \<Rightarrow> Diag list" where
  "passDiags c p =
     (let vars = variablesOf (bodyOf (SecStatic (FileNode p)))
                 @ variablesOf (bodyOf (SecGlobal (FileNode p)));
          body = bodyOf (SecCode (FileNode p));
          declared = declNames p \<union> set (map varName vars);
          labels = labelNames p \<union> set (map LabelDef.Name (labelDefsOf body))
      in map varDiag (repeated varName (declNames p) vars)
         @ (if body = [] then [ConsoleLine ''[Type Checker] Missing main label'']
            else if \<not> findMainEntry body then [ConsoleLine ''[Type Checker] Missing main entry'']
            else bodyDiags c (InstrDefs p) (labelNames p) body
                 @ map refDiag (filter (\<lambda>r. Identifier.Name r \<notin> labels)
                                  (bodyRefs c (InstrDefs p) body))
                 @ map varRefDiag (filter (\<lambda>v. Identifier.Name v \<notin> declared) (varRefsOf body))))"

text \<open>\<open>rebase\<close> moves the locals of a walk that started from scratch behind a run so far.\<close>

definition rebase :: "Identifier list \<Rightarrow> Parser \<Rightarrow> Walk \<Rightarrow> Walk" where
  "rebase rs p w = w\<lparr> refs := rs @ refs w, parser := p\<lparr> Console := Console p @ Console (parser w) \<rparr> \<rparr>"

text \<open>
  A file with one error of each recoverable kind, as the parser builds it for the text
  \<open>static {\<newline>    x : i8 = 1\<newline>    x : i8 = 2\<newline>}\<newline>code {\<newline>@main\<newline>    push i8 256\<newline>    exit 1\<newline>    jmp nowhere\<newline>    lea [y], r0\<newline>@main\<newline>    exit\<newline>}\<close>.
\<close>

definition ex_errors_file :: "AsmConsts \<Rightarrow> ASTFileNode" where
  "ex_errors_file c = new_ASTFileNode
     \<lparr> SecStatic := Some ((new_ASTSection 0 6 1 1 ''static'' STATIC)
         \<lparr> Body := [VariableNode (new_ASTVariable 13 10 2 5 (new_Identifier 13 1 2 5 ''x'')
                       (new_TypeInfo 17 2 2 9 (UVM_TYPE_I8 c)) (IntNode (new_ASTInt 22 1 2 14 1 False))),
                    VariableNode (new_ASTVariable 28 10 3 5 (new_Identifier 28 1 3 5 ''x'')
                       (new_TypeInfo 32 2 3 9 (UVM_TYPE_I8 c)) (IntNode (new_ASTInt 37 1 3 14 2 False)))] \<rparr>),
       SecCode := Some ((new_ASTSection 41 4 5 1 ''code'' CODE)
         \<lparr> Body := [LeafNode (LabelDefNode (new_LabelDef 48 5 6 1 ''main'')),
                    InstructionNode ((new_Instruction 58 4 7 5 ''push'' 1)
                      \<lparr> Instruction.Params := [TypeInfoNode (new_TypeInfo 63 2 7 10 (UVM_TYPE_I8 c)),
                                               IntNode (new_ASTInt 66 3 7 13 256 False)] \<rparr>),
                    InstructionNode ((new_Instruction 74 4 8 5 ''exit'' 9)
                      \<lparr> Instruction.Params := [IntNode (new_ASTInt 79 1 8 10 1 False)] \<rparr>),
                    InstructionNode ((new_Instruction 85 3 9 5 ''jmp'' 47)
                      \<lparr> Instruction.Params := [IdentifierNode (new_Identifier 89 7 9 9 ''nowhere'')] \<rparr>),
                    InstructionNode ((new_Instruction 101 3 10 5 ''lea'' 13)
                      \<lparr> Instruction.Params :=
                          [RegisterOffsetNode (new_RegisterOffset
                             \<lparr> Var := Some (new_Identifier 106 1 10 10 ''y'') \<rparr>),
                           RegisterIdNode (new_RegisterId 110 2 10 14 0x05)] \<rparr>),
                    LeafNode (LabelDefNode (new_LabelDef 113 5 11 1 ''main'')),
                    InstructionNode (new_Instruction 123 4 12 5 ''exit'' 9)] \<rparr>) \<rparr>"

definition ex_errors_parser :: "AsmConsts \<Rightarrow> Parser" where
  "ex_errors_parser c = new_Parser (buildInstrDefs c) [] [] (ex_errors_file c)"

section \<open>The parser (parser.cpp)\<close>

subsection \<open>The source view\<close>

text \<open>
  Modelled from the spec: the source view (class SourceFile, not among the sources) is an
  immutable byte buffer with the helpers substring(index, size) and char_at(index)
  (section 2 of the specification). Here a range that leaves the buffer is cut at its
  end, and a position outside the buffer leaves the zero character that the callers
  initialise the output with.
\<close>

definition getSubStr :: "string \<Rightarrow> u32 \<Rightarrow> u32 \<Rightarrow> string" where
  "getSubStr src index sz = take (unat sz) (drop (unat index) src)"

definition getChar :: "string \<Rightarrow> u32 \<Rightarrow> char" where
  "getChar src index = (if unat index < length src then src ! unat index else CHR 0x00)"

subsection \<open>Conversion of numbers\<close>

text \<open>
  The library function \<open>std::stoull(str, 0, base)\<close> for the bases 10 and 16, as the
  C++ standard defines it through \<open>strtoull\<close>: white space is skipped, one sign is
  read, in base 16 a prefix 0x or 0X in front of a digit is read, and the longest run of
  digits of the base is converted. No digit is an \<open>invalid_argument\<close> exception and a
  value above \<open>2^64 - 1\<close> an \<open>out_of_range\<close> exception; a minus sign negates the
  value modulo \<open>2^64\<close>.
\<close>

datatype 'a Conversion = Converted 'a | OutOfRange | InvalidArgument

definition isSpace :: "char \<Rightarrow> bool" where
  "isSpace ch = (ch \<in> set [CHR 0x20, CHR 0x09, CHR 0x0A, CHR 0x0B, CHR 0x0C, CHR 0x0D])"

definition digitValue :: "char \<Rightarrow> nat option" where
  "digitValue ch =
     (let n = (of_char ch :: nat) in
      if 48 \<le> n \<and> n \<le> 57 then Some (n - 48)
      else if 97 \<le> n \<and> n \<le> 122 then Some (n - 87)
      else if 65 \<le> n \<and> n \<le> 90 then Some (n - 55)
      else None)"

definition isDigitOf :: "nat \<Rightarrow> char \<Rightarrow> bool" where
  "isDigitOf base ch = (case digitValue ch of None \<Rightarrow> False | Some d \<Rightarrow> d < base)"

fun digitsIn :: "nat \<Rightarrow> string \<Rightarrow> nat list" where
  "digitsIn base [] = []"
| "digitsIn base (ch # s) =
     (case digitValue ch of
        None \<Rightarrow> []
      | Some d \<Rightarrow> if d < base then d # digitsIn base s else [])"

definition numberOf :: "nat \<Rightarrow> nat list \<Rightarrow> nat" where
  "numberOf base ds = foldl (\<lambda>acc d. acc * base + d) 0 ds"

fun hexPrefix :: "string \<Rightarrow> bool" where
  "hexPrefix (a # b # ch # s) = (a = CHR ''0'' \<and> (b = CHR ''x'' \<or> b = CHR ''X'') \<and> isDigitOf 16 ch)"
| "hexPrefix s = False"

definition stoull :: "string \<Rightarrow> nat \<Rightarrow> u64 Conversion" where
  "stoull str base =
     (let s1 = dropWhile isSpace str;
          neg = (case s1 of [] \<Rightarrow> False | ch # s \<Rightarrow> ch = CHR ''-'');
          s2 = (case s1 of [] \<Rightarrow> [] | ch # s \<Rightarrow> if ch = CHR ''-'' \<or> ch = CHR ''+'' then s else s1);
          s3 = (if base = 16 \<and> hexPrefix s2 then drop 2 s2 else s2);
          ds = digitsIn base s3
      in if ds = [] then InvalidArgument
         else if 2 ^ 64 \<le> numberOf base ds then OutOfRange
         else Converted (if neg then - of_nat (numberOf base ds) else of_nat (numberOf base ds)))"

text \<open>
  strToInt catches \<open>out_of_range\<close> only: a string without a digit ends the program
  with the uncaught \<open>invalid_argument\<close>. \<open>num\<close> is the output parameter, which keeps
  its value when the conversion fails.
\<close>

definition strToInt :: "string \<Rightarrow> u64 \<Rightarrow> Fault + (bool \<times> u64)" where
  "strToInt str num =
     (let base = (if 3 \<le> length str \<and> str ! 0 = CHR ''0'' \<and> str ! 1 = CHR ''x''
                  then 16 else 10 :: nat)
      in case stoull str base of
           Converted n \<Rightarrow> Inr (True, n)
         | OutOfRange \<Rightarrow> Inr (False, num)
         | InvalidArgument \<Rightarrow> Inl UncaughtException)"

text \<open>
  strToFP catches both exceptions of \<open>std::stod\<close>. The library function itself, which
  rounds a decimal numeral to a double, is a parameter of the model.
\<close>

definition strToFP :: "(string \<Rightarrow> double Conversion) \<Rightarrow> string \<Rightarrow> double \<Rightarrow> bool \<times> double" where
  "strToFP stod str num =
     (case stod str of
        Converted d \<Rightarrow> (True, d)
      | OutOfRange \<Rightarrow> (False, num)
      | InvalidArgument \<Rightarrow> (False, num))"

subsection \<open>The token cursor\<close>

text \<open>
  eatToken and peekToken return the last token once the cursor has passed the end;
  \<open>Tokens->back()\<close> of an empty vector is a fault.
\<close>

definition eatToken :: "Parser \<Rightarrow> Fault + (Token \<times> Parser)" where
  "eatToken p =
     (if Cursor p < length (Tokens p) then Inr (Tokens p ! Cursor p, p\<lparr> Cursor := Cursor p + 1 \<rparr>)
      else if Tokens p = [] then Inl OutOfBounds
      else Inr (last (Tokens p), p))"

definition peekToken :: "Parser \<Rightarrow> Fault + Token" where
  "peekToken p =
     (if length (Tokens p) \<le> Cursor p then
        (if Tokens p = [] then Inl OutOfBounds else Inr (last (Tokens p)))
      else Inr (Tokens p ! Cursor p))"

definition printTokenError :: "string \<Rightarrow> Token \<Rightarrow> Parser \<Rightarrow> Parser" where
  "printTokenError msg tok p =
     printError (Token.Index tok) (Token.Size tok) (Token.LineRow tok) (Token.LineCol tok) msg p"

subsection \<open>parseRegOffset\<close>

text \<open>
  \<open>instr\<close> is the instruction that the operand belongs to; the function returns it
  with the new node appended to its parameters. The three parts below are the code
  after the base register, after the sign, and after the offset register.
\<close>

definition pushParam :: "Node \<Rightarrow> Instruction \<Rightarrow> Instruction" where
  "pushParam n instr = instr\<lparr> Instruction.Params := Instruction.Params instr @ [n] \<rparr>"

definition setPosition :: "Token \<Rightarrow> RegisterOffset \<Rightarrow> RegisterOffset" where
  "setPosition t regOff =
     regOff\<lparr> ASTNode.Index := Token.Index t, ASTNode.LineRow := Token.LineRow t,
             ASTNode.LineCol := Token.LineCol t \<rparr>"

definition parseRegOffsetFactor ::
    "Instruction \<Rightarrow> RegisterOffset \<Rightarrow> Token \<Rightarrow> Parser \<Rightarrow> Fault + (bool \<times> Instruction \<times> Parser)" where
  "parseRegOffsetFactor instr regOff t p =
     (if getRegisterType (Token.Tag t) \<noteq> INTEGER then
        Inr (False, instr, printTokenError ''Expected integer register as offset'' t p)
      else
        let regOff = regOff\<lparr> Offset := Some (new_RegisterId (Token.Index t) (Token.Size t)
                                     (Token.LineRow t) (Token.LineCol t) (Token.Tag t)) \<rparr>
        in andThen (eatToken p) (\<lambda>(t, p).
          if Token.Type t \<noteq> ASTERISK then
            Inr (False, instr, printTokenError ''Expected * after offset inside register offset'' t p)
          else andThen (eatToken p) (\<lambda>(t, p).
            andThen (strToInt (getSubStr (Src p) (Token.Index t) (Token.Size t)) 0) (\<lambda>(ok, num).
              if \<not> ok then
                Inr (False, instr,
                     printTokenError ''Register offset immediate does not fit into 16-bit value'' t p)
              else if drop_bit 16 num \<noteq> 0 then
                Inr (False, instr,
                     printTokenError ''Register offset immediate does not fit into 16-bit value'' t p)
              else
                let regOff = regOff\<lparr> Immediate := ROInt_set_U16 (ucast num) (Immediate regOff) \<rparr>
                in andThen (eatToken p) (\<lambda>(t, p).
                  if Token.Type t = RIGHT_SQUARE_BRACKET then
                    let regOff = (setPosition t regOff)\<lparr> Layout := Layout regOff OR RO_LAYOUT_IR_IR_INT \<rparr>
                    in Inr (True, pushParam (RegisterOffsetNode regOff) instr, p)
                  else
                    Inr (False, instr, printTokenError ''Expectd closing bracket after factor'' t p))))))"

definition parseRegOffsetImmediate ::
    "Instruction \<Rightarrow> RegisterOffset \<Rightarrow> Token \<Rightarrow> Parser \<Rightarrow> Fault + (bool \<times> Instruction \<times> Parser)" where
  "parseRegOffsetImmediate instr regOff t p =
     andThen (peekToken p) (\<lambda>peek.
       if Token.Type peek = RIGHT_SQUARE_BRACKET then
         andThen (strToInt (getSubStr (Src p) (Token.Index t) (Token.Size t)) 0) (\<lambda>(ok, num).
           if \<not> ok then
             Inr (False, instr,
                  printTokenError ''Register offset immediate does not fit into 32-bit value'' t p)
           else if drop_bit 32 num \<noteq> 0 then
             Inr (False, instr,
                  printTokenError ''Register offset immediate does not fit into 32-bit value'' t p)
           else
             let regOff = regOff\<lparr> Immediate := ucast num \<rparr>;
                 regOff = (setPosition t regOff)\<lparr> Layout := Layout regOff OR RO_LAYOUT_IR_INT \<rparr>
             in andThen (eatToken p) (\<lambda>(t, p).
                  Inr (True, pushParam (RegisterOffsetNode regOff) instr, p)))
       else
         Inr (False, instr,
              printTokenError
                ''Expected closing bracket after immediate offset inside register offset ]'' t p))"

definition parseRegOffsetSign ::
    "Instruction \<Rightarrow> RegisterOffset \<Rightarrow> Token \<Rightarrow> Parser \<Rightarrow> Fault + (bool \<times> Instruction \<times> Parser)" where
  "parseRegOffsetSign instr regOff t p =
     (if Token.Type t = RIGHT_SQUARE_BRACKET then
        let regOff = (setPosition t regOff)\<lparr> Layout := RO_LAYOUT_IR \<rparr>
        in Inr (True, pushParam (RegisterOffsetNode regOff) instr, p)
      else if Token.Type t \<noteq> PLUS_SIGN \<and> Token.Type t \<noteq> MINUS_SIGN then
        Inr (False, instr, printTokenError ''Unexpected token in register offset'' t p)
      else
        let regOff = (if Token.Type t = PLUS_SIGN then regOff\<lparr> Layout := Layout regOff OR 0x00 \<rparr>
                      else regOff\<lparr> Layout := Layout regOff OR 0x80 \<rparr>)
        in andThen (eatToken p) (\<lambda>(t, p).
          if Token.Type t = INTEGER_NUMBER then parseRegOffsetImmediate instr regOff t p
          else if Token.Type t = REGISTER_DEFINITION then parseRegOffsetFactor instr regOff t p
          else Inr (False, instr,
                    printTokenError ''Expected register or int number as offset'' t p)))"

definition parseRegOffset :: "Instruction \<Rightarrow> Parser \<Rightarrow> Fault + (bool \<times> Instruction \<times> Parser)" where
  "parseRegOffset instr p =
     andThen (eatToken p) (\<lambda>(t, p).
       let regOff = new_RegisterOffset in
       if Token.Type t = IDENTIFIER then
         let regOff = regOff\<lparr> Var := Some (new_Identifier (Token.Index t) (Token.Size t)
                                    (Token.LineRow t) (Token.LineCol t)
                                    (getSubStr (Src p) (Token.Index t) (Token.Size t))) \<rparr>
         in andThen (eatToken p) (\<lambda>(t, p).
           if Token.Type t \<noteq> RIGHT_SQUARE_BRACKET then
             Inr (False, instr,
                  printTokenError ''Expected closing bracket ] after variable reference'' t p)
           else Inr (True, pushParam (RegisterOffsetNode regOff) instr, p))
       else if Token.Type t = REGISTER_DEFINITION then
         (if getRegisterType (Token.Tag t) \<noteq> INTEGER then
            Inr (False, instr, printTokenError ''Expected integer register as base'' t p)
          else
            let regOff = regOff\<lparr> Base := Some (new_RegisterId (Token.Index t) (Token.Size t)
                                       (Token.LineRow t) (Token.LineCol t) (Token.Tag t)) \<rparr>
            in andThen (eatToken p) (\<lambda>(t, p). parseRegOffsetSign instr regOff t p))
       else Inr (False, instr, printTokenError ''Expected register in register offset'' t p))"

text \<open>The token that the parser reads \<open>k\<close> tokens after the cursor.\<close>

definition tokenAt :: "Parser \<Rightarrow> nat \<Rightarrow> Token" where
  "tokenAt p k = (if Cursor p + k < length (Tokens p) then Tokens p ! (Cursor p + k) else last (Tokens p))"

text \<open>
  The register names of encoding.hpp, from which the scanner takes the tag of a register
  token.
\<close>

definition ASM_REGISTERS :: "(string \<times> u8) list" where
  "ASM_REGISTERS =
     [(''ip'', 0x1), (''sp'', 0x2), (''bp'', 0x3), (''r0'', 0x5), (''r1'', 0x6),
      (''r2'', 0x7), (''r3'', 0x8), (''r4'', 0x9), (''r5'', 0xA), (''r6'', 0xB),
      (''r7'', 0xC), (''r8'', 0xD), (''r9'', 0xE), (''r10'', 0xF), (''r11'', 0x10),
      (''r12'', 0x11), (''r13'', 0x12), (''r14'', 0x13), (''r15'', 0x14), (''f0'', 0x16),
      (''f1'', 0x17), (''f2'', 0x18), (''f3'', 0x19), (''f4'', 0x1A), (''f5'', 0x1B),
      (''f6'', 0x1C), (''f7'', 0x1D), (''f8'', 0x1E), (''f9'', 0x1F), (''f10'', 0x20),
      (''f11'', 0x21), (''f12'', 0x22), (''f13'', 0x23), (''f14'', 0x24), (''f15'', 0x25)]"

definition new_Token :: "TokenType \<Rightarrow> u32 \<Rightarrow> u32 \<Rightarrow> u32 \<Rightarrow> u32 \<Rightarrow> u8 \<Rightarrow> Token" where
  "new_Token ty idx sz row col tg =
     \<lparr> Token.Type = ty, Token.Index = idx, Token.Size = sz, Token.LineRow = row,
       Token.LineCol = col, Token.Tag = tg \<rparr>"

definition registerTag :: "string \<Rightarrow> u8" where
  "registerTag name = (case map_of ASM_REGISTERS name of None \<Rightarrow> 0 | Some r \<Rightarrow> r)"

text \<open>
  The tokens of the operand \<^verbatim>\<open>[bp - 4]\<close>, with the cursor behind the opening bracket,
  and the instruction \<^verbatim>\<open>load\<close> that the operand is parsed for.
\<close>

definition ex_ro_tokens :: "Token list" where
  "ex_ro_tokens =
     [new_Token LEFT_SQUARE_BRACKET 0 1 1 1 0,
      new_Token REGISTER_DEFINITION 1 2 1 2 (registerTag ''bp''),
      new_Token MINUS_SIGN 4 1 1 5 0,
      new_Token INTEGER_NUMBER 6 1 1 7 0,
      new_Token RIGHT_SQUARE_BRACKET 7 1 1 8 0,
      new_Token EOL 8 1 1 9 0,
      new_Token END_OF_FILE 9 0 2 1 0]"

definition ex_ro_parser :: Parser where
  "ex_ro_parser = (new_Parser [] ''[bp - 4]'' ex_ro_tokens new_ASTFileNode)\<lparr> Cursor := 1 \<rparr>"

definition ex_load :: Instruction where
  "ex_load = new_Instruction 0 4 1 1 ''load'' 3"

text \<open>The parser state after one token has been eaten.\<close>

definition advance :: "Parser \<Rightarrow> Parser" where
  "advance p = (if Cursor p < length (Tokens p) then p\<lparr> Cursor := Cursor p + 1 \<rparr> else p)"

text \<open>
  More operands: \<^verbatim>\<open>[r0]\<close>, \<^verbatim>\<open>[counter]\<close>, \<^verbatim>\<open>[r0 + 8]\<close> and \<^verbatim>\<open>[r0 - r1 * 65535]\<close>, each with
  the cursor behind the opening bracket.
\<close>

definition ex_ro_reg :: Parser where
  "ex_ro_reg = (new_Parser [] ''[r0]''
     [new_Token LEFT_SQUARE_BRACKET 0 1 1 1 0,
      new_Token REGISTER_DEFINITION 1 2 1 2 (registerTag ''r0''),
      new_Token RIGHT_SQUARE_BRACKET 3 1 1 4 0,
      new_Token EOL 4 1 1 5 0,
      new_Token END_OF_FILE 5 0 2 1 0] new_ASTFileNode)\<lparr> Cursor := 1 \<rparr>"

definition ex_ro_var :: Parser where
  "ex_ro_var = (new_Parser [] ''[counter]''
     [new_Token LEFT_SQUARE_BRACKET 0 1 1 1 0,
      new_Token IDENTIFIER 1 7 1 2 0,
      new_Token RIGHT_SQUARE_BRACKET 8 1 1 9 0,
      new_Token EOL 9 1 1 10 0,
      new_Token END_OF_FILE 10 0 2 1 0] new_ASTFileNode)\<lparr> Cursor := 1 \<rparr>"

definition ex_ro_plus :: Parser where
  "ex_ro_plus = (new_Parser [] ''[r0 + 8]''
     [new_Token LEFT_SQUARE_BRACKET 0 1 1 1 0,
      new_Token REGISTER_DEFINITION 1 2 1 2 (registerTag ''r0''),
      new_Token PLUS_SIGN 4 1 1 5 0,
      new_Token INTEGER_NUMBER 6 1 1 7 0,
      new_Token RIGHT_SQUARE_BRACKET 7 1 1 8 0,
      new_Token EOL 8 1 1 9 0,
      new_Token END_OF_FILE 9 0 2 1 0] new_ASTFileNode)\<lparr> Cursor := 1 \<rparr>"

definition ex_ro_factor :: Parser where
  "ex_ro_factor = (new_Parser [] ''[r0 - r1 * 65535]''
     [new_Token LEFT_SQUARE_BRACKET 0 1 1 1 0,
      new_Token REGISTER_DEFINITION 1 2 1 2 (registerTag ''r0''),
      new_Token MINUS_SIGN 4 1 1 5 0,
      new_Token REGISTER_DEFINITION 6 2 1 7 (registerTag ''r1''),
      new_Token ASTERISK 9 1 1 10 0,
      new_Token INTEGER_NUMBER 11 5 1 12 0,
      new_Token RIGHT_SQUARE_BRACKET 16 1 1 17 0,
      new_Token EOL 17 1 1 18 0,
      new_Token END_OF_FILE 18 0 2 1 0] new_ASTFileNode)\<lparr> Cursor := 1 \<rparr>"

subsection \<open>Loops\<close>

text \<open>
  The loops of the parser stop at a token that ends them, and the cursor stays on the
  last token of the vector once it is reached: on a vector whose last token is an operand
  the loop over the operands never ends. The functions with a loop therefore take a bound
  on the number of rounds, and \<open>None\<close> is the result of a run that needs more rounds.
\<close>

definition andThenLoop :: "Fault + 'a \<Rightarrow> ('a \<Rightarrow> (Fault + 'b) option) \<Rightarrow> (Fault + 'b) option" where
  "andThenLoop m f = (case m of Inl e \<Rightarrow> Some (Inl e) | Inr x \<Rightarrow> f x)"

definition loopThen :: "(Fault + 'a) option \<Rightarrow> ('a \<Rightarrow> (Fault + 'b) option) \<Rightarrow> (Fault + 'b) option" where
  "loopThen m f = (case m of None \<Rightarrow> None | Some (Inl e) \<Rightarrow> Some (Inl e) | Some (Inr x) \<Rightarrow> f x)"

subsection \<open>parseStringEscape\<close>

definition escapeChar :: "char \<Rightarrow> char option" where
  "escapeChar p =
     (if p = CHR ''t'' then Some (CHR 0x09)
      else if p = CHR ''v'' then Some (CHR 0x0B)
      else if p = CHR ''0'' then Some (CHR 0x00)
      else if p = CHR ''b'' then Some (CHR 0x08)
      else if p = CHR ''f'' then Some (CHR 0x0C)
      else if p = CHR ''n'' then Some (CHR 0x0A)
      else if p = CHR ''r'' then Some (CHR 0x0D)
      else if p = CHR 0x22 then Some (CHR 0x22)
      else if p = CHR 0x5C then Some (CHR 0x5C)
      else None)"

function parseStringEscapeLoop :: "string \<Rightarrow> nat \<Rightarrow> string \<Rightarrow> string" where
  "parseStringEscapeLoop inStr cursor outStr =
     (if cursor < length inStr - 1 then
        (if inStr ! cursor = CHR 0x5C then
           (case escapeChar (inStr ! (cursor + 1)) of
              None \<Rightarrow> outStr
            | Some c \<Rightarrow> parseStringEscapeLoop inStr (cursor + 2) (outStr @ [c]))
         else parseStringEscapeLoop inStr (cursor + 1) (outStr @ [inStr ! cursor]))
      else outStr)"
  by pat_completeness auto
termination
  by (relation "measure (\<lambda>(inStr, cursor, outStr). length inStr - cursor)") auto

text \<open>
  For the empty string \<open>inStr.size() - 1\<close> wraps around and the loop reads behind the
  string.
\<close>

definition parseStringEscape :: "string \<Rightarrow> string \<Rightarrow> Fault + string" where
  "parseStringEscape inStr outStr =
     (if length inStr = 2 then Inr outStr
      else if inStr = [] then Inl OutOfBounds
      else Inr (parseStringEscapeLoop inStr 1 outStr))"

subsection \<open>parseSectionVars\<close>

text \<open>
  The value of a variable declaration, from the optional sign to the node that is built.
  The result \<open>None\<close> is the \<open>break\<close> that leaves the loop with \<open>validSec = false\<close>.
\<close>

definition varIntValue :: "AsmConsts \<Rightarrow> TypeInfo \<Rightarrow> Token \<Rightarrow> string \<Rightarrow> bool \<Rightarrow> Parser
    \<Rightarrow> Fault + (Node option \<times> Parser)" where
  "varIntValue c typeInfo tok tokString isSigned p =
     andThen (strToInt tokString 0) (\<lambda>(ok, intVal).
       if \<not> ok then
         Inr (None, printTokenError ''Integer does not fit into 64-bit value'' tok p)
       else if \<not> checkIntWidth c intVal (TypeInfo.DataType typeInfo) isSigned then
         Inr (None, printTokenError ''Integer does not fit into given type value'' tok p)
       else
         Inr (Some (IntNode (new_ASTInt (Token.Index tok) (Token.Size tok) (Token.LineRow tok)
                               (Token.LineCol tok) intVal isSigned)), p))"

definition varFloatValue :: "AsmConsts \<Rightarrow> (string \<Rightarrow> double Conversion) \<Rightarrow> TypeInfo \<Rightarrow> Token \<Rightarrow> string
    \<Rightarrow> Parser \<Rightarrow> Node option \<times> Parser" where
  "varFloatValue c stod typeInfo tok tokString p =
     (case strToFP stod tokString (Finite 0) of (ok, floatVal) \<Rightarrow>
        if \<not> ok then
          (None, printTokenError ''Floating-point value does not fit into 64-bit value'' tok p)
        else if \<not> checkFloatWidth c floatVal (TypeInfo.DataType typeInfo) then
          (None, printTokenError ''Floating-point value does not fit into given value'' tok p)
        else
          (Some (FloatNode (new_ASTFloat (Token.Index tok) (Token.Size tok) (Token.LineRow tok)
                              (Token.LineCol tok) floatVal)), p))"

definition parseVarValue :: "AsmConsts \<Rightarrow> (string \<Rightarrow> double Conversion) \<Rightarrow> TypeInfo \<Rightarrow> Token \<Rightarrow> Parser
    \<Rightarrow> Fault + (Node option \<times> Parser)" where
  "parseVarValue c stod typeInfo tok p =
     andThen (if Token.Type tok = PLUS_SIGN \<or> Token.Type tok = MINUS_SIGN
              then andThen (eatToken p) (\<lambda>(tok1, p1).
                     Inr (Some tok, getChar (Src p) (Token.Index tok), tok1, p1))
              else Inr (None, CHR 0x00, tok, p))
       (\<lambda>(signToken, signTokenText, tok, p).
          let tokString = getSubStr (Src p) (Token.Index tok) (Token.Size tok) in
          if Token.Type tok = STRING then
            andThen (parseStringEscape tokString []) (\<lambda>parsedStr.
              Inr (Some (StringNode (new_ASTString (Token.Index tok) (Token.Size tok)
                                       (Token.LineRow tok) (Token.LineCol tok) parsedStr)), p))
          else if Token.Type tok = INTEGER_NUMBER then
            (case signToken of
               None \<Rightarrow> varIntValue c typeInfo tok tokString False p
             | Some s \<Rightarrow>
                 if Token.Index s + 1 = Token.Index tok then
                   varIntValue c typeInfo tok (signTokenText # tokString)
                     (Token.Type s = MINUS_SIGN) p
                 else Inr (None, printTokenError ''Unexpected operator'' s p))
          else if Token.Type tok = FLOAT_NUMBER then
            (case signToken of
               None \<Rightarrow> Inr (varFloatValue c stod typeInfo tok tokString p)
             | Some s \<Rightarrow>
                 if Token.Index s + 1 = Token.Index tok then
                   Inr (varFloatValue c stod typeInfo tok (signTokenText # tokString) p)
                 else Inr (None, printTokenError ''Unexpected operator'' s p))
          else
            Inr (None, printTokenError ''Expected string, float or integer as variable value'' tok p))"

fun nodePosition :: "Node \<Rightarrow> u32 \<times> u32" where
  "nodePosition (LabelDefNode n) = (ASTNode.Index n, ASTNode.Size n)"
| "nodePosition (IdentifierNode n) = (ASTNode.Index n, ASTNode.Size n)"
| "nodePosition (FloatNode n) = (ASTNode.Index n, ASTNode.Size n)"
| "nodePosition (IntNode n) = (ASTNode.Index n, ASTNode.Size n)"
| "nodePosition (RegisterIdNode n) = (ASTNode.Index n, ASTNode.Size n)"
| "nodePosition (RegisterOffsetNode n) = (ASTNode.Index n, ASTNode.Size n)"
| "nodePosition (TypeInfoNode n) = (ASTNode.Index n, ASTNode.Size n)"
| "nodePosition (StringNode n) = (ASTNode.Index n, ASTNode.Size n)"

text \<open>One round of the loop over the declarations of a section.\<close>

datatype VarStep = VarBreak Parser | VarNext Token ASTSection Parser

definition parseVarDecl :: "AsmConsts \<Rightarrow> (string \<Rightarrow> double Conversion) \<Rightarrow> Token \<Rightarrow> ASTSection \<Rightarrow> Parser
    \<Rightarrow> Fault + VarStep" where
  "parseVarDecl c stod tok sec p =
     (if Token.Type tok \<noteq> IDENTIFIER then
        Inr (VarBreak (printTokenError ''Expected static variable identifier'' tok p))
      else
        let ident = new_Identifier (Token.Index tok) (Token.Size tok) (Token.LineRow tok)
                      (Token.LineCol tok) (getSubStr (Src p) (Token.Index tok) (Token.Size tok))
        in andThen (eatToken p) (\<lambda>(tok, p).
          if Token.Type tok \<noteq> COLON then
            Inr (VarBreak (printTokenError ''Expected colon after variable identifier'' tok p))
          else andThen (eatToken p) (\<lambda>(tok, p).
            if Token.Type tok \<noteq> TYPE_INFO then
              Inr (VarBreak (printTokenError ''Expected type info in variable declaration'' tok p))
            else
              let typeInfo = new_TypeInfo (Token.Index tok) (Token.Size tok) (Token.LineRow tok)
                               (Token.LineCol tok) (Token.Tag tok)
              in andThen (eatToken p) (\<lambda>(tok, p).
                if Token.Type tok \<noteq> EQUALS_SIGN then
                  Inr (VarBreak (printTokenError
                         ''Expected equals sign after type info in variable declaration'' tok p))
                else andThen (eatToken p) (\<lambda>(tok, p).
                  andThen (parseVarValue c stod typeInfo tok p) (\<lambda>(val, p).
                    case val of
                      None \<Rightarrow> Inr (VarBreak p)
                    | Some v \<Rightarrow>
                        andThen (eatToken p) (\<lambda>(tok, p).
                          if Token.Type tok \<noteq> EOL then
                            Inr (VarBreak (printTokenError
                                   ''Expected new line after variable declaration'' tok p))
                          else
                            let varSize = (fst (nodePosition v) + snd (nodePosition v))
                                            - ASTNode.Index ident;
                                var = new_ASTVariable (ASTNode.Index ident) varSize
                                        (ASTNode.LineRow ident) (ASTNode.LineCol ident)
                                        ident typeInfo v
                            in andThen (eatToken p) (\<lambda>(tok, p).
                                 Inr (VarNext tok (sec\<lparr> Body := Body sec @ [VariableNode var] \<rparr>) p)))))))))"

fun parseSectionVarsLoop :: "AsmConsts \<Rightarrow> (string \<Rightarrow> double Conversion) \<Rightarrow> nat \<Rightarrow> Token \<Rightarrow> ASTSection
    \<Rightarrow> Parser \<Rightarrow> (Fault + (bool \<times> ASTSection \<times> Parser)) option" where
  "parseSectionVarsLoop c stod 0 tok sec p =
     (if Token.Type tok = RIGHT_CURLY_BRACKET then Some (Inr (True, sec, p)) else None)"
| "parseSectionVarsLoop c stod (Suc fuel) tok sec p =
     (if Token.Type tok = RIGHT_CURLY_BRACKET then Some (Inr (True, sec, p))
      else andThenLoop (parseVarDecl c stod tok sec p) (\<lambda>step.
             case step of
               VarBreak p1 \<Rightarrow> Some (Inr (False, sec, p1))
             | VarNext tok1 sec1 p1 \<Rightarrow> parseSectionVarsLoop c stod fuel tok1 sec1 p1))"

definition parseSectionVars :: "AsmConsts \<Rightarrow> (string \<Rightarrow> double Conversion) \<Rightarrow> nat \<Rightarrow> ASTSection \<Rightarrow> Parser
    \<Rightarrow> (Fault + (bool \<times> ASTSection \<times> Parser)) option" where
  "parseSectionVars c stod fuel sec p =
     andThenLoop (eatToken p) (\<lambda>(tok, p).
       andThenLoop (if Token.Type tok = EOL then eatToken p else Inr (tok, p)) (\<lambda>(tok, p).
         parseSectionVarsLoop c stod fuel tok sec p))"

subsection \<open>parseSectionCode\<close>

datatype ParseState = GLOBAL_SCOPE | FUNC_BODY | INSTR_BODY | END

text \<open>
  The operands of an instruction. \<open>operandInt\<close> and \<open>operandFloat\<close> are the conversions
  in the two number cases of the switch, \<open>parseOperand\<close> is the switch, and
  \<open>operandStep\<close> is one round of the loop \<open>while (!endOfParamList)\<close>; a step either
  returns false from parseSectionCode or goes on with the next token.
\<close>

definition operandInt :: "Token \<Rightarrow> string \<Rightarrow> bool \<Rightarrow> Instruction \<Rightarrow> Parser
    \<Rightarrow> Fault + (bool \<times> Instruction \<times> Parser)" where
  "operandInt t numStr isSigned instr p =
     andThen (strToInt numStr 0) (\<lambda>(ok, num).
       if \<not> ok then
         Inr (False, instr, printTokenError ''Integer does not fit into 64-bit value'' t p)
       else
         Inr (True, pushParam (IntNode (new_ASTInt (Token.Index t) (Token.Size t) (Token.LineRow t)
                                          (Token.LineCol t) num isSigned)) instr, p))"

definition operandFloat :: "(string \<Rightarrow> double Conversion) \<Rightarrow> Token \<Rightarrow> string \<Rightarrow> Instruction \<Rightarrow> Parser
    \<Rightarrow> bool \<times> Instruction \<times> Parser" where
  "operandFloat stod t floatStr instr p =
     (case strToFP stod floatStr (Finite 0) of (ok, num) \<Rightarrow>
        if \<not> ok then
          (False, instr, printTokenError ''Float does not fit into 64-bit value'' t p)
        else
          (True, pushParam (FloatNode (new_ASTFloat (Token.Index t) (Token.Size t) (Token.LineRow t)
                                         (Token.LineCol t) num)) instr, p))"

definition parseOperand :: "(string \<Rightarrow> double Conversion) \<Rightarrow> Token option \<Rightarrow> char \<Rightarrow> Token \<Rightarrow> Instruction
    \<Rightarrow> Parser \<Rightarrow> Fault + (bool \<times> Instruction \<times> Parser)" where
  "parseOperand stod signToken signTokenText t instr p =
     (case Token.Type t of
        IDENTIFIER \<Rightarrow>
          Inr (True, pushParam (IdentifierNode (new_Identifier (Token.Index t) (Token.Size t)
                   (Token.LineRow t) (Token.LineCol t)
                   (getSubStr (Src p) (Token.Index t) (Token.Size t)))) instr, p)
      | REGISTER_DEFINITION \<Rightarrow>
          Inr (True, pushParam (RegisterIdNode (new_RegisterId (Token.Index t) (Token.Size t)
                   (Token.LineRow t) (Token.LineCol t) (Token.Tag t))) instr, p)
      | LEFT_SQUARE_BRACKET \<Rightarrow> parseRegOffset instr p
      | INTEGER_NUMBER \<Rightarrow>
          (case signToken of
             None \<Rightarrow> operandInt t (getSubStr (Src p) (Token.Index t) (Token.Size t)) False instr p
           | Some s \<Rightarrow>
               if Token.Index s + 1 = Token.Index t then
                 operandInt t (signTokenText # getSubStr (Src p) (Token.Index t) (Token.Size t))
                   (Token.Type s = MINUS_SIGN) instr p
               else Inr (False, instr, printTokenError ''Unexpected operator'' s p))
      | FLOAT_NUMBER \<Rightarrow>
          (case signToken of
             None \<Rightarrow>
               Inr (operandFloat stod t (getSubStr (Src p) (Token.Index t) (Token.Size t)) instr p)
           | Some s \<Rightarrow>
               if Token.Index s + 1 = Token.Index t then
                 Inr (operandFloat stod t
                        (signTokenText # getSubStr (Src p) (Token.Index t) (Token.Size t)) instr p)
               else Inr (False, instr, printTokenError ''Unexpected operator'' s p))
      | _ \<Rightarrow> Inr (False, instr, printTokenError ''Expected parameter'' t p))"

datatype OperandStep = OperandReturn Instruction Parser | OperandNext Token Instruction Parser bool

text \<open>
  What follows the switch: a case that failed returns false, and otherwise the next token
  is read, which is skipped when it is a comma and ends the list when it is an end of
  line.
\<close>

definition afterOperand :: "bool \<times> Instruction \<times> Parser \<Rightarrow> Fault + OperandStep" where
  "afterOperand r =
     (case r of (ok, instr, p) \<Rightarrow>
        if \<not> ok then Inr (OperandReturn instr p)
        else andThen (eatToken p) (\<lambda>(t, p).
          if Token.Type t = COMMA then
            andThen (eatToken p) (\<lambda>(t, p). Inr (OperandNext t instr p False))
          else if Token.Type t = EOL then Inr (OperandNext t instr p True)
          else Inr (OperandNext t instr p False)))"

definition operandStep :: "(string \<Rightarrow> double Conversion) \<Rightarrow> Token \<Rightarrow> Instruction \<Rightarrow> Parser
    \<Rightarrow> Fault + OperandStep" where
  "operandStep stod t instr p =
     andThen (if Token.Type t = PLUS_SIGN \<or> Token.Type t = MINUS_SIGN
              then andThen (eatToken p) (\<lambda>(t1, p1).
                     Inr (Some t, getChar (Src p) (Token.Index t), t1, p1))
              else Inr (None, CHR 0x00, t, p))
       (\<lambda>(signToken, signTokenText, t, p).
          case (if Token.Type t \<noteq> INTEGER_NUMBER \<and> Token.Type t \<noteq> FLOAT_NUMBER
                then signToken else None) of
            Some s \<Rightarrow> Inr (OperandReturn instr (printTokenError ''Unexpected operator'' s p))
          | None \<Rightarrow> andThen (parseOperand stod signToken signTokenText t instr p) afterOperand)"

fun operandLoop :: "(string \<Rightarrow> double Conversion) \<Rightarrow> nat \<Rightarrow> Token \<Rightarrow> Instruction \<Rightarrow> Parser
    \<Rightarrow> (Fault + (bool \<times> Instruction \<times> Parser)) option" where
  "operandLoop stod 0 t instr p = None"
| "operandLoop stod (Suc fuel) t instr p =
     andThenLoop (operandStep stod t instr p) (\<lambda>step.
       case step of
         OperandReturn instr1 p1 \<Rightarrow> Some (Inr (False, instr1, p1))
       | OperandNext t1 instr1 p1 endOfParamList \<Rightarrow>
           if endOfParamList then Some (Inr (True, instr1, p1))
           else operandLoop stod fuel t1 instr1 p1)"

text \<open>
  \<open>instr\<close> points at the instruction that was pushed last. The model keeps its position
  in the body of the code section, reads the node when its operands are parsed and writes
  it back; in the state \<open>INSTR_BODY\<close> the pointer is set.
\<close>

definition pushCode :: "BodyNode \<Rightarrow> Parser \<Rightarrow> Fault + (nat \<times> Parser)" where
  "pushCode n p =
     (case SecCode (FileNode p) of
        None \<Rightarrow> Inl NullPointer
      | Some sec \<Rightarrow>
          Inr (length (Body sec),
               p\<lparr> FileNode := (FileNode p)\<lparr> SecCode := Some (sec\<lparr> Body := Body sec @ [n] \<rparr>) \<rparr> \<rparr>))"

definition loadInstr :: "nat option \<Rightarrow> Parser \<Rightarrow> Fault + (nat \<times> Instruction)" where
  "loadInstr instr p =
     (case instr of
        None \<Rightarrow> Inl NullPointer
      | Some i \<Rightarrow>
          (case SecCode (FileNode p) of
             None \<Rightarrow> Inl NullPointer
           | Some sec \<Rightarrow>
               if length (Body sec) \<le> i then Inl OutOfBounds
               else (case Body sec ! i of
                       InstructionNode ins \<Rightarrow> Inr (i, ins)
                     | _ \<Rightarrow> Inl NullPointer)))"

definition storeInstr :: "nat \<Rightarrow> Instruction \<Rightarrow> Parser \<Rightarrow> Parser" where
  "storeInstr i ins p =
     (case SecCode (FileNode p) of
        None \<Rightarrow> p
      | Some sec \<Rightarrow>
          p\<lparr> FileNode := (FileNode p)\<lparr> SecCode :=
                Some (sec\<lparr> Body := (Body sec)[i := InstructionNode ins] \<rparr>) \<rparr> \<rparr>)"

datatype CodeStep = CodeReturn Parser | CodeNext ParseState "nat option" Parser

definition globalScope :: "Token \<Rightarrow> nat option \<Rightarrow> Parser \<Rightarrow> Fault + CodeStep" where
  "globalScope t instr p =
     andThen (if Token.Type t = EOL then eatToken p else Inr (t, p)) (\<lambda>(t, p).
       if Token.Type t = END_OF_FILE \<or> Token.Type t = RIGHT_CURLY_BRACKET then
         Inr (CodeNext END instr p)
       else if Token.Type t = INSTRUCTION then
         andThen (pushCode (InstructionNode (new_Instruction (Token.Index t) (Token.Size t)
                    (Token.LineRow t) (Token.LineCol t)
                    (getSubStr (Src p) (Token.Index t) (Token.Size t)) (ucast (Token.Tag t)))) p)
           (\<lambda>(i, p).
              andThen (peekToken p) (\<lambda>peek.
                if Token.Type peek = END_OF_FILE then
                  Inr (CodeReturn (printTokenError ''Unexpected end of file after instruction'' t p))
                else if Token.Type peek \<noteq> EOL then Inr (CodeNext INSTR_BODY (Some i) p)
                else Inr (CodeNext GLOBAL_SCOPE (Some i) p)))
       else if Token.Type t = LABEL_DEF then
         andThen (pushCode (LeafNode (LabelDefNode (new_LabelDef (Token.Index t) (Token.Size t)
                    (Token.LineRow t) (Token.LineCol t)
                    (getSubStr (Src p) (Token.Index t + 1) (Token.Size t - 1))))) p)
           (\<lambda>(i, p).
              andThen (peekToken p) (\<lambda>peek.
                if Token.Type peek \<noteq> EOL then
                  Inr (CodeReturn (printTokenError ''Expected new line after label definition'' t p))
                else andThen (eatToken p) (\<lambda>(t, p). Inr (CodeNext GLOBAL_SCOPE instr p))))
       else Inr (CodeReturn (printTokenError ''Unexpected token in function body'' t p)))"

definition instrBody :: "(string \<Rightarrow> double Conversion) \<Rightarrow> nat \<Rightarrow> Token \<Rightarrow> nat option \<Rightarrow> Parser
    \<Rightarrow> (Fault + CodeStep) option" where
  "instrBody stod fuel t instr p =
     andThenLoop (loadInstr instr p) (\<lambda>(i, ins).
       andThenLoop (if Token.Type t = TYPE_INFO
                    then andThen (eatToken p) (\<lambda>(t1, p1).
                           Inr (t1,
                                pushParam (TypeInfoNode (new_TypeInfo (Token.Index t) (Token.Size t)
                                   (Token.LineRow t) (Token.LineCol t) (Token.Tag t))) ins,
                                p1, Token.Type t1 = EOL))
                    else Inr (t, ins, p, False))
         (\<lambda>(t, ins, p, endOfParamList).
            loopThen (if endOfParamList then Some (Inr (True, ins, p))
                      else operandLoop stod fuel t ins p)
              (\<lambda>(ok, ins, p).
                 if ok then Some (Inr (CodeNext GLOBAL_SCOPE instr (storeInstr i ins p)))
                 else Some (Inr (CodeReturn (storeInstr i ins p))))))"

fun parseSectionCodeLoop :: "(string \<Rightarrow> double Conversion) \<Rightarrow> nat \<Rightarrow> ParseState \<Rightarrow> nat option \<Rightarrow> Parser
    \<Rightarrow> (Fault + (bool \<times> Parser)) option" where
  "parseSectionCodeLoop stod 0 state instr p =
     (if state = END then Some (Inr (True, p)) else None)"
| "parseSectionCodeLoop stod (Suc fuel) state instr p =
     (if state = END then Some (Inr (True, p))
      else andThenLoop (eatToken p) (\<lambda>(t, p).
             loopThen (case state of
                         GLOBAL_SCOPE \<Rightarrow> Some (globalScope t instr p)
                       | INSTR_BODY \<Rightarrow> instrBody stod fuel t instr p
                       | _ \<Rightarrow> Some (Inr (CodeNext state instr p)))
               (\<lambda>step. case step of
                          CodeReturn p1 \<Rightarrow> Some (Inr (False, p1))
                        | CodeNext state1 instr1 p1 \<Rightarrow>
                            parseSectionCodeLoop stod fuel state1 instr1 p1)))"

definition parseSectionCode :: "(string \<Rightarrow> double Conversion) \<Rightarrow> nat \<Rightarrow> Parser
    \<Rightarrow> (Fault + (bool \<times> Parser)) option" where
  "parseSectionCode stod fuel p = parseSectionCodeLoop stod fuel GLOBAL_SCOPE None p"

subsection \<open>buildAST\<close>

datatype BuildStep = BuildBreak Parser | BuildNext Token Parser

definition nextSection :: "Parser \<Rightarrow> (Fault + BuildStep) option" where
  "nextSection p = andThenLoop (eatToken p) (\<lambda>(tok, p). Some (Inr (BuildNext tok p)))"

definition buildSection :: "AsmConsts \<Rightarrow> (string \<Rightarrow> double Conversion) \<Rightarrow> nat \<Rightarrow> Token \<Rightarrow> Parser
    \<Rightarrow> (Fault + BuildStep) option" where
  "buildSection c stod fuel currentToken p =
     (if Token.Type currentToken = EOL then nextSection p
      else if Token.Type currentToken \<noteq> IDENTIFIER then
        Some (Inr (BuildBreak (printTokenError ''Expected section identifier in global scope''
                                 currentToken p)))
      else
        let secToken = currentToken in
        andThenLoop (eatToken p) (\<lambda>(currentToken, p).
          if Token.Type currentToken \<noteq> LEFT_CURLY_BRACKET then
            Some (Inr (BuildBreak (printTokenError ''Expected { after section identifier''
                                     currentToken p)))
          else
            let secName = getSubStr (Src p) (Token.Index secToken) (Token.Size secToken);
                newSection = new_ASTSection (Token.Index secToken) (Token.Size secToken)
                               (Token.LineRow secToken) (Token.LineCol secToken) secName
            in
            if secName = ''static'' then
              (if SecStatic (FileNode p) \<noteq> None then
                 Some (Inr (BuildBreak (printTokenError (''Section '' @ [CHR 0x27] @ ''static''
                                          @ [CHR 0x27] @ '' already defined'') secToken p)))
               else
                 loopThen (parseSectionVars c stod fuel (newSection STATIC) p) (\<lambda>(ok, sec, p).
                   let p = p\<lparr> FileNode := (FileNode p)\<lparr> SecStatic := Some sec \<rparr> \<rparr> in
                   if \<not> ok then Some (Inr (BuildBreak p)) else nextSection p))
            else if secName = ''global'' then
              (if SecGlobal (FileNode p) \<noteq> None then
                 Some (Inr (BuildBreak (printTokenError (''Section '' @ [CHR 0x27] @ ''global''
                                          @ [CHR 0x27] @ '' already defined'') secToken p)))
               else
                 loopThen (parseSectionVars c stod fuel (newSection GLOBAL) p) (\<lambda>(ok, sec, p).
                   let p = p\<lparr> FileNode := (FileNode p)\<lparr> SecGlobal := Some sec \<rparr> \<rparr> in
                   if \<not> ok then Some (Inr (BuildBreak p)) else nextSection p))
            else if secName = ''code'' then
              (if SecCode (FileNode p) \<noteq> None then
                 Some (Inr (BuildBreak (printTokenError (''Section '' @ [CHR 0x27] @ ''code''
                                          @ [CHR 0x27] @ '' already defined'') secToken p)))
               else
                 let p = p\<lparr> FileNode := (FileNode p)\<lparr> SecCode := Some (newSection CODE) \<rparr> \<rparr> in
                 loopThen (parseSectionCode stod fuel p) (\<lambda>(ok, p).
                   if \<not> ok then Some (Inr (BuildBreak p)) else nextSection p))
            else Some (Inr (BuildBreak (printTokenError ''Unknown section type'' secToken p)))))"

fun buildASTLoop :: "AsmConsts \<Rightarrow> (string \<Rightarrow> double Conversion) \<Rightarrow> nat \<Rightarrow> Token \<Rightarrow> Parser
    \<Rightarrow> (Fault + (bool \<times> Parser)) option" where
  "buildASTLoop c stod 0 currentToken p =
     (if Token.Type currentToken = END_OF_FILE then Some (Inr (True, p)) else None)"
| "buildASTLoop c stod (Suc fuel) currentToken p =
     (if Token.Type currentToken = END_OF_FILE then Some (Inr (True, p))
      else loopThen (buildSection c stod fuel currentToken p) (\<lambda>step.
             case step of
               BuildBreak p1 \<Rightarrow> Some (Inr (False, p1))
             | BuildNext tok p1 \<Rightarrow> buildASTLoop c stod fuel tok p1))"

definition buildAST :: "AsmConsts \<Rightarrow> (string \<Rightarrow> double Conversion) \<Rightarrow> nat \<Rightarrow> Parser
    \<Rightarrow> (Fault + (bool \<times> Parser)) option" where
  "buildAST c stod fuel p =
     andThenLoop (eatToken p) (\<lambda>(currentToken, p).
       loopThen (buildASTLoop c stod fuel currentToken p) (\<lambda>(validInput, p).
         if SecCode (FileNode p) = None then
           Some (Inr (False, printLine ''Error: could not find code section'' p))
         else Some (Inr (validInput, p))))"

subsection \<open>Sample texts for the sign rule\<close>

text \<open>
  Modelled from the spec: the scanner is not among the sources, and the tokens of the
  sample texts are written out by the token contract of the specification (section 6):
  every comma, sign and number is a token of its own with its byte index, size, line and
  column, and a line ends with an \<open>EOL\<close> token. The tag of an instruction token is the
  index of the mnemonic in \<open>INSTR_NAMES\<close>, the tag of a type token is the type. No text
  holds a float, and \<open>no_floats\<close> stands for \<open>std::stod\<close> in the runs.

  The texts are a code section with the one line \<^verbatim>\<open>push i32, - 1\<close>, \<^verbatim>\<open>push i32 - 1\<close> or
  \<^verbatim>\<open>push i32 -1\<close>, and a global section with the one line \<^verbatim>\<open>counter : i64 = - 1\<close>.
\<close>

definition no_floats :: "string \<Rightarrow> double Conversion" where
  "no_floats s = InvalidArgument"

definition ex_comma_gap_src :: string where
  "ex_comma_gap_src = ''code {'' @ [CHR 0x0A] @ ''    push i32, - 1'' @ [CHR 0x0A] @ ''}'' @ [CHR 0x0A]"

definition ex_comma_gap_tokens :: "AsmConsts \<Rightarrow> Token list" where
  "ex_comma_gap_tokens c =
     [new_Token IDENTIFIER 0 4 1 1 0,
      new_Token LEFT_CURLY_BRACKET 5 1 1 6 0,
      new_Token EOL 6 1 1 7 0,
      new_Token INSTRUCTION 11 4 2 5 1,
      new_Token TYPE_INFO 16 3 2 10 (UVM_TYPE_I32 c),
      new_Token COMMA 19 1 2 13 0,
      new_Token MINUS_SIGN 21 1 2 15 0,
      new_Token INTEGER_NUMBER 23 1 2 17 0,
      new_Token EOL 24 1 2 18 0,
      new_Token RIGHT_CURLY_BRACKET 25 1 3 1 0,
      new_Token EOL 26 1 3 2 0,
      new_Token END_OF_FILE 27 0 4 1 0]"

definition ex_comma_gap_parser :: "AsmConsts \<Rightarrow> Parser" where
  "ex_comma_gap_parser c = new_Parser [] ex_comma_gap_src (ex_comma_gap_tokens c) new_ASTFileNode"

definition ex_gap_src :: string where
  "ex_gap_src = ''code {'' @ [CHR 0x0A] @ ''    push i32 - 1'' @ [CHR 0x0A] @ ''}'' @ [CHR 0x0A]"

definition ex_gap_tokens :: "AsmConsts \<Rightarrow> Token list" where
  "ex_gap_tokens c =
     [new_Token IDENTIFIER 0 4 1 1 0,
      new_Token LEFT_CURLY_BRACKET 5 1 1 6 0,
      new_Token EOL 6 1 1 7 0,
      new_Token INSTRUCTION 11 4 2 5 1,
      new_Token TYPE_INFO 16 3 2 10 (UVM_TYPE_I32 c),
      new_Token MINUS_SIGN 20 1 2 14 0,
      new_Token INTEGER_NUMBER 22 1 2 16 0,
      new_Token EOL 23 1 2 17 0,
      new_Token RIGHT_CURLY_BRACKET 24 1 3 1 0,
      new_Token EOL 25 1 3 2 0,
      new_Token END_OF_FILE 26 0 4 1 0]"

definition ex_gap_parser :: "AsmConsts \<Rightarrow> Parser" where
  "ex_gap_parser c = new_Parser [] ex_gap_src (ex_gap_tokens c) new_ASTFileNode"

definition ex_adjacent_src :: string where
  "ex_adjacent_src = ''code {'' @ [CHR 0x0A] @ ''    push i32 -1'' @ [CHR 0x0A] @ ''}'' @ [CHR 0x0A]"

definition ex_adjacent_tokens :: "AsmConsts \<Rightarrow> Token list" where
  "ex_adjacent_tokens c =
     [new_Token IDENTIFIER 0 4 1 1 0,
      new_Token LEFT_CURLY_BRACKET 5 1 1 6 0,
      new_Token EOL 6 1 1 7 0,
      new_Token INSTRUCTION 11 4 2 5 1,
      new_Token TYPE_INFO 16 3 2 10 (UVM_TYPE_I32 c),
      new_Token MINUS_SIGN 20 1 2 14 0,
      new_Token INTEGER_NUMBER 21 1 2 15 0,
      new_Token EOL 22 1 2 16 0,
      new_Token RIGHT_CURLY_BRACKET 23 1 3 1 0,
      new_Token EOL 24 1 3 2 0,
      new_Token END_OF_FILE 25 0 4 1 0]"

definition ex_adjacent_parser :: "AsmConsts \<Rightarrow> Parser" where
  "ex_adjacent_parser c = new_Parser [] ex_adjacent_src (ex_adjacent_tokens c) new_ASTFileNode"

definition ex_var_gap_src :: string where
  "ex_var_gap_src = ''global {'' @ [CHR 0x0A] @ ''    counter : i64 = - 1'' @ [CHR 0x0A] @ ''}'' @ [CHR 0x0A]"

definition ex_var_gap_tokens :: "AsmConsts \<Rightarrow> Token list" where
  "ex_var_gap_tokens c =
     [new_Token IDENTIFIER 0 6 1 1 0,
      new_Token LEFT_CURLY_BRACKET 7 1 1 8 0,
      new_Token EOL 8 1 1 9 0,
      new_Token IDENTIFIER 13 7 2 5 0,
      new_Token COLON 21 1 2 13 0,
      new_Token TYPE_INFO 23 3 2 15 (UVM_TYPE_I64 c),
      new_Token EQUALS_SIGN 27 1 2 19 0,
      new_Token MINUS_SIGN 29 1 2 21 0,
      new_Token INTEGER_NUMBER 31 1 2 23 0,
      new_Token EOL 32 1 2 24 0,
      new_Token RIGHT_CURLY_BRACKET 33 1 3 1 0,
      new_Token EOL 34 1 3 2 0,
      new_Token END_OF_FILE 35 0 4 1 0]"

definition ex_var_gap_parser :: "AsmConsts \<Rightarrow> Parser" where
  "ex_var_gap_parser c = new_Parser [] ex_var_gap_src (ex_var_gap_tokens c) new_ASTFileNode"

text \<open>
  The text that is converted when a sign is folded into a number, the character of the
  sign put before the characters of the number (\<open>numStr.insert(0, 1, signTokenText)\<close>).
\<close>

definition signedText :: "Parser \<Rightarrow> Token \<Rightarrow> Token \<Rightarrow> string" where
  "signedText p s t = getChar (Src p) (Token.Index s) # getSubStr (Src p) (Token.Index t) (Token.Size t)"

text \<open>
  The parser states in which the sign of a sample text has just been eaten and the number
  is the next token, and the instruction \<^verbatim>\<open>push\<close> with its type operand.
\<close>

definition ex_adjacent_at_sign :: Parser where
  "ex_adjacent_at_sign = (ex_adjacent_parser sample_consts)\<lparr> Cursor := 6 \<rparr>"

definition ex_gap_at_sign :: Parser where
  "ex_gap_at_sign = (ex_gap_parser sample_consts)\<lparr> Cursor := 6 \<rparr>"

definition ex_var_gap_at_sign :: Parser where
  "ex_var_gap_at_sign = (ex_var_gap_parser sample_consts)\<lparr> Cursor := 8 \<rparr>"

definition ex_push_i32 :: Instruction where
  "ex_push_i32 = pushParam (TypeInfoNode (new_TypeInfo 16 3 2 10 (UVM_TYPE_I32 sample_consts)))
                   (new_Instruction 11 4 2 5 ''push'' 1)"

section \<open>Numeric range checks\<close>

lemma uint_abs_int64: "uint (abs_int64 num) = \<bar>sint num\<bar>"
proof -
  have "- (2 ^ 63) \<le> sint num" "sint num < 2 ^ 63"
    using sint_ge [of num] sint_lt [of num] by simp_all
  then have "0 \<le> \<bar>sint num\<bar>" "\<bar>sint num\<bar> < 2 ^ 64"
    by simp_all
  then show ?thesis
    unfolding abs_int64_def by (simp add: uint_word_of_int take_bit_int_eq_self)
qed

lemma checkIntWidth_cases:
  "checkIntWidth c num ty isSigned =
     (if ty = UVM_TYPE_I8 c then magnitude num isSigned \<le> 0xFF
      else if ty = UVM_TYPE_I16 c then magnitude num isSigned \<le> 0xFFFF
      else if ty = UVM_TYPE_I32 c then magnitude num isSigned \<le> 0xFFFFFFFF
      else ty = UVM_TYPE_I64 c)"
proof (cases isSigned)
  case True
  then show ?thesis
    unfolding checkIntWidth_def Let_def magnitude_def
    by (simp add: word_le_def uint_abs_int64)
next
  case False
  then show ?thesis
    unfolding checkIntWidth_def Let_def magnitude_def
    by (simp add: word_le_def)
qed

lemma uvm_distinct_neq:
  assumes "uvm_distinct c"
  shows "UVM_TYPE_I8 c \<noteq> UVM_TYPE_I16 c"
    and "UVM_TYPE_I8 c \<noteq> UVM_TYPE_I32 c"
    and "UVM_TYPE_I8 c \<noteq> UVM_TYPE_I64 c"
    and "UVM_TYPE_I8 c \<noteq> UVM_TYPE_F32 c"
    and "UVM_TYPE_I8 c \<noteq> UVM_TYPE_F64 c"
    and "UVM_TYPE_I16 c \<noteq> UVM_TYPE_I8 c"
    and "UVM_TYPE_I16 c \<noteq> UVM_TYPE_I32 c"
    and "UVM_TYPE_I16 c \<noteq> UVM_TYPE_I64 c"
    and "UVM_TYPE_I16 c \<noteq> UVM_TYPE_F32 c"
    and "UVM_TYPE_I16 c \<noteq> UVM_TYPE_F64 c"
    and "UVM_TYPE_I32 c \<noteq> UVM_TYPE_I8 c"
    and "UVM_TYPE_I32 c \<noteq> UVM_TYPE_I16 c"
    and "UVM_TYPE_I32 c \<noteq> UVM_TYPE_I64 c"
    and "UVM_TYPE_I32 c \<noteq> UVM_TYPE_F32 c"
    and "UVM_TYPE_I32 c \<noteq> UVM_TYPE_F64 c"
    and "UVM_TYPE_I64 c \<noteq> UVM_TYPE_I8 c"
    and "UVM_TYPE_I64 c \<noteq> UVM_TYPE_I16 c"
    and "UVM_TYPE_I64 c \<noteq> UVM_TYPE_I32 c"
    and "UVM_TYPE_I64 c \<noteq> UVM_TYPE_F32 c"
    and "UVM_TYPE_I64 c \<noteq> UVM_TYPE_F64 c"
    and "UVM_TYPE_F32 c \<noteq> UVM_TYPE_I8 c"
    and "UVM_TYPE_F32 c \<noteq> UVM_TYPE_I16 c"
    and "UVM_TYPE_F32 c \<noteq> UVM_TYPE_I32 c"
    and "UVM_TYPE_F32 c \<noteq> UVM_TYPE_I64 c"
    and "UVM_TYPE_F32 c \<noteq> UVM_TYPE_F64 c"
    and "UVM_TYPE_F64 c \<noteq> UVM_TYPE_I8 c"
    and "UVM_TYPE_F64 c \<noteq> UVM_TYPE_I16 c"
    and "UVM_TYPE_F64 c \<noteq> UVM_TYPE_I32 c"
    and "UVM_TYPE_F64 c \<noteq> UVM_TYPE_I64 c"
    and "UVM_TYPE_F64 c \<noteq> UVM_TYPE_F32 c"
  using assms by (auto simp: uvm_distinct_def)

text \<open>
  C4. For every 64-bit value, signedness flag and integer type, the integer-fit check
  succeeds exactly when the magnitude of the value (its absolute value when the signed
  flag is set) is at most 0xFF for I8, 0xFFFF for I16, 0xFFFFFFFF for I32, and always
  for I64; 256 does not fit I8 and 255 does.
\<close>

theorem checkIntWidth_magnitude:
  assumes "uvm_distinct c"
  shows "checkIntWidth c num (UVM_TYPE_I8 c) isSigned = (magnitude num isSigned \<le> 0xFF)
       \<and> checkIntWidth c num (UVM_TYPE_I16 c) isSigned = (magnitude num isSigned \<le> 0xFFFF)
       \<and> checkIntWidth c num (UVM_TYPE_I32 c) isSigned = (magnitude num isSigned \<le> 0xFFFFFFFF)
       \<and> checkIntWidth c num (UVM_TYPE_I64 c) isSigned = True
       \<and> checkIntWidth c 256 (UVM_TYPE_I8 c) False = False
       \<and> checkIntWidth c 255 (UVM_TYPE_I8 c) False = True"
  by (simp add: checkIntWidth_cases uvm_distinct_neq [OF assms] magnitude_def)

theorem checkIntWidth_magnitude_witness:
  "uvm_distinct sample_consts
   \<and> checkIntWidth sample_consts 0xFFFFFFFFFFFFFF01 0x01 True
   \<and> checkIntWidth sample_consts 0xFFFFFFFFFFFFFF00 0x01 False = False
   \<and> checkIntWidth sample_consts 256 0x01 False = False
   \<and> checkIntWidth sample_consts 255 0x01 False"
proof -
  have d: "uvm_distinct sample_consts"
    by (simp add: uvm_distinct_def sample_consts_def)
  have i8: "UVM_TYPE_I8 sample_consts = 0x01"
    by (simp add: sample_consts_def)
  show ?thesis
    using d checkIntWidth_magnitude [OF d, of "0xFFFFFFFFFFFFFF01" True]
      checkIntWidth_magnitude [OF d, of "0xFFFFFFFFFFFFFF00" False]
    by (simp add: i8 magnitude_def)
qed

section \<open>The signature walk\<close>

lemma andThen_Inr_iff: "(andThen m f = Inr y) = (\<exists>x. m = Inr x \<and> f x = Inr y)"
  by (cases m) (simp_all add: andThen_def)

lemma andThen_Inl_iff: "(andThen m f = Inl e) = (m = Inl e \<or> (\<exists>x. m = Inr x \<and> f x = Inl e))"
  by (cases m) (simp_all add: andThen_def)

lemma console_ext_refl [simp, intro!]: "console_ext p p"
  unfolding console_ext_def by (rule exI[of _ "[]"]) simp

lemma console_ext_printError [simp, intro!]: "console_ext p (printError a b r l m p)"
  unfolding console_ext_def printError_def by blast

lemma console_ext_trans: "console_ext p p1 \<Longrightarrow> console_ext p1 p2 \<Longrightarrow> console_ext p p2"
  unfolding console_ext_def by auto

lemma console_ext_length: "console_ext p p1 \<Longrightarrow> length (Console p) \<le> length (Console p1)"
  unfolding console_ext_def by auto

lemma console_ext_same: "console_ext p p1 \<Longrightarrow> length (Console p1) \<le> length (Console p) \<Longrightarrow> p1 = p"
  unfolding console_ext_def by auto

lemma length_printError [simp]: "length (Console (printError a b r l m p)) = Suc (length (Console p))"
  by (simp add: printError_def)

lemmas matchChild_splits = InstrParamType.splits Node.splits option.splits if_splits

lemma matchChild_parser:
  "matchChild c ch w = Inr w1 \<Longrightarrow> console_ext (parser w) (parser w1)"
  unfolding matchChild_def
  by (auto simp: Let_def split: matchChild_splits)

lemma matchChild_error_mono:
  "matchChild c ch w = Inr w1 \<Longrightarrow> error w \<Longrightarrow> error w1"
  unfolding matchChild_def
  by (auto simp: Let_def split: matchChild_splits)

lemma matchChild_error_new:
  "matchChild c ch w = Inr w1 \<Longrightarrow> error w1 \<Longrightarrow> \<not> error w \<Longrightarrow>
   length (Console (parser w)) < length (Console (parser w1))"
  unfolding matchChild_def
  by (auto simp: Let_def split: matchChild_splits)

lemma matchChild_astNode:
  "matchChild c ch w = Inr w1 \<Longrightarrow> erase (astNode w1) = erase (astNode w)"
  unfolding matchChild_def
  by (auto simp: Let_def split: matchChild_splits)

lemma matchChild_nextNode:
  "matchChild c ch w = Inr w1 \<Longrightarrow>
   nextNode w1 = (if operandAccepted c (InstrDefNode.Type ch) (astNode w) then Some ch else nextNode w)"
  unfolding matchChild_def
  by (auto simp: Let_def isIntType_def isFloatType_def split: matchChild_splits)

lemma matchChild_quiet:
  "matchChild c ch w = Inr w1 \<Longrightarrow> \<not> error w1 \<Longrightarrow> \<not> mismatch c (InstrDefNode.Type ch) (astNode w) \<Longrightarrow>
   parser w1 = parser w"
  unfolding matchChild_def
  by (auto simp: Let_def isIntType_def isFloatType_def split: matchChild_splits)

lemma matchChild_typeRef:
  "matchChild c ch w = Inr w1 \<Longrightarrow>
   typeRef w1 = (case astNode w of
                   TypeInfoNode ti \<Rightarrow> if operandAccepted c (InstrDefNode.Type ch) (astNode w) then Some ti else typeRef w
                 | _ \<Rightarrow> typeRef w)"
  unfolding matchChild_def
  by (auto simp: Let_def isIntType_def isFloatType_def split: matchChild_splits)

lemma matchChild_fault:
  "matchChild c ch w = Inl f \<Longrightarrow>
   f = NullPointer \<and> typeRef w = None \<and> (InstrDefNode.Type ch = INT_NUM \<or> InstrDefNode.Type ch = FLOAT_NUM)"
  unfolding matchChild_def
  by (auto simp: Let_def split: matchChild_splits)

lemma matchChild_refs:
  "matchChild c ch w = Inr w1 \<Longrightarrow> \<exists>rs. refs w1 = refs w @ rs"
  unfolding matchChild_def
  by (auto simp: Let_def split: matchChild_splits)

lemma operandAccepted_erase [simp]: "operandAccepted c t (erase a) = operandAccepted c t a"
  by (cases a; cases t) simp_all

lemma mismatch_erase [simp]: "mismatch c t (erase a) = mismatch c t a"
  by (cases a; cases t) simp_all

lemma operandAccepted_cong_erase:
  "erase a = erase b \<Longrightarrow> operandAccepted c t a = operandAccepted c t b"
  by (metis operandAccepted_erase)

lemma mismatch_cong_erase:
  "erase a = erase b \<Longrightarrow> mismatch c t a = mismatch c t b"
  by (metis mismatch_erase)

lemma matchChildren_parser:
  "matchChildren c chs w = Inr w1 \<Longrightarrow> console_ext (parser w) (parser w1)"
proof (induction chs arbitrary: w)
  case Nil
  then show ?case by simp
next
  case (Cons ch chs)
  then obtain w' where a: "matchChild c ch w = Inr w'" and b: "matchChildren c chs w' = Inr w1"
    by (auto simp: andThen_Inr_iff)
  show ?case
    using console_ext_trans [OF matchChild_parser [OF a] Cons.IH [OF b]] .
qed

lemma matchChildren_error_mono:
  "matchChildren c chs w = Inr w1 \<Longrightarrow> error w \<Longrightarrow> error w1"
  by (induction chs arbitrary: w) (auto simp: andThen_Inr_iff dest: matchChild_error_mono)

lemma matchChildren_error_new:
  "matchChildren c chs w = Inr w1 \<Longrightarrow> error w1 \<Longrightarrow> \<not> error w \<Longrightarrow>
   length (Console (parser w)) < length (Console (parser w1))"
proof (induction chs arbitrary: w)
  case Nil
  then show ?case by simp
next
  case (Cons ch chs)
  then obtain w' where a: "matchChild c ch w = Inr w'" and b: "matchChildren c chs w' = Inr w1"
    by (auto simp: andThen_Inr_iff)
  have l1: "length (Console (parser w)) \<le> length (Console (parser w'))"
    using matchChild_parser [OF a] by (rule console_ext_length)
  have l2: "length (Console (parser w')) \<le> length (Console (parser w1))"
    using matchChildren_parser [OF b] by (rule console_ext_length)
  show ?case
  proof (cases "error w'")
    case True
    then show ?thesis using matchChild_error_new [OF a] Cons.prems(3) l2 by simp
  next
    case False
    then show ?thesis using Cons.IH [OF b Cons.prems(2)] l1 by simp
  qed
qed

lemma matchChildren_astNode:
  "matchChildren c chs w = Inr w1 \<Longrightarrow> erase (astNode w1) = erase (astNode w)"
  by (induction chs arbitrary: w) (auto simp: andThen_Inr_iff dest: matchChild_astNode)

lemma matchChildren_nextNode:
  "matchChildren c chs w = Inr w1 \<Longrightarrow> nextNode w1 = Some nx \<Longrightarrow>
   nextNode w = Some nx \<or> (nx \<in> set chs \<and> operandAccepted c (InstrDefNode.Type nx) (astNode w))"
proof (induction chs arbitrary: w)
  case Nil
  then show ?case by simp
next
  case (Cons ch chs)
  then obtain w' where a: "matchChild c ch w = Inr w'" and b: "matchChildren c chs w' = Inr w1"
    by (auto simp: andThen_Inr_iff)
  have e: "erase (astNode w') = erase (astNode w)"
    by (rule matchChild_astNode [OF a])
  from Cons.IH [OF b Cons.prems(2)]
  show ?case
  proof
    assume "nextNode w' = Some nx"
    then show ?thesis
      using matchChild_nextNode [OF a] by (auto split: if_splits)
  next
    assume "nx \<in> set chs \<and> operandAccepted c (InstrDefNode.Type nx) (astNode w')"
    then show ?thesis
      using operandAccepted_cong_erase [OF e] by auto
  qed
qed

lemma matchChildren_quiet:
  "matchChildren c chs w = Inr w1 \<Longrightarrow> \<not> error w1 \<Longrightarrow>
   \<not> list_ex (\<lambda>ch. mismatch c (InstrDefNode.Type ch) (astNode w)) chs \<Longrightarrow>
   parser w1 = parser w"
proof (induction chs arbitrary: w)
  case Nil
  then show ?case by simp
next
  case (Cons ch chs)
  then obtain w' where a: "matchChild c ch w = Inr w'" and b: "matchChildren c chs w' = Inr w1"
    by (auto simp: andThen_Inr_iff)
  have e: "erase (astNode w') = erase (astNode w)"
    by (rule matchChild_astNode [OF a])
  have ne: "\<not> error w'"
    using matchChildren_error_mono [OF b] Cons.prems(2) by blast
  have "parser w' = parser w"
    using matchChild_quiet [OF a ne] Cons.prems(3) by simp
  moreover have "\<not> list_ex (\<lambda>ch. mismatch c (InstrDefNode.Type ch) (astNode w')) chs"
    using Cons.prems(3) mismatch_cong_erase [OF e] by (simp add: list_ex_iff)
  ultimately show ?case
    using Cons.IH [OF b Cons.prems(2)] by simp
qed

lemma matchChildren_typeRef_mono:
  "matchChildren c chs w = Inr w1 \<Longrightarrow> typeRef w \<noteq> None \<Longrightarrow> typeRef w1 \<noteq> None"
proof (induction chs arbitrary: w)
  case Nil
  then show ?case by simp
next
  case (Cons ch chs)
  then obtain w' where a: "matchChild c ch w = Inr w'" and b: "matchChildren c chs w' = Inr w1"
    by (auto simp: andThen_Inr_iff)
  have "typeRef w' \<noteq> None"
    using matchChild_typeRef [OF a] Cons.prems(2) by (auto split: Node.splits)
  then show ?case by (rule Cons.IH [OF b])
qed

lemma matchChildren_typeRef:
  "matchChildren c chs w = Inr w1 \<Longrightarrow>
   typeRef w1 = (case astNode w of
                   TypeInfoNode ti \<Rightarrow>
                     if list_ex (\<lambda>ch. operandAccepted c (InstrDefNode.Type ch) (astNode w)) chs
                     then Some ti else typeRef w
                 | _ \<Rightarrow> typeRef w)"
proof (induction chs arbitrary: w)
  case Nil
  then show ?case by (simp split: Node.splits)
next
  case (Cons ch chs)
  then obtain w' where a: "matchChild c ch w = Inr w'" and b: "matchChildren c chs w' = Inr w1"
    by (auto simp: andThen_Inr_iff)
  have e: "erase (astNode w') = erase (astNode w)"
    by (rule matchChild_astNode [OF a])
  show ?case
  proof (cases "astNode w")
    case (TypeInfoNode ti)
    then have "astNode w' = TypeInfoNode ti"
      using e by (cases "astNode w'") simp_all
    then show ?thesis
      using Cons.IH [OF b] matchChild_typeRef [OF a] TypeInfoNode by simp
  qed (use Cons.IH [OF b] matchChild_typeRef [OF a] e in
       \<open>(cases "astNode w'"; simp)+\<close>)
qed

lemma matchChildren_fault:
  "matchChildren c chs w = Inl f \<Longrightarrow>
   f = NullPointer \<and> typeRef w = None \<and>
   list_ex (\<lambda>ch. InstrDefNode.Type ch = INT_NUM \<or> InstrDefNode.Type ch = FLOAT_NUM) chs"
proof (induction chs arbitrary: w)
  case Nil
  then show ?case by simp
next
  case (Cons ch chs)
  from Cons.prems consider
    (here) "matchChild c ch w = Inl f"
  | (later) w' where "matchChild c ch w = Inr w'" "matchChildren c chs w' = Inl f"
    by (auto simp: andThen_Inl_iff)
  then show ?case
  proof cases
    case here
    then show ?thesis using matchChild_fault [OF here] by simp
  next
    case later
    have "typeRef w = None"
      using Cons.IH [OF later(2)] matchChild_typeRef [OF later(1)]
      by (auto split: Node.splits if_splits)
    then show ?thesis using Cons.IH [OF later(2)] by simp
  qed
qed

lemma mismatch_accept_mixed:
  "mismatch c t a \<Longrightarrow> operandAccepted c t1 a \<Longrightarrow>
   (t = INT_TYPE \<and> t1 = FLOAT_TYPE) \<or> (t = FLOAT_TYPE \<and> t1 = INT_TYPE) \<or>
   (t = INT_REG \<and> t1 = FLOAT_REG) \<or> (t = FLOAT_REG \<and> t1 = INT_REG)"
  by (cases a; cases t; cases t1) simp_all

lemma wellSeparated_children:
  "wellSeparated n \<Longrightarrow> ch \<in> set (Children n) \<Longrightarrow> wellSeparated ch"
  by (cases n) (simp add: list_all_iff)

lemma wellSeparated_no_mismatch:
  assumes "wellSeparated n" "nx \<in> set (Children n)" "operandAccepted c (InstrDefNode.Type nx) a"
  shows "\<not> list_ex (\<lambda>ch. mismatch c (InstrDefNode.Type ch) a) (Children n)"
proof
  assume "list_ex (\<lambda>ch. mismatch c (InstrDefNode.Type ch) a) (Children n)"
  then obtain ch where ch: "ch \<in> set (Children n)" "mismatch c (InstrDefNode.Type ch) a"
    by (auto simp: list_ex_iff)
  from mismatch_accept_mixed [OF ch(2) assms(3)] ch(1) assms(1,2)
  show False
    by (cases n) force
qed

lemma walkParams_Cons:
  "(walkParams c cur (a # as) w = Inr (pl, as1, w2)) =
   (\<exists>w1. matchChildren c (Children cur) (w\<lparr> nextNode := None, astNode := a \<rparr>) = Inr w1 \<and>
      (case nextNode w1 of
         None \<Rightarrow> pl = None \<and> as1 = astNode w1 # as \<and> w2 = w1
       | Some nx \<Rightarrow>
           if as = [] then pl = InstrDefNode.ParamList nx \<and> as1 = [astNode w1] \<and> w2 = w1
           else \<exists>as2. walkParams c nx as w1 = Inr (pl, as2, w2) \<and> as1 = astNode w1 # as2))"
proof -
  have "\<And>w1. ((case nextNode w1 of
                None \<Rightarrow> Inr (None, astNode w1 # as, w1)
              | Some nx \<Rightarrow>
                  if as = [] then Inr (InstrDefNode.ParamList nx, [astNode w1], w1)
                  else andThen (walkParams c nx as w1)
                         (\<lambda>(paramList, as1, w2). Inr (paramList, astNode w1 # as1, w2)))
             = (Inr (pl, as1, w2) :: Fault + (InstrParamList option \<times> Node list \<times> Walk))) =
      (case nextNode w1 of
         None \<Rightarrow> pl = None \<and> as1 = astNode w1 # as \<and> w2 = w1
       | Some nx \<Rightarrow>
           if as = [] then pl = InstrDefNode.ParamList nx \<and> as1 = [astNode w1] \<and> w2 = w1
           else \<exists>as2. walkParams c nx as w1 = Inr (pl, as2, w2) \<and> as1 = astNode w1 # as2)"
    subgoal for w1
      by (cases "nextNode w1"; cases "as = []") (auto simp: andThen_Inr_iff)
    done
  then show ?thesis
    by (simp add: andThen_Inr_iff)
qed

lemma walkParams_induct [consumes 1, case_names Nil Stop Last Step]:
  assumes run: "walkParams c cur as w = Inr (pl, as1, w2)"
    and Nil: "\<And>cur w. P cur [] w None [] w"
    and Stop: "\<And>cur a as w w1.
        matchChildren c (Children cur) (w\<lparr> nextNode := None, astNode := a \<rparr>) = Inr w1 \<Longrightarrow>
        nextNode w1 = None \<Longrightarrow> P cur (a # as) w None (astNode w1 # as) w1"
    and Last: "\<And>cur a w w1 nx.
        matchChildren c (Children cur) (w\<lparr> nextNode := None, astNode := a \<rparr>) = Inr w1 \<Longrightarrow>
        nextNode w1 = Some nx \<Longrightarrow> P cur [a] w (InstrDefNode.ParamList nx) [astNode w1] w1"
    and Step: "\<And>cur a as w w1 nx pl as2 w2.
        matchChildren c (Children cur) (w\<lparr> nextNode := None, astNode := a \<rparr>) = Inr w1 \<Longrightarrow>
        nextNode w1 = Some nx \<Longrightarrow> as \<noteq> [] \<Longrightarrow>
        walkParams c nx as w1 = Inr (pl, as2, w2) \<Longrightarrow> P nx as w1 pl as2 w2 \<Longrightarrow>
        P cur (a # as) w pl (astNode w1 # as2) w2"
  shows "P cur as w pl as1 w2"
  using run
proof (induction as arbitrary: cur w pl as1 w2)
  case Nil
  then show ?case using assms(2) by simp
next
  case (Cons a as)
  from Cons.prems obtain w1 where
    m: "matchChildren c (Children cur) (w\<lparr> nextNode := None, astNode := a \<rparr>) = Inr w1"
    and k: "case nextNode w1 of
         None \<Rightarrow> pl = None \<and> as1 = astNode w1 # as \<and> w2 = w1
       | Some nx \<Rightarrow>
           if as = [] then pl = InstrDefNode.ParamList nx \<and> as1 = [astNode w1] \<and> w2 = w1
           else \<exists>as2. walkParams c nx as w1 = Inr (pl, as2, w2) \<and> as1 = astNode w1 # as2"
    unfolding walkParams_Cons by blast
  show ?case
  proof (cases "nextNode w1")
    case None
    then show ?thesis using k Stop [OF m None] by simp
  next
    case (Some nx)
    show ?thesis
    proof (cases "as = []")
      case True
      then show ?thesis using k Some Last [OF m Some] by simp
    next
      case False
      with k Some obtain as2 where r: "walkParams c nx as w1 = Inr (pl, as2, w2)"
        and e: "as1 = astNode w1 # as2"
        by auto
      show ?thesis
        unfolding e by (rule Step [OF m Some False r Cons.IH [OF r]])
    qed
  qed
qed

lemma walkParams_parser:
  "walkParams c cur as w = Inr (pl, as1, w2) \<Longrightarrow> console_ext (parser w) (parser w2)"
proof (induction rule: walkParams_induct)
  case (Step cur a as w w1 nx pl as2 w2)
  show ?case
    using console_ext_trans [OF _ Step.IH] matchChildren_parser [OF Step.hyps(1)] by simp
qed (use matchChildren_parser in force)+

lemma walkParams_error_mono:
  "walkParams c cur as w = Inr (pl, as1, w2) \<Longrightarrow> error w \<Longrightarrow> error w2"
proof (induction rule: walkParams_induct)
  case (Step cur a as w w1 nx pl as2 w2)
  show ?case
    using Step.IH matchChildren_error_mono [OF Step.hyps(1)] Step.prems by simp
qed (use matchChildren_error_mono in force)+

lemma walkParams_error_new:
  "walkParams c cur as w = Inr (pl, as1, w2) \<Longrightarrow> error w2 \<Longrightarrow> \<not> error w \<Longrightarrow>
   length (Console (parser w)) < length (Console (parser w2))"
proof (induction rule: walkParams_induct)
  case (Step cur a as w w1 nx pl as2 w2)
  have l1: "length (Console (parser w)) \<le> length (Console (parser w1))"
    using console_ext_length [OF matchChildren_parser [OF Step.hyps(1)]] by simp
  have l2: "length (Console (parser w1)) \<le> length (Console (parser w2))"
    using console_ext_length [OF walkParams_parser [OF Step.hyps(4)]] .
  show ?case
  proof (cases "error w1")
    case True
    then show ?thesis
      using matchChildren_error_new [OF Step.hyps(1)] Step.prems l2 by simp
  next
    case False
    then show ?thesis using Step.IH Step.prems l1 by simp
  qed
qed (use matchChildren_error_new in force)+

lemma walkParams_erase:
  "walkParams c cur as w = Inr (pl, as1, w2) \<Longrightarrow> map erase as1 = map erase as"
proof (induction rule: walkParams_induct)
  case (Step cur a as w w1 nx pl as2 w2)
  then show ?case using matchChildren_astNode [OF Step.hyps(1)] by simp
qed (use matchChildren_astNode in force)+

lemma walkParams_quiet:
  "walkParams c cur as w = Inr (pl, as1, w2) \<Longrightarrow> pl \<noteq> None \<Longrightarrow> wellSeparated cur \<Longrightarrow>
   \<not> error w2 \<Longrightarrow> parser w2 = parser w"
proof (induction rule: walkParams_induct)
  case (Last cur a w w1 nx)
  have acc: "nx \<in> set (Children cur) \<and> operandAccepted c (InstrDefNode.Type nx) a"
    using matchChildren_nextNode [OF Last.hyps(1,2)] by simp
  have "\<not> list_ex (\<lambda>ch. mismatch c (InstrDefNode.Type ch) a) (Children cur)"
    using wellSeparated_no_mismatch [OF Last.prems(2)] acc by blast
  then show ?case
    using matchChildren_quiet [OF Last.hyps(1) Last.prems(3)] by simp
next
  case (Step cur a as w w1 nx pl as2 w2)
  have acc: "nx \<in> set (Children cur) \<and> operandAccepted c (InstrDefNode.Type nx) a"
    using matchChildren_nextNode [OF Step.hyps(1,2)] by simp
  have "\<not> list_ex (\<lambda>ch. mismatch c (InstrDefNode.Type ch) a) (Children cur)"
    using wellSeparated_no_mismatch [OF Step.prems(2)] acc by blast
  moreover have "\<not> error w1"
    using walkParams_error_mono [OF Step.hyps(4)] Step.prems(3) by blast
  ultimately have "parser w1 = parser w"
    using matchChildren_quiet [OF Step.hyps(1)] by simp
  moreover have "wellSeparated nx"
    using wellSeparated_children [OF Step.prems(2)] acc by blast
  ultimately show ?case
    using Step.IH Step.prems by simp
qed simp_all

lemma typeGuarded_child:
  "typeGuarded seen n \<Longrightarrow> ch \<in> set (Children n) \<Longrightarrow>
   typeGuarded (seen \<or> InstrDefNode.Type ch = INT_TYPE \<or> InstrDefNode.Type ch = FLOAT_TYPE) ch"
  by (cases n) (simp add: list_all_iff)

lemma typeGuarded_num:
  "typeGuarded seen n \<Longrightarrow>
   list_ex (\<lambda>ch. InstrDefNode.Type ch = INT_NUM \<or> InstrDefNode.Type ch = FLOAT_NUM) (Children n) \<Longrightarrow> seen"
  by (cases n) (auto simp: list_all_iff list_ex_iff split: if_splits)

lemma typeGuarded_variants:
  "typeGuarded seen n \<Longrightarrow> InstrDefNode.ParamList n = Some pl \<Longrightarrow> OpcodeVariants pl = [] \<or> seen"
  by (cases n) (auto split: if_splits)

lemma operandAccepted_type:
  "operandAccepted c t a \<Longrightarrow> t = INT_TYPE \<or> t = FLOAT_TYPE \<Longrightarrow> \<exists>ti. a = TypeInfoNode ti"
  by (cases a; cases t) simp_all

lemma matchChildren_guard_step:
  assumes m: "matchChildren c (Children cur) w0 = Inr w1"
    and n0: "nextNode w0 = None" and n1: "nextNode w1 = Some nx"
    and g: "typeGuarded seen cur" and t: "seen \<longrightarrow> typeRef w0 \<noteq> None"
  shows "\<exists>seen1. typeGuarded seen1 nx \<and> (seen1 \<longrightarrow> typeRef w1 \<noteq> None)"
proof -
  have acc: "nx \<in> set (Children cur)" "operandAccepted c (InstrDefNode.Type nx) (astNode w0)"
    using matchChildren_nextNode [OF m n1] n0 by simp_all
  let ?s = "seen \<or> InstrDefNode.Type nx = INT_TYPE \<or> InstrDefNode.Type nx = FLOAT_TYPE"
  have "typeGuarded ?s nx"
    by (rule typeGuarded_child [OF g acc(1)])
  moreover have "?s \<longrightarrow> typeRef w1 \<noteq> None"
  proof
    assume s: ?s
    show "typeRef w1 \<noteq> None"
    proof (cases seen)
      case True
      then show ?thesis using matchChildren_typeRef_mono [OF m] t by blast
    next
      case False
      with s obtain ti where ti: "astNode w0 = TypeInfoNode ti"
        using operandAccepted_type [OF acc(2)] by blast
      have "list_ex (\<lambda>ch. operandAccepted c (InstrDefNode.Type ch) (astNode w0)) (Children cur)"
        using acc by (auto simp: list_ex_iff)
      then show ?thesis
        using matchChildren_typeRef [OF m] ti by simp
    qed
  qed
  ultimately show ?thesis by blast
qed

lemma walkParams_no_fault:
  "typeGuarded seen cur \<Longrightarrow> (seen \<longrightarrow> typeRef w \<noteq> None) \<Longrightarrow> \<exists>r. walkParams c cur as w = Inr r"
proof (induction as arbitrary: cur w seen)
  case Nil
  then show ?case by simp
next
  case (Cons a as)
  let ?w0 = "w\<lparr> nextNode := None, astNode := a \<rparr>"
  have "\<exists>w1. matchChildren c (Children cur) ?w0 = Inr w1"
  proof (cases "matchChildren c (Children cur) ?w0")
    case (Inl f)
    then have "typeRef w = None" and "seen"
      using matchChildren_fault [OF Inl] typeGuarded_num [OF Cons.prems(1)] by simp_all
    then show ?thesis using Cons.prems(2) by simp
  next
    case (Inr w1)
    then show ?thesis by blast
  qed
  then obtain w1 where m: "matchChildren c (Children cur) ?w0 = Inr w1" ..
  show ?case
  proof (cases "nextNode w1")
    case None
    then show ?thesis using m by (simp add: andThen_def)
  next
    case (Some nx)
    show ?thesis
    proof (cases "as = []")
      case True
      then show ?thesis using m Some by (simp add: andThen_def)
    next
      case False
      obtain seen1 where "typeGuarded seen1 nx" "seen1 \<longrightarrow> typeRef w1 \<noteq> None"
        using matchChildren_guard_step [OF m _ Some Cons.prems(1)] Cons.prems(2) by auto
      from Cons.IH [OF this] obtain r where "walkParams c nx as w1 = Inr r" ..
      then show ?thesis
        using m Some False by (cases r) (simp add: andThen_def)
    qed
  qed
qed

lemma walkParams_variants:
  "walkParams c cur as w = Inr (pl, as1, w2) \<Longrightarrow>
   \<forall>seen l. typeGuarded seen cur \<longrightarrow> (seen \<longrightarrow> typeRef w \<noteq> None) \<longrightarrow> pl = Some l \<longrightarrow>
      OpcodeVariants l = [] \<or> typeRef w2 \<noteq> None"
proof (induction rule: walkParams_induct)
  case (Last cur a w w1 nx)
  show ?case
  proof (intro allI impI)
    fix seen l
    assume g: "typeGuarded seen cur" and t: "seen \<longrightarrow> typeRef w \<noteq> None"
      and p: "InstrDefNode.ParamList nx = Some l"
    obtain seen1 where "typeGuarded seen1 nx" "seen1 \<longrightarrow> typeRef w1 \<noteq> None"
      using matchChildren_guard_step [OF Last.hyps(1) _ Last.hyps(2) g] t by auto
    then show "OpcodeVariants l = [] \<or> typeRef w1 \<noteq> None"
      using typeGuarded_variants [OF _ p] by blast
  qed
next
  case (Step cur a as w w1 nx pl as2 w2)
  show ?case
  proof (intro allI impI)
    fix seen l
    assume g: "typeGuarded seen cur" and t: "seen \<longrightarrow> typeRef w \<noteq> None"
      and p: "pl = Some l"
    obtain seen1 where "typeGuarded seen1 nx" "seen1 \<longrightarrow> typeRef w1 \<noteq> None"
      using matchChildren_guard_step [OF Step.hyps(1) _ Step.hyps(2) g] t by auto
    then show "OpcodeVariants l = [] \<or> typeRef w2 \<noteq> None"
      using Step.IH p by blast
  qed
qed simp_all

lemma findVariant_no_fault: "vs = [] \<or> ty \<noteq> None \<Longrightarrow> \<exists>opc. findVariant vs ty opc0 = Inr opc"
  by (induction vs arbitrary: opc0) (auto split: option.splits)

lemma typeCheckInstrParams_elim [consumes 1, case_names NoParams NoParamsErr NoMatch RangeErr Variant Plain]:
  assumes run: "typeCheckInstrParams c instr labelRefs p = Inr (ok, instr1, refs1, p1)"
  obtains
    (NoParams) pl where
      "unat (ASMDefIndex instr) < length (InstrDefs p)"
      "Instruction.Params instr = []"
      "Children (InstrDefs p ! unat (ASMDefIndex instr)) = []"
      "InstrDefNode.ParamList (InstrDefs p ! unat (ASMDefIndex instr)) = Some pl"
      "ok" "refs1 = labelRefs" "p1 = p"
      "instr1 = instr\<lparr> Instruction.Opcode := InstrParamList.Opcode pl, EncodingFlags := Flags pl \<rparr>"
  | (NoParamsErr)
      "unat (ASMDefIndex instr) < length (InstrDefs p)"
      "Instruction.Params instr = []"
      "Children (InstrDefs p ! unat (ASMDefIndex instr)) \<noteq> []"
      "\<not> ok" "refs1 = labelRefs" "instr1 = instr"
      "p1 = printError (ASTNode.Index instr) (of_nat (length (Instruction.Name instr)))
              (ASTNode.LineRow instr) (ASTNode.LineCol instr) ''Expected parameters found none'' p"
  | (NoMatch) a as params1 w where
      "unat (ASMDefIndex instr) < length (InstrDefs p)"
      "Instruction.Params instr = a # as"
      "walkParams c (InstrDefs p ! unat (ASMDefIndex instr)) (a # as)
         \<lparr> nextNode = None, astNode = a, typeRef = None, error = False, refs = labelRefs, parser = p \<rparr>
       = Inr (None, params1, w)"
      "\<not> ok" "refs1 = refs w" "instr1 = instr\<lparr> Instruction.Params := params1 \<rparr>"
      "p1 = printError (ASTNode.Index instr) (of_nat (length (Instruction.Name instr)))
              (ASTNode.LineRow instr) (ASTNode.LineCol instr)
              ''Error no matching parameter list found for instruction'' (parser w)"
  | (RangeErr) a as pl params1 w where
      "unat (ASMDefIndex instr) < length (InstrDefs p)"
      "Instruction.Params instr = a # as"
      "walkParams c (InstrDefs p ! unat (ASMDefIndex instr)) (a # as)
         \<lparr> nextNode = None, astNode = a, typeRef = None, error = False, refs = labelRefs, parser = p \<rparr>
       = Inr (Some pl, params1, w)"
      "error w" "\<not> ok" "refs1 = refs w" "instr1 = instr\<lparr> Instruction.Params := params1 \<rparr>"
      "p1 = parser w"
  | (Variant) a as pl params1 w opcode where
      "unat (ASMDefIndex instr) < length (InstrDefs p)"
      "Instruction.Params instr = a # as"
      "walkParams c (InstrDefs p ! unat (ASMDefIndex instr)) (a # as)
         \<lparr> nextNode = None, astNode = a, typeRef = None, error = False, refs = labelRefs, parser = p \<rparr>
       = Inr (Some pl, params1, w)"
      "\<not> error w" "Flags pl AND INSTR_FLAG_TYPE_VARIANTS \<noteq> 0"
      "findVariant (OpcodeVariants pl) (typeRef w) 0 = Inr opcode"
      "ok" "refs1 = refs w" "p1 = parser w"
      "instr1 = instr\<lparr> Instruction.Params := params1, Instruction.Opcode := opcode,
                        EncodingFlags := Flags pl \<rparr>"
  | (Plain) a as pl params1 w where
      "unat (ASMDefIndex instr) < length (InstrDefs p)"
      "Instruction.Params instr = a # as"
      "walkParams c (InstrDefs p ! unat (ASMDefIndex instr)) (a # as)
         \<lparr> nextNode = None, astNode = a, typeRef = None, error = False, refs = labelRefs, parser = p \<rparr>
       = Inr (Some pl, params1, w)"
      "\<not> error w" "Flags pl AND INSTR_FLAG_TYPE_VARIANTS = 0"
      "ok" "refs1 = refs w" "p1 = parser w"
      "instr1 = instr\<lparr> Instruction.Params := params1, Instruction.Opcode := InstrParamList.Opcode pl,
                        EncodingFlags := Flags pl \<rparr>"
proof -
  let ?root = "InstrDefs p ! unat (ASMDefIndex instr)"
  have idx: "unat (ASMDefIndex instr) < length (InstrDefs p)"
    using run unfolding typeCheckInstrParams_def by (simp split: if_splits)
  show thesis
  proof (cases "Instruction.Params instr")
    case Nil
    show ?thesis
    proof (cases "Children ?root = []")
      case True
      have "\<exists>pl. InstrDefNode.ParamList ?root = Some pl \<and>
              Inr (True, instr\<lparr> Instruction.Opcode := InstrParamList.Opcode pl, EncodingFlags := Flags pl \<rparr>,
                   labelRefs, p) = (Inr (ok, instr1, refs1, p1) :: Fault + _)"
        using run idx Nil True unfolding typeCheckInstrParams_def
        by (cases "InstrDefNode.ParamList ?root") (simp_all add: Let_def)
      then obtain pl where "InstrDefNode.ParamList ?root = Some pl" "ok" "refs1 = labelRefs" "p1 = p"
        "instr1 = instr\<lparr> Instruction.Opcode := InstrParamList.Opcode pl, EncodingFlags := Flags pl \<rparr>"
        by auto
      then show ?thesis using NoParams [OF idx Nil True] by blast
    next
      case False
      have "Inr (False, instr, labelRefs,
                  printError (ASTNode.Index instr) (of_nat (length (Instruction.Name instr)))
                    (ASTNode.LineRow instr) (ASTNode.LineCol instr)
                    ''Expected parameters found none'' p) = (Inr (ok, instr1, refs1, p1) :: Fault + _)"
        using run idx Nil False unfolding typeCheckInstrParams_def
        by (auto simp: Let_def)
      then have "\<not> ok" "refs1 = labelRefs" "instr1 = instr"
        "p1 = printError (ASTNode.Index instr) (of_nat (length (Instruction.Name instr)))
                    (ASTNode.LineRow instr) (ASTNode.LineCol instr)
                    ''Expected parameters found none'' p"
        by auto
      then show ?thesis using NoParamsErr [OF idx Nil False] by blast
    qed
  next
    case (Cons a as)
    let ?w0 = "\<lparr> nextNode = None, astNode = a, typeRef = None, error = False, refs = labelRefs, parser = p \<rparr>"
    have "andThen (walkParams c ?root (a # as) ?w0)
             (\<lambda>(paramList, params1, w).
                let instr1 = instr\<lparr> Instruction.Params := params1 \<rparr> in
                case paramList of
                  None \<Rightarrow>
                    Inr (False, instr1, refs w,
                         printError (ASTNode.Index instr) (of_nat (length (Instruction.Name instr)))
                           (ASTNode.LineRow instr) (ASTNode.LineCol instr)
                           ''Error no matching parameter list found for instruction'' (parser w))
                | Some pl \<Rightarrow>
                    if error w then Inr (False, instr1, refs w, parser w)
                    else if Flags pl AND INSTR_FLAG_TYPE_VARIANTS \<noteq> 0 then
                      andThen (findVariant (OpcodeVariants pl) (typeRef w) 0)
                        (\<lambda>opcode. Inr (True,
                           instr1\<lparr> Instruction.Opcode := opcode, EncodingFlags := Flags pl \<rparr>,
                           refs w, parser w))
                    else
                      Inr (True,
                           instr1\<lparr> Instruction.Opcode := InstrParamList.Opcode pl,
                                   EncodingFlags := Flags pl \<rparr>,
                           refs w, parser w)) = Inr (ok, instr1, refs1, p1)"
      using run idx Cons unfolding typeCheckInstrParams_def by (simp add: Let_def)
    then obtain pl params1 w where
      wk: "walkParams c ?root (a # as) ?w0 = Inr (pl, params1, w)"
      and rest: "(case pl of
                  None \<Rightarrow>
                    Inr (False, instr\<lparr> Instruction.Params := params1 \<rparr>, refs w,
                         printError (ASTNode.Index instr) (of_nat (length (Instruction.Name instr)))
                           (ASTNode.LineRow instr) (ASTNode.LineCol instr)
                           ''Error no matching parameter list found for instruction'' (parser w))
                | Some pl \<Rightarrow>
                    if error w then Inr (False, instr\<lparr> Instruction.Params := params1 \<rparr>, refs w, parser w)
                    else if Flags pl AND INSTR_FLAG_TYPE_VARIANTS \<noteq> 0 then
                      andThen (findVariant (OpcodeVariants pl) (typeRef w) 0)
                        (\<lambda>opcode. Inr (True,
                           instr\<lparr> Instruction.Params := params1, Instruction.Opcode := opcode,
                                  EncodingFlags := Flags pl \<rparr>,
                           refs w, parser w))
                    else
                      Inr (True,
                           instr\<lparr> Instruction.Params := params1,
                                  Instruction.Opcode := InstrParamList.Opcode pl,
                                  EncodingFlags := Flags pl \<rparr>,
                           refs w, parser w)) = (Inr (ok, instr1, refs1, p1) :: Fault + _)"
      unfolding andThen_Inr_iff by (auto simp: Let_def)
    show ?thesis
    proof (cases pl)
      case None
      have "\<not> ok" "refs1 = refs w" "instr1 = instr\<lparr> Instruction.Params := params1 \<rparr>"
        "p1 = printError (ASTNode.Index instr) (of_nat (length (Instruction.Name instr)))
              (ASTNode.LineRow instr) (ASTNode.LineCol instr)
              ''Error no matching parameter list found for instruction'' (parser w)"
        using rest None by auto
      then show ?thesis using NoMatch [OF idx Cons] wk None by blast
    next
      case (Some l)
      show ?thesis
      proof (cases "error w")
        case True
        have "\<not> ok" "refs1 = refs w" "instr1 = instr\<lparr> Instruction.Params := params1 \<rparr>" "p1 = parser w"
          using rest Some True by auto
        then show ?thesis using RangeErr [OF idx Cons _ True] wk Some by blast
      next
        case False
        show ?thesis
        proof (cases "Flags l AND INSTR_FLAG_TYPE_VARIANTS = 0")
          case True
          have "ok" "refs1 = refs w" "p1 = parser w"
            "instr1 = instr\<lparr> Instruction.Params := params1, Instruction.Opcode := InstrParamList.Opcode l,
                        EncodingFlags := Flags l \<rparr>"
            using rest Some False True by auto
          then show ?thesis using Plain [OF idx Cons _ False True] wk Some by blast
        next
          case nz: False
          have "\<exists>opcode. findVariant (OpcodeVariants l) (typeRef w) 0 = Inr opcode \<and>
                  Inr (True, instr\<lparr> Instruction.Params := params1, Instruction.Opcode := opcode,
                                     EncodingFlags := Flags l \<rparr>, refs w, parser w)
                  = (Inr (ok, instr1, refs1, p1) :: Fault + _)"
            using rest Some False nz by (simp add: andThen_Inr_iff)
          then obtain opcode where "findVariant (OpcodeVariants l) (typeRef w) 0 = Inr opcode"
            "ok" "refs1 = refs w" "p1 = parser w"
            "instr1 = instr\<lparr> Instruction.Params := params1, Instruction.Opcode := opcode,
                        EncodingFlags := Flags l \<rparr>"
            by auto
          then show ?thesis using Variant [OF idx Cons _ False nz] wk Some by blast
        qed
      qed
    qed
  qed
qed

lemma walkParams_init_parser:
  "walkParams c cur as
     \<lparr> nextNode = None, astNode = a, typeRef = None, error = False, refs = labelRefs, parser = p \<rparr>
   = Inr (pl, params1, w) \<Longrightarrow> console_ext p (parser w)"
  by (drule walkParams_parser) simp

lemma typeCheckInstrParams_parser:
  assumes "typeCheckInstrParams c instr labelRefs p = Inr (ok, instr1, refs1, p1)"
  shows "console_ext p p1"
  using assms
proof (cases rule: typeCheckInstrParams_elim)
  case (NoMatch a as params1 w)
  show ?thesis
    using console_ext_trans [OF walkParams_init_parser [OF NoMatch(3)]] NoMatch(7) by simp
next
  case (RangeErr a as pl params1 w)
  show ?thesis using walkParams_init_parser [OF RangeErr(3)] RangeErr(8) by simp
next
  case (Variant a as pl params1 w opcode)
  show ?thesis using walkParams_init_parser [OF Variant(3)] Variant(9) by simp
next
  case (Plain a as pl params1 w)
  show ?thesis using walkParams_init_parser [OF Plain(3)] Plain(8) by simp
qed simp_all

lemma typeCheckInstrParams_failure_reported:
  assumes "typeCheckInstrParams c instr labelRefs p = Inr (False, instr1, refs1, p1)"
  shows "length (Console p) < length (Console p1)"
  using assms
proof (cases rule: typeCheckInstrParams_elim)
  case (NoMatch a as params1 w)
  show ?thesis
    using console_ext_length [OF walkParams_init_parser [OF NoMatch(3)]] NoMatch(7) by simp
next
  case (RangeErr a as pl params1 w)
  show ?thesis
    using walkParams_error_new [OF RangeErr(3,4)] RangeErr(8) by simp
qed simp_all

lemma typeCheckInstrParams_success_quiet:
  assumes "typeCheckInstrParams c instr labelRefs p = Inr (True, instr1, refs1, p1)"
    and "list_all wellSeparated (InstrDefs p)"
  shows "p1 = p"
  using assms(1)
proof (cases rule: typeCheckInstrParams_elim)
  case (Variant a as pl params1 w opcode)
  have "wellSeparated (InstrDefs p ! unat (ASMDefIndex instr))"
    using assms(2) Variant(1) by (simp add: list_all_length)
  then show ?thesis
    using walkParams_quiet [OF Variant(3)] Variant(4,9) by simp
next
  case (Plain a as pl params1 w)
  have "wellSeparated (InstrDefs p ! unat (ASMDefIndex instr))"
    using assms(2) Plain(1) by (simp add: list_all_length)
  then show ?thesis
    using walkParams_quiet [OF Plain(3)] Plain(4,8) by simp
qed simp_all

lemma typeCheckInstrParams_no_fault:
  assumes g: "list_all (typeGuarded False) (InstrDefs p)"
    and r: "list_all rootComplete (InstrDefs p)"
    and idx: "unat (ASMDefIndex instr) < length (InstrDefs p)"
  shows "\<exists>res. typeCheckInstrParams c instr labelRefs p = Inr res"
proof -
  let ?root = "InstrDefs p ! unat (ASMDefIndex instr)"
  have gr: "typeGuarded False ?root" and rr: "rootComplete ?root"
    using g r idx by (simp_all add: list_all_length)
  show ?thesis
  proof (cases "Instruction.Params instr")
    case Nil
    then show ?thesis
      using idx rr unfolding typeCheckInstrParams_def rootComplete_def
      by (auto simp: Let_def)
  next
    case (Cons a as)
    let ?w0 = "\<lparr> nextNode = None, astNode = a, typeRef = None, error = False, refs = labelRefs, parser = p \<rparr>"
    obtain res where wk: "walkParams c ?root (a # as) ?w0 = Inr res"
      using walkParams_no_fault [OF gr, of ?w0 c "a # as"] by auto
    obtain pl params1 w where res: "res = (pl, params1, w)"
      by (cases res)
    show ?thesis
    proof (cases pl)
      case None
      then show ?thesis
        using idx Cons wk res unfolding typeCheckInstrParams_def
        by (auto simp add: Let_def andThen_def simp del: walkParams.simps)
    next
      case (Some l)
      have "OpcodeVariants l = [] \<or> typeRef w \<noteq> None"
        using walkParams_variants [OF wk [unfolded res]] gr Some by auto
      then obtain opc where "findVariant (OpcodeVariants l) (typeRef w) 0 = Inr opc"
        using findVariant_no_fault by blast
      then show ?thesis
        using idx Cons wk res Some unfolding typeCheckInstrParams_def
        by (auto simp add: Let_def andThen_def simp del: walkParams.simps)
    qed
  qed
qed

lemma typeCheckInstrParams_Inl_OutOfBounds:
  "length (InstrDefs p) \<le> unat (ASMDefIndex instr) \<Longrightarrow> typeCheckInstrParams c instr labelRefs p = Inl OutOfBounds"
  unfolding typeCheckInstrParams_def by simp

lemma built_wellSeparated: "list_all wellSeparated (buildInstrDefs c)"
  by (simp add: buildInstrDefs_def INSTR_ASM_DEFS_def buildInstrDefNode_def)

lemma built_typeGuarded: "list_all (typeGuarded False) (buildInstrDefs c)"
  by (simp add: buildInstrDefs_def INSTR_ASM_DEFS_def buildInstrDefNode_def)

lemma built_rootComplete: "list_all rootComplete (buildInstrDefs c)"
  by (simp add: buildInstrDefs_def INSTR_ASM_DEFS_def buildInstrDefNode_def rootComplete_def)

lemma table_typeBeforeNumber: "list_all (list_all typeBeforeNumber) (INSTR_ASM_DEFS c)"
  by (simp add: INSTR_ASM_DEFS_def typeBeforeNumber_def)

section \<open>Evaluation on the sample program\<close>

lemma length_buildInstrDefs: "length (buildInstrDefs c) = 54"
  by (simp add: buildInstrDefs_def INSTR_ASM_DEFS_def)

lemma built_push:
  "buildInstrDefs c ! Suc 0 =
     InstrDefNode INT_TYPE None
      [InstrDefNode INT_TYPE None
        [InstrDefNode INT_NUM
           (Some (sig 0x01 INSTR_FLAG_TYPE_VARIANTS [INT_TYPE, INT_NUM]
                    [tv (UVM_TYPE_I8 c) 0x01, tv (UVM_TYPE_I16 c) 0x02,
                     tv (UVM_TYPE_I32 c) 0x03, tv (UVM_TYPE_I64 c) 0x04])) [],
         InstrDefNode INT_REG (Some (sig 0x05 INSTR_FLAG_ENCODE_TYPE [INT_TYPE, INT_REG] [])) []]]"
  by (simp add: buildInstrDefs_def INSTR_ASM_DEFS_def buildInstrDefNode_def)

lemma built_exit:
  "buildInstrDefs c ! 9 = InstrDefNode INT_TYPE (Some (sig 0x50 0 [] [])) []"
  by (simp add: buildInstrDefs_def INSTR_ASM_DEFS_def buildInstrDefNode_def)

lemma ex_exit_eval:
  "typeCheckInstrParams c ex_exit [] (ex_parser c) =
     Inr (True, ex_exit\<lparr> Instruction.Opcode := 0x50, EncodingFlags := 0 \<rparr>, [], ex_parser c)"
  by (simp add: typeCheckInstrParams_def ex_exit_def ex_parser_def new_Parser_def new_Instruction_def
      length_buildInstrDefs built_exit)

lemma ex_push_eval:
  assumes "uvm_distinct c"
  shows "typeCheckInstrParams c (ex_push c) [] (ex_parser c) =
     Inr (True, (ex_push c)\<lparr> Instruction.Params := [TypeInfoNode (new_TypeInfo 22 3 3 10 (UVM_TYPE_I32 c)),
                              IntNode ((new_ASTInt 26 2 3 14 42 False)\<lparr> ASTInt.DataType := UVM_TYPE_I32 c \<rparr>)],
                 Instruction.Opcode := 0x03, EncodingFlags := INSTR_FLAG_TYPE_VARIANTS \<rparr>, [], ex_parser c)"
  by (simp add: typeCheckInstrParams_def ex_push_def ex_parser_def new_Parser_def new_Instruction_def
      new_TypeInfo_def new_ASTInt_def length_buildInstrDefs built_push andThen_def matchChild_def
      checkIntWidth_cases magnitude_def uvm_distinct_neq [OF assms]
      INSTR_FLAG_TYPE_VARIANTS_def INSTR_FLAG_ENCODE_TYPE_def)

section \<open>The pass over the whole file\<close>

lemma reported_refl [simp]: "reported e p e p"
  by (simp add: reported_def)

lemma reported_trans: "reported e p e1 p1 \<Longrightarrow> reported e1 p1 e2 p2 \<Longrightarrow> reported e p e2 p2"
  by (auto simp: reported_def)

lemma reported_printError [simp]: "reported e p True (printError a b r l m p)"
  by (simp add: reported_def)

lemma reported_Console_cong:
  "Console q = Console p \<Longrightarrow> Console q1 = Console p1 \<Longrightarrow> reported e p e1 p1 = reported e q e1 q1"
  by (simp add: reported_def)

subsection \<open>typeCheckVars\<close>

lemma same_tables_refl [simp]: "same_tables p p"
  by (simp add: same_tables_def)

lemma same_tables_printError [simp]: "same_tables p (printError a b r l m q) = same_tables p q"
  by (simp add: same_tables_def printError_def)

lemma same_tables_VarDecls [simp]: "same_tables p (q\<lparr> VarDecls := v \<rparr>) = same_tables p q"
  by (simp add: same_tables_def)

lemma VarDecls_printError [simp]: "VarDecls (printError a b r l m p) = VarDecls p"
  by (simp add: printError_def)

lemma LabelDefs_printError [simp]: "LabelDefs (printError a b r l m p) = LabelDefs p"
  by (simp add: printError_def)

lemma typeCheckVarsLoop_props:
  "typeCheckVarsLoop c st body valid p = Inr (valid1, body1, p1) \<Longrightarrow>
   reported (\<not> valid) p (\<not> valid1) p1 \<and> same_tables p p1
   \<and> map (\<lambda>v. Identifier.Name (ASTVariable.Id v)) (variablesOf body1)
       = map (\<lambda>v. Identifier.Name (ASTVariable.Id v)) (variablesOf body)
   \<and> set (map (\<lambda>d. Identifier.Name (VarDeclaration.Id d)) (VarDecls p1))
       \<subseteq> set (map (\<lambda>d. Identifier.Name (VarDeclaration.Id d)) (VarDecls p))
         \<union> set (map (\<lambda>v. Identifier.Name (ASTVariable.Id v)) (variablesOf body))"
proof (induction c st body valid p arbitrary: valid1 body1 p1 rule: typeCheckVarsLoop.induct)
  case (1 c secType valid p)
  then show ?case by simp
next
  case (2 c secType var rest valid p)
  show ?case
  proof (cases "list_ex (\<lambda>varDecl. Identifier.Name (VarDeclaration.Id varDecl) = Identifier.Name (ASTVariable.Id var)) (VarDecls p)")
    case True
    let ?p = "printError (ASTNode.Index var) (ASTNode.Size var) (ASTNode.LineRow var)
                      (ASTNode.LineCol var) ''Variable redefiniton'' p"
    from "2.prems" True obtain rest1 where
      r: "typeCheckVarsLoop c secType rest False ?p = Inr (valid1, rest1, p1)"
      and b: "body1 = VariableNode var # rest1"
      by (auto simp: andThen_Inr_iff)
    have ih: "reported True ?p (\<not> valid1) p1 \<and> same_tables ?p p1
       \<and> map (\<lambda>v. Identifier.Name (ASTVariable.Id v)) (variablesOf rest1)
           = map (\<lambda>v. Identifier.Name (ASTVariable.Id v)) (variablesOf rest)
       \<and> set (map (\<lambda>d. Identifier.Name (VarDeclaration.Id d)) (VarDecls p1))
           \<subseteq> set (map (\<lambda>d. Identifier.Name (VarDeclaration.Id d)) (VarDecls ?p))
             \<union> set (map (\<lambda>v. Identifier.Name (ASTVariable.Id v)) (variablesOf rest))"
      using "2.IH"(1) [OF True r] by simp
    have "reported (\<not> valid) p True ?p" by simp
    then have "reported (\<not> valid) p (\<not> valid1) p1"
      using ih reported_trans by blast
    moreover have "same_tables p p1"
      using ih by (simp add: same_tables_def printError_def)
    ultimately show ?thesis
      using ih b by auto
  next
    case False
    let ?d = "\<lparr> VarDeclaration.Id = ASTVariable.Id var,
                        SecPerm = (case secType of
                                     STATIC \<Rightarrow> SEC_PERM_READ c
                                   | GLOBAL \<Rightarrow> SEC_PERM_READ c AND SEC_PERM_WRITE c
                                   | CODE \<Rightarrow> SEC_PERM_READ c AND SEC_PERM_EXECUTE c) \<rparr>"
    let ?p = "p\<lparr> VarDecls := VarDecls p @ [?d] \<rparr>"
    let ?v = "var\<lparr> VarDeclIndex := of_nat (length (VarDecls p)) \<rparr>"
    from "2.prems" False obtain rest1 where
      r: "typeCheckVarsLoop c secType rest valid ?p = Inr (valid1, rest1, p1)"
      and b: "body1 = VariableNode ?v # rest1"
      by (auto simp: andThen_Inr_iff Let_def)
    have ih: "reported (\<not> valid) ?p (\<not> valid1) p1 \<and> same_tables ?p p1
       \<and> map (\<lambda>v. Identifier.Name (ASTVariable.Id v)) (variablesOf rest1)
           = map (\<lambda>v. Identifier.Name (ASTVariable.Id v)) (variablesOf rest)
       \<and> set (map (\<lambda>d. Identifier.Name (VarDeclaration.Id d)) (VarDecls p1))
           \<subseteq> set (map (\<lambda>d. Identifier.Name (VarDeclaration.Id d)) (VarDecls ?p))
             \<union> set (map (\<lambda>v. Identifier.Name (ASTVariable.Id v)) (variablesOf rest))"
      using "2.IH"(2) [OF False refl refl r] by simp
    have "reported (\<not> valid) p (\<not> valid1) p1"
      using ih by (simp add: reported_def)
    moreover have "same_tables p p1"
      using ih by (simp add: same_tables_def)
    ultimately show ?thesis
      using ih b by auto
  qed
qed simp_all

lemma typeCheckVars_props:
  assumes "typeCheckVars c sec p = Inr (valid1, sec1, p1)"
  shows "reported False p (\<not> valid1) p1 \<and> same_tables p p1
   \<and> map (\<lambda>v. Identifier.Name (ASTVariable.Id v)) (variablesOf (Body sec1))
       = map (\<lambda>v. Identifier.Name (ASTVariable.Id v)) (variablesOf (Body sec))
   \<and> set (map (\<lambda>d. Identifier.Name (VarDeclaration.Id d)) (VarDecls p1))
       \<subseteq> set (map (\<lambda>d. Identifier.Name (VarDeclaration.Id d)) (VarDecls p))
         \<union> set (map (\<lambda>v. Identifier.Name (ASTVariable.Id v)) (variablesOf (Body sec)))"
proof -
  from assms obtain body1 where
    l: "typeCheckVarsLoop c (SecType sec) (Body sec) True p = Inr (valid1, body1, p1)"
    and s: "sec1 = sec\<lparr> Body := body1 \<rparr>"
    unfolding typeCheckVars_def by (auto simp: andThen_Inr_iff)
  show ?thesis
    using typeCheckVarsLoop_props [OF l] s by simp
qed

lemma typeCheckSection_props:
  assumes "typeCheckSection c sec e p = Inr (sec1, e1, p1)"
  shows "reported e p e1 p1 \<and> same_tables p p1
   \<and> map (\<lambda>v. Identifier.Name (ASTVariable.Id v)) (variablesOf (bodyOf sec1))
       = map (\<lambda>v. Identifier.Name (ASTVariable.Id v)) (variablesOf (bodyOf sec))
   \<and> set (map (\<lambda>d. Identifier.Name (VarDeclaration.Id d)) (VarDecls p1))
       \<subseteq> set (map (\<lambda>d. Identifier.Name (VarDeclaration.Id d)) (VarDecls p))
         \<union> set (map (\<lambda>v. Identifier.Name (ASTVariable.Id v)) (variablesOf (bodyOf sec)))"
proof (cases sec)
  case None
  then have "sec1 = None" "e1 = e" "p1 = p"
    using assms unfolding typeCheckSection_def by simp_all
  then show ?thesis using None by simp
next
  case (Some s)
  with assms obtain valid s1 where
    v: "typeCheckVars c s p = Inr (valid, s1, p1)" and r: "sec1 = Some s1"
    and e: "e1 = (if \<not> valid then True else e)"
    unfolding typeCheckSection_def by (simp add: andThen_Inr_iff) blast
  have "reported e p e1 p1"
    using typeCheckVars_props [OF v] e by (auto simp: reported_def)
  then show ?thesis
    using typeCheckVars_props [OF v] r Some by (simp add: bodyOf_def)
qed

subsection \<open>The loop over the code section\<close>

lemma console_ext_fields:
  assumes "console_ext p p1"
  shows "InstrDefs p1 = InstrDefs p" "LabelDefs p1 = LabelDefs p" "VarDecls p1 = VarDecls p"
    "FileNode p1 = FileNode p" "LabelRefs p1 = LabelRefs p"
  using assms by (auto simp: console_ext_def)

lemma varRefsOfParams_erase:
  "map erase as1 = map erase as \<Longrightarrow> varRefsOfParams as1 = varRefsOfParams as"
proof (induction as arbitrary: as1)
  case Nil
  then show ?case by simp
next
  case (Cons a as)
  then obtain a1 as2 where s: "as1 = a1 # as2" "erase a1 = erase a" "map erase as2 = map erase as"
    by (cases as1) auto
  have "varRefsOfParams as2 = varRefsOfParams as"
    by (rule Cons.IH [OF s(3)])
  then show ?case
    using s(1,2) by (cases a; cases a1) (simp_all split: option.splits)
qed

lemma typeCheckInstrParams_erase:
  assumes "typeCheckInstrParams c instr labelRefs p = Inr (ok, instr1, refs1, p1)"
  shows "map erase (Instruction.Params instr1) = map erase (Instruction.Params instr)"
  using assms
proof (cases rule: typeCheckInstrParams_elim)
  case (NoMatch a as params1 w)
  then show ?thesis using walkParams_erase [OF NoMatch(3)] by simp
next
  case (RangeErr a as pl params1 w)
  then show ?thesis using walkParams_erase [OF RangeErr(3)] by simp
next
  case (Variant a as pl params1 w opcode)
  then show ?thesis using walkParams_erase [OF Variant(3)] by simp
next
  case (Plain a as pl params1 w)
  then show ?thesis using walkParams_erase [OF Plain(3)] by simp
qed simp_all

lemma typeCheckInstrParams_reported:
  assumes "typeCheckInstrParams c instr labelRefs p = Inr (ok, instr1, refs1, p1)"
    and "list_all wellSeparated (InstrDefs p)"
  shows "reported e p (if \<not> ok then True else e) p1"
proof (cases ok)
  case True
  with assms(1) have "typeCheckInstrParams c instr labelRefs p = Inr (True, instr1, refs1, p1)"
    by simp
  from typeCheckInstrParams_success_quiet [OF this assms(2)]
  show ?thesis using True by simp
next
  case False
  with assms(1) have "typeCheckInstrParams c instr labelRefs p = Inr (False, instr1, refs1, p1)"
    by simp
  from typeCheckInstrParams_failure_reported [OF this]
  show ?thesis using False by (simp add: reported_def)
qed

lemma typeCheckBody_Label:
  "(typeCheckBody c (LeafNode (LabelDefNode label) # rest) e lrefs p = Inr (body1, e1, refs1, p1)) =
   (\<exists>rest1. body1 = LeafNode (LabelDefNode label) # rest1 \<and>
      typeCheckBody c rest
        (if list_ex (\<lambda>d. LabelDef.Name (Def d) = LabelDef.Name label) (LabelDefs p) then True else e)
        lrefs (afterLabel label p) = Inr (rest1, e1, refs1, p1))"
  by (auto simp: andThen_Inr_iff Let_def afterLabel_def)

lemma afterLabel_fields [simp]:
  "InstrDefs (afterLabel label p) = InstrDefs p"
  "VarDecls (afterLabel label p) = VarDecls p"
  "FileNode (afterLabel label p) = FileNode p"
  "LabelRefs (afterLabel label p) = LabelRefs p"
  "LabelDefs (afterLabel label p) = LabelDefs p @ [lookupOf label]"
  by (simp_all add: afterLabel_def Let_def printError_def lookupOf_def)

lemma afterLabel_reported:
  "reported e p (if list_ex (\<lambda>d. LabelDef.Name (Def d) = LabelDef.Name label) (LabelDefs p) then True else e)
     (afterLabel label p)"
  by (simp add: afterLabel_def Let_def printError_def reported_def)

lemma typeCheckBody_Instr:
  "(typeCheckBody c (InstructionNode instr # rest) e lrefs p = Inr (body1, e1, refs1, p1)) =
   (\<exists>ok instr1 refs0 p0 rest1. typeCheckInstrParams c instr lrefs p = Inr (ok, instr1, refs0, p0) \<and>
      typeCheckBody c rest (if \<not> ok then True else e) refs0 p0 = Inr (rest1, e1, refs1, p1) \<and>
      body1 = InstructionNode instr1 # rest1)"
  by (auto simp: andThen_Inr_iff)

lemma typeCheckBody_tables:
  "typeCheckBody c body e lrefs p = Inr (body1, e1, refs1, p1) \<Longrightarrow>
   InstrDefs p1 = InstrDefs p \<and> VarDecls p1 = VarDecls p \<and> FileNode p1 = FileNode p
   \<and> LabelRefs p1 = LabelRefs p
   \<and> LabelDefs p1 = LabelDefs p @ map lookupOf (labelDefsOf body)
   \<and> labelDefsOf body1 = labelDefsOf body
   \<and> varRefsOf body1 = varRefsOf body"
proof (induction body arbitrary: e lrefs p body1 e1 refs1 p1)
  case Nil
  then show ?case by simp
next
  case (Cons node rest)
  show ?case
  proof (cases node)
    case (InstructionNode instr)
    from Cons.prems obtain ok instr1 refs0 p0 rest1 where
      t: "typeCheckInstrParams c instr lrefs p = Inr (ok, instr1, refs0, p0)"
      and r: "typeCheckBody c rest (if \<not> ok then True else e) refs0 p0 = Inr (rest1, e1, refs1, p1)"
      and b: "body1 = InstructionNode instr1 # rest1"
      unfolding InstructionNode typeCheckBody_Instr by blast
    have f: "InstrDefs p0 = InstrDefs p" "LabelDefs p0 = LabelDefs p" "VarDecls p0 = VarDecls p"
      "FileNode p0 = FileNode p" "LabelRefs p0 = LabelRefs p"
      using console_ext_fields [OF typeCheckInstrParams_parser [OF t]] by simp_all
    have v: "varRefsOfParams (Instruction.Params instr1) = varRefsOfParams (Instruction.Params instr)"
      using varRefsOfParams_erase [OF typeCheckInstrParams_erase [OF t]] .
    show ?thesis
      using Cons.IH [OF r] b f v InstructionNode by simp
  next
    case (VariableNode var)
    from Cons.prems obtain rest1 where
      r: "typeCheckBody c rest e lrefs p = Inr (rest1, e1, refs1, p1)" and b: "body1 = node # rest1"
      unfolding VariableNode by (auto simp: andThen_Inr_iff)
    show ?thesis
      using Cons.IH [OF r] b VariableNode by simp
  next
    case (LeafNode a)
    show ?thesis
    proof (cases a)
      case (LabelDefNode label)
      from Cons.prems obtain rest1 where b: "body1 = LeafNode (LabelDefNode label) # rest1"
        and r: "typeCheckBody c rest
          (if list_ex (\<lambda>d. LabelDef.Name (Def d) = LabelDef.Name label) (LabelDefs p) then True else e)
          lrefs (afterLabel label p) = Inr (rest1, e1, refs1, p1)"
        unfolding LeafNode LabelDefNode typeCheckBody_Label by blast
      show ?thesis
        using Cons.IH [OF r] b LeafNode LabelDefNode by simp
    qed (use Cons.prems Cons.IH LeafNode in \<open>auto simp: andThen_Inr_iff\<close>)
  qed
qed

lemma typeCheckBody_reported:
  "typeCheckBody c body e lrefs p = Inr (body1, e1, refs1, p1) \<Longrightarrow>
   list_all wellSeparated (InstrDefs p) \<Longrightarrow> reported e p e1 p1"
proof (induction body arbitrary: e lrefs p body1 e1 refs1 p1)
  case Nil
  then show ?case by simp
next
  case (Cons node rest)
  show ?case
  proof (cases node)
    case (InstructionNode instr)
    from Cons.prems(1) obtain ok instr1 refs0 p0 rest1 where
      t: "typeCheckInstrParams c instr lrefs p = Inr (ok, instr1, refs0, p0)"
      and r: "typeCheckBody c rest (if \<not> ok then True else e) refs0 p0 = Inr (rest1, e1, refs1, p1)"
      unfolding InstructionNode typeCheckBody_Instr by blast
    have f: "InstrDefs p0 = InstrDefs p"
      using console_ext_fields [OF typeCheckInstrParams_parser [OF t]] by simp
    have "reported (if \<not> ok then True else e) p0 e1 p1"
      using Cons.IH [OF r] Cons.prems(2) f by simp
    then show ?thesis
      using reported_trans [OF typeCheckInstrParams_reported [OF t Cons.prems(2)]] by blast
  next
    case (VariableNode var)
    from Cons.prems(1) obtain rest1 where
      r: "typeCheckBody c rest e lrefs p = Inr (rest1, e1, refs1, p1)"
      unfolding VariableNode by (auto simp: andThen_Inr_iff)
    show ?thesis
      using Cons.IH [OF r Cons.prems(2)] .
  next
    case (LeafNode a)
    show ?thesis
    proof (cases a)
      case (LabelDefNode label)
      from Cons.prems(1) obtain rest1 where
        r: "typeCheckBody c rest
          (if list_ex (\<lambda>d. LabelDef.Name (Def d) = LabelDef.Name label) (LabelDefs p) then True else e)
          lrefs (afterLabel label p) = Inr (rest1, e1, refs1, p1)"
        unfolding LeafNode LabelDefNode typeCheckBody_Label by blast
      have "reported (if list_ex (\<lambda>d. LabelDef.Name (Def d) = LabelDef.Name label) (LabelDefs p) then True else e)
              (afterLabel label p) e1 p1"
        using Cons.IH [OF r] Cons.prems(2) by simp
      then show ?thesis
        using reported_trans [OF afterLabel_reported] by blast
    qed (use Cons.prems Cons.IH LeafNode in \<open>auto simp: andThen_Inr_iff\<close>)
  qed
qed

lemma checkLabelRefs_props:
  "checkLabelRefs lrefs e p = (e1, p1) \<Longrightarrow>
   console_ext p p1 \<and> reported e p e1 p1 \<and>
   (\<not> e1 \<longrightarrow> (\<forall>r \<in> set lrefs. Identifier.Name r \<in> set (map (\<lambda>d. LabelDef.Name (Def d)) (LabelDefs p))))"
proof (induction lrefs arbitrary: e p)
  case Nil
  then show ?case by simp
next
  case (Cons labelRef rest)
  show ?case
  proof (cases "list_ex (\<lambda>d. Identifier.Name labelRef = LabelDef.Name (Def d)) (LabelDefs p)")
    case True
    then have "checkLabelRefs rest e p = (e1, p1)"
      using Cons.prems by simp
    moreover have "Identifier.Name labelRef \<in> set (map (\<lambda>d. LabelDef.Name (Def d)) (LabelDefs p))"
      using True by (force simp: list_ex_iff)
    ultimately show ?thesis
      using Cons.IH [of e p] by simp
  next
    case False
    let ?p = "printError (ASTNode.Index labelRef) (of_nat (length (Identifier.Name labelRef)))
                (ASTNode.LineRow labelRef) (ASTNode.LineCol labelRef) ''Unresolved label'' p"
    have r: "checkLabelRefs rest True ?p = (e1, p1)"
      using Cons.prems False by simp
    have ih: "console_ext ?p p1" "reported True ?p e1 p1"
      using Cons.IH [OF r] by simp_all
    have "console_ext p p1"
      using console_ext_trans [OF console_ext_printError ih(1)] .
    moreover have "reported e p e1 p1"
      using reported_trans [OF reported_printError ih(2)] .
    moreover have "e1"
      using ih(2) by (simp add: reported_def)
    ultimately show ?thesis by simp
  qed
qed

lemma checkVarRefsParams_props:
  "checkVarRefsParams as valid p = (valid1, p1) \<Longrightarrow>
   console_ext p p1 \<and> reported (\<not> valid) p (\<not> valid1) p1 \<and>
   (valid1 \<longrightarrow> (\<forall>v \<in> set (varRefsOfParams as).
       Identifier.Name v \<in> set (map (\<lambda>d. Identifier.Name (VarDeclaration.Id d)) (VarDecls p))))"
proof (induction as valid p rule: checkVarRefsParams.induct)
  case (1 valid p)
  then show ?case by simp
next
  case (2 ro rest valid p)
  show ?case
  proof (cases "Var ro")
    case None
    then show ?thesis using 2 by simp
  next
    case (Some v)
    show ?thesis
    proof (cases "list_ex (\<lambda>decl. Identifier.Name (VarDeclaration.Id decl) = Identifier.Name v) (VarDecls p)")
      case True
      then have "checkVarRefsParams rest valid p = (valid1, p1)"
        using "2.prems" Some by simp
      moreover have "Identifier.Name v \<in> set (map (\<lambda>d. Identifier.Name (VarDeclaration.Id d)) (VarDecls p))"
        using True by (force simp: list_ex_iff)
      ultimately show ?thesis
        using "2.IH"(2) [OF Some True] Some by simp
    next
      case False
      let ?p = "printError (ASTNode.Index v) (ASTNode.Size v) (ASTNode.LineRow v) (ASTNode.LineCol v)
                    ''Variable reference does not exist'' p"
      have r: "checkVarRefsParams rest False ?p = (valid1, p1)"
        using "2.prems" Some False by simp
      have ih: "console_ext ?p p1" "reported True ?p (\<not> valid1) p1"
        using "2.IH"(3) [OF Some False r] by simp_all
      have "console_ext p p1"
        using console_ext_trans [OF console_ext_printError ih(1)] .
      moreover have "reported (\<not> valid) p (\<not> valid1) p1"
        using reported_trans [OF reported_printError ih(2)] .
      moreover have "\<not> valid1"
        using ih(2) by (simp add: reported_def)
      ultimately show ?thesis by simp
    qed
  qed
qed simp_all

lemma checkVarRefsBody_props:
  "checkVarRefsBody body valid p = (valid1, p1) \<Longrightarrow>
   console_ext p p1 \<and> reported (\<not> valid) p (\<not> valid1) p1 \<and>
   (valid1 \<longrightarrow> (\<forall>v \<in> set (varRefsOf body).
       Identifier.Name v \<in> set (map (\<lambda>d. Identifier.Name (VarDeclaration.Id d)) (VarDecls p))))"
proof (induction body valid p rule: checkVarRefsBody.induct)
  case (1 valid p)
  then show ?case by simp
next
  case (2 instr rest valid p)
  obtain valid0 p0 where a: "checkVarRefsParams (Instruction.Params instr) valid p = (valid0, p0)"
    by (cases "checkVarRefsParams (Instruction.Params instr) valid p")
  then have b: "checkVarRefsBody rest valid0 p0 = (valid1, p1)"
    using "2.prems" by simp
  have pa: "console_ext p p0" "reported (\<not> valid) p (\<not> valid0) p0"
    "valid0 \<longrightarrow> (\<forall>v \<in> set (varRefsOfParams (Instruction.Params instr)).
       Identifier.Name v \<in> set (map (\<lambda>d. Identifier.Name (VarDeclaration.Id d)) (VarDecls p)))"
    using checkVarRefsParams_props [OF a] by simp_all
  have pb: "console_ext p0 p1" "reported (\<not> valid0) p0 (\<not> valid1) p1"
    "valid1 \<longrightarrow> (\<forall>v \<in> set (varRefsOf rest).
       Identifier.Name v \<in> set (map (\<lambda>d. Identifier.Name (VarDeclaration.Id d)) (VarDecls p0)))"
    using "2.IH" [OF a [symmetric] b] by simp_all
  have v: "VarDecls p0 = VarDecls p"
    using console_ext_fields [OF pa(1)] by simp
  have "valid1 \<longrightarrow> valid0"
    using pb(2) by (auto simp: reported_def)
  then show ?case
    using console_ext_trans [OF pa(1) pb(1)] reported_trans [OF pa(2) pb(2)] pa(3) pb(3) v
    by auto
qed simp_all

lemma typeCheck_elim [consumes 1, case_names MissingLabel MissingEntry Full]:
  assumes run: "typeCheck c p = Inr (ok, pf)"
  obtains
    (MissingLabel) secStatic e1 p1 secGlobal e2 p2 code where
      "typeCheckSection c (SecStatic (FileNode p)) False p = Inr (secStatic, e1, p1)"
      "typeCheckSection c (SecGlobal (FileNode p)) e1 p1 = Inr (secGlobal, e2, p2)"
      "SecCode (FileNode p2) = Some code" "Body code = []" "\<not> ok"
      "pf = printLine ''[Type Checker] Missing main label''
              (p2\<lparr> FileNode := (FileNode p2)\<lparr> SecStatic := secStatic, SecGlobal := secGlobal \<rparr> \<rparr>)"
  | (MissingEntry) secStatic e1 p1 secGlobal e2 p2 code where
      "typeCheckSection c (SecStatic (FileNode p)) False p = Inr (secStatic, e1, p1)"
      "typeCheckSection c (SecGlobal (FileNode p)) e1 p1 = Inr (secGlobal, e2, p2)"
      "SecCode (FileNode p2) = Some code" "Body code \<noteq> []" "\<not> findMainEntry (Body code)" "\<not> ok"
      "pf = printLine ''[Type Checker] Missing main entry''
              (p2\<lparr> FileNode := (FileNode p2)\<lparr> SecStatic := secStatic, SecGlobal := secGlobal \<rparr> \<rparr>)"
  | (Full) secStatic e1 p1 secGlobal e2 p2 code body e3 labelRefs p4 e4 p6 valid where
      "typeCheckSection c (SecStatic (FileNode p)) False p = Inr (secStatic, e1, p1)"
      "typeCheckSection c (SecGlobal (FileNode p)) e1 p1 = Inr (secGlobal, e2, p2)"
      "SecCode (FileNode p2) = Some code" "Body code \<noteq> []" "findMainEntry (Body code)"
      "typeCheckBody c (Body code) e2 []
         (p2\<lparr> FileNode := (FileNode p2)\<lparr> SecStatic := secStatic, SecGlobal := secGlobal \<rparr> \<rparr>)
       = Inr (body, e3, labelRefs, p4)"
      "checkLabelRefs labelRefs e3
         (p4\<lparr> FileNode := (FileNode p4)\<lparr> SecCode := Some (code\<lparr> Body := body \<rparr>) \<rparr>,
              LabelRefs := labelRefs \<rparr>) = (e4, p6)"
      "SecCode (FileNode p6) = Some (code\<lparr> Body := body \<rparr>)"
      "checkVarRefsBody body True p6 = (valid, pf)"
      "ok = (\<not> (if \<not> valid then True else e4))"
proof -
  from run obtain secStatic e1 p1 where
    s1: "typeCheckSection c (SecStatic (FileNode p)) False p = Inr (secStatic, e1, p1)"
    and r1: "andThen (typeCheckSection c (SecGlobal (FileNode p)) e1 p1)
       (\<lambda>(secGlobal, e2, p2).
     let p3 = p2\<lparr> FileNode := (FileNode p2)\<lparr> SecStatic := secStatic, SecGlobal := secGlobal \<rparr> \<rparr> in
     case SecCode (FileNode p3) of
       None \<Rightarrow> Inl NullPointer
     | Some code \<Rightarrow>
         if Body code = [] then Inr (False, printLine ''[Type Checker] Missing main label'' p3)
         else if \<not> findMainEntry (Body code)
         then Inr (False, printLine ''[Type Checker] Missing main entry'' p3)
         else
           andThen (typeCheckBody c (Body code) e2 [] p3)
             (\<lambda>(body, e3, labelRefs, p4).
                let p5 = p4\<lparr> FileNode := (FileNode p4)\<lparr> SecCode := Some (code\<lparr> Body := body \<rparr>) \<rparr>,
                             LabelRefs := labelRefs \<rparr>
                in case checkLabelRefs labelRefs e3 p5 of
                     (e4, p6) \<Rightarrow>
                       andThen (checkVarRefs p6)
                         (\<lambda>(valid, p7). Inr (\<not> (if \<not> valid then True else e4), p7)))) = Inr (ok, pf)"
    unfolding typeCheck_def andThen_Inr_iff [of "typeCheckSection c (SecStatic (FileNode p)) False p"]
    by auto
  from r1 obtain secGlobal e2 p2 where
    s2: "typeCheckSection c (SecGlobal (FileNode p)) e1 p1 = Inr (secGlobal, e2, p2)"
    and r2: "(let p3 = p2\<lparr> FileNode := (FileNode p2)\<lparr> SecStatic := secStatic, SecGlobal := secGlobal \<rparr> \<rparr> in
     case SecCode (FileNode p3) of
       None \<Rightarrow> Inl NullPointer
     | Some code \<Rightarrow>
         if Body code = [] then Inr (False, printLine ''[Type Checker] Missing main label'' p3)
         else if \<not> findMainEntry (Body code)
         then Inr (False, printLine ''[Type Checker] Missing main entry'' p3)
         else
           andThen (typeCheckBody c (Body code) e2 [] p3)
             (\<lambda>(body, e3, labelRefs, p4).
                let p5 = p4\<lparr> FileNode := (FileNode p4)\<lparr> SecCode := Some (code\<lparr> Body := body \<rparr>) \<rparr>,
                             LabelRefs := labelRefs \<rparr>
                in case checkLabelRefs labelRefs e3 p5 of
                     (e4, p6) \<Rightarrow>
                       andThen (checkVarRefs p6)
                         (\<lambda>(valid, p7). Inr (\<not> (if \<not> valid then True else e4), p7)))) = Inr (ok, pf)"
    unfolding andThen_Inr_iff [of "typeCheckSection c (SecGlobal (FileNode p)) e1 p1"]
    by auto
  let ?p3 = "p2\<lparr> FileNode := (FileNode p2)\<lparr> SecStatic := secStatic, SecGlobal := secGlobal \<rparr> \<rparr>"
  from r2 obtain code where
    sc: "SecCode (FileNode p2) = Some code"
    and r3: "(if Body code = [] then Inr (False, printLine ''[Type Checker] Missing main label'' ?p3)
         else if \<not> findMainEntry (Body code)
         then Inr (False, printLine ''[Type Checker] Missing main entry'' ?p3)
         else
           andThen (typeCheckBody c (Body code) e2 [] ?p3)
             (\<lambda>(body, e3, labelRefs, p4).
                let p5 = p4\<lparr> FileNode := (FileNode p4)\<lparr> SecCode := Some (code\<lparr> Body := body \<rparr>) \<rparr>,
                             LabelRefs := labelRefs \<rparr>
                in case checkLabelRefs labelRefs e3 p5 of
                     (e4, p6) \<Rightarrow>
                       andThen (checkVarRefs p6)
                         (\<lambda>(valid, p7). Inr (\<not> (if \<not> valid then True else e4), p7)))) = Inr (ok, pf)"
    by (cases "SecCode (FileNode p2)") (simp_all add: Let_def)
  show thesis
  proof (cases "Body code = []")
    case True
    then have "\<not> ok" "pf = printLine ''[Type Checker] Missing main label'' ?p3"
      using r3 by auto
    then show ?thesis using MissingLabel [OF s1 s2 sc True] by blast
  next
    case ne: False
    show ?thesis
    proof (cases "findMainEntry (Body code)")
      case False
      then have "\<not> ok" "pf = printLine ''[Type Checker] Missing main entry'' ?p3"
        using r3 ne by auto
      then show ?thesis using MissingEntry [OF s1 s2 sc ne False] by blast
    next
      case True
      from r3 ne True obtain body e3 labelRefs p4 where
        tb: "typeCheckBody c (Body code) e2 [] ?p3 = Inr (body, e3, labelRefs, p4)"
        and r4: "(let p5 = p4\<lparr> FileNode := (FileNode p4)\<lparr> SecCode := Some (code\<lparr> Body := body \<rparr>) \<rparr>,
                             LabelRefs := labelRefs \<rparr>
                in case checkLabelRefs labelRefs e3 p5 of
                     (e4, p6) \<Rightarrow>
                       andThen (checkVarRefs p6)
                         (\<lambda>(valid, p7). Inr (\<not> (if \<not> valid then True else e4), p7))) = Inr (ok, pf)"
        by (auto simp: andThen_Inr_iff [of "typeCheckBody c (Body code) e2 [] ?p3"])
      let ?p5 = "p4\<lparr> FileNode := (FileNode p4)\<lparr> SecCode := Some (code\<lparr> Body := body \<rparr>) \<rparr>,
                             LabelRefs := labelRefs \<rparr>"
      obtain e4 p6 where cl: "checkLabelRefs labelRefs e3 ?p5 = (e4, p6)"
        by (cases "checkLabelRefs labelRefs e3 ?p5")
      have f6: "FileNode p6 = FileNode ?p5"
        using console_ext_fields [OF conjunct1 [OF checkLabelRefs_props [OF cl]]] by simp
      then have sc6: "SecCode (FileNode p6) = Some (code\<lparr> Body := body \<rparr>)"
        by simp
      from r4 cl have "andThen (checkVarRefs p6)
                         (\<lambda>(valid, p7). Inr (\<not> (if \<not> valid then True else e4), p7)) = Inr (ok, pf)"
        by (simp add: Let_def)
      then have "(case checkVarRefsBody body True p6 of
                   (valid, p7) \<Rightarrow> Inr (\<not> (if \<not> valid then True else e4), p7))
                 = (Inr (ok, pf) :: Fault + bool \<times> Parser)"
        using sc6 by (simp add: andThen_def checkVarRefs_def)
      then obtain valid where cv: "checkVarRefsBody body True p6 = (valid, pf)"
        and o: "ok = (\<not> (if \<not> valid then True else e4))"
        by (cases "checkVarRefsBody body True p6") auto
      show ?thesis
        using Full [OF s1 s2 sc ne True tb cl sc6 cv o] .
    qed
  qed
qed

lemma reported_join:
  "reported e p e1 p1 \<Longrightarrow> reported False p1 e2 p2 \<Longrightarrow> reported e p (e1 \<or> e2) p2"
  by (auto simp: reported_def)

lemma reported_printLine: "length (Console q) \<le> length (Console p) \<Longrightarrow> reported e q True (printLine m p)"
  by (simp add: reported_def printLine_def)

lemma typeCheck_reported:
  assumes run: "typeCheck c p = Inr (ok, pf)" and ws: "list_all wellSeparated (InstrDefs p)"
  shows "reported False p (\<not> ok) pf"
  using run
proof (cases rule: typeCheck_elim)
  case (MissingLabel secStatic e1 p1 secGlobal e2 p2 code)
  have "reported False p e2 p2"
    using reported_trans typeCheckSection_props [OF MissingLabel(1)] typeCheckSection_props [OF MissingLabel(2)]
    by blast
  then have "length (Console p) \<le> length (Console p2)"
    by (simp add: reported_def)
  then show ?thesis
    using MissingLabel(5,6) by (simp add: reported_def printLine_def)
next
  case (MissingEntry secStatic e1 p1 secGlobal e2 p2 code)
  have "reported False p e2 p2"
    using reported_trans typeCheckSection_props [OF MissingEntry(1)] typeCheckSection_props [OF MissingEntry(2)]
    by blast
  then have "length (Console p) \<le> length (Console p2)"
    by (simp add: reported_def)
  then show ?thesis
    using MissingEntry(6,7) by (simp add: reported_def printLine_def)
next
  case (Full secStatic e1 p1 secGlobal e2 p2 code body e3 labelRefs p4 e4 p6 valid)
  let ?p3 = "p2\<lparr> FileNode := (FileNode p2)\<lparr> SecStatic := secStatic, SecGlobal := secGlobal \<rparr> \<rparr>"
  let ?p5 = "p4\<lparr> FileNode := (FileNode p4)\<lparr> SecCode := Some (code\<lparr> Body := body \<rparr>) \<rparr>,
              LabelRefs := labelRefs \<rparr>"
  have s1: "reported False p e1 p1" "same_tables p p1"
    using typeCheckSection_props [OF Full(1)] by simp_all
  have s2: "reported e1 p1 e2 p2" "same_tables p1 p2"
    using typeCheckSection_props [OF Full(2)] by simp_all
  have r2: "reported False p e2 ?p3"
    using reported_trans [OF s1(1) s2(1)] by (simp add: reported_def)
  have "InstrDefs ?p3 = InstrDefs p"
    using s1(2) s2(2) by (simp add: same_tables_def)
  then have "list_all wellSeparated (InstrDefs ?p3)"
    using ws by simp
  from typeCheckBody_reported [OF Full(6) this]
  have r3: "reported e2 ?p3 e3 ?p5"
    by (simp add: reported_def)
  have r4: "reported e3 ?p5 e4 p6"
    using checkLabelRefs_props [OF Full(7)] by simp
  have r5: "reported False p6 (\<not> valid) pf"
    using checkVarRefsBody_props [OF Full(9)] by simp
  have "reported False p (e4 \<or> \<not> valid) pf"
    using reported_join [OF reported_trans [OF reported_trans [OF r2 r3] r4] r5] .
  moreover have "(\<not> ok) = (e4 \<or> \<not> valid)"
    using Full(10) by auto
  ultimately show ?thesis by simp
qed

lemma typeCheck_resolved:
  assumes run: "typeCheck c p = Inr (True, pf)" and l0: "LabelDefs p = []" and v0: "VarDecls p = []"
  shows "(\<forall>r \<in> set (LabelRefs pf).
            Identifier.Name r \<in> set (map LabelDef.Name (labelDefsOf (bodyOf (SecCode (FileNode pf))))))
       \<and> (\<forall>v \<in> set (varRefsOf (bodyOf (SecCode (FileNode pf)))).
            Identifier.Name v \<in> set (declaredNames (FileNode pf)))"
  using run
proof (cases rule: typeCheck_elim)
  case (Full secStatic e1 p1 secGlobal e2 p2 code body e3 labelRefs p4 e4 p6 valid)
  let ?p3 = "p2\<lparr> FileNode := (FileNode p2)\<lparr> SecStatic := secStatic, SecGlobal := secGlobal \<rparr> \<rparr>"
  let ?p5 = "p4\<lparr> FileNode := (FileNode p4)\<lparr> SecCode := Some (code\<lparr> Body := body \<rparr>) \<rparr>,
              LabelRefs := labelRefs \<rparr>"
  let ?vn = "\<lambda>b. map (\<lambda>v. Identifier.Name (ASTVariable.Id v)) (variablesOf b)"
  let ?dn = "\<lambda>q. set (map (\<lambda>d. Identifier.Name (VarDeclaration.Id d)) (VarDecls q))"
  have ok: "valid" "\<not> e4"
    using Full(10) by (auto split: if_splits)
  have s1: "same_tables p p1" "?vn (bodyOf secStatic) = ?vn (bodyOf (SecStatic (FileNode p)))"
    "?dn p1 \<subseteq> ?dn p \<union> set (?vn (bodyOf (SecStatic (FileNode p))))"
    using typeCheckSection_props [OF Full(1)] by simp_all
  have s2: "same_tables p1 p2" "?vn (bodyOf secGlobal) = ?vn (bodyOf (SecGlobal (FileNode p)))"
    "?dn p2 \<subseteq> ?dn p1 \<union> set (?vn (bodyOf (SecGlobal (FileNode p))))"
    using typeCheckSection_props [OF Full(2)] by simp_all
  have t: "VarDecls p4 = VarDecls ?p3" "FileNode p4 = FileNode ?p3"
    "LabelDefs p4 = LabelDefs ?p3 @ map lookupOf (labelDefsOf (Body code))"
    "labelDefsOf body = labelDefsOf (Body code)"
    using typeCheckBody_tables [OF Full(6)] by simp_all
  have c6: "console_ext ?p5 p6"
    using checkLabelRefs_props [OF Full(7)] by simp
  have c7: "console_ext p6 pf"
    using checkVarRefsBody_props [OF Full(9)] by simp
  have ff: "FileNode pf = FileNode ?p5" "LabelRefs pf = labelRefs" "VarDecls p6 = VarDecls p4"
    using console_ext_fields [OF c6] console_ext_fields [OF c7] by simp_all
  have ld: "LabelDefs ?p5 = map lookupOf (labelDefsOf body)"
    using t(3,4) s1(1) s2(1) l0 by (simp add: same_tables_def)
  have "\<forall>r \<in> set labelRefs. Identifier.Name r \<in> set (map (\<lambda>d. LabelDef.Name (Def d)) (LabelDefs ?p5))"
    using checkLabelRefs_props [OF Full(7)] ok(2) by blast
  then have A: "\<forall>r \<in> set (LabelRefs pf).
            Identifier.Name r \<in> set (map LabelDef.Name (labelDefsOf (bodyOf (SecCode (FileNode pf)))))"
    unfolding ld ff by (simp add: bodyOf_def lookupOf_def comp_def)
  have d1: "?dn p1 \<subseteq> set (?vn (bodyOf (SecStatic (FileNode p))))"
    using s1(3) v0 by simp
  have d2: "?dn p2 \<subseteq> set (?vn (bodyOf (SecStatic (FileNode p)))) \<union> set (?vn (bodyOf (SecGlobal (FileNode p))))"
    using s2(3) d1 by blast
  have "VarDecls p6 = VarDecls p2"
    using ff(3) t(1) by simp
  then have "?dn p6 \<subseteq> set (?vn (bodyOf (SecStatic (FileNode p)))) \<union> set (?vn (bodyOf (SecGlobal (FileNode p))))"
    using d2 by simp
  also have "\<dots> = set (declaredNames (FileNode pf))"
    using s1(2) s2(2) t(2) unfolding ff declaredNames_def by simp
  finally have dn: "?dn p6 \<subseteq> set (declaredNames (FileNode pf))" .
  have "\<forall>v \<in> set (varRefsOf body). Identifier.Name v \<in> ?dn p6"
    using checkVarRefsBody_props [OF Full(9)] ok(1) by blast
  then have B: "\<forall>v \<in> set (varRefsOf (bodyOf (SecCode (FileNode pf)))).
            Identifier.Name v \<in> set (declaredNames (FileNode pf))"
    using dn unfolding ff by (auto simp: bodyOf_def)
  show ?thesis using A B by blast
qed simp_all

lemma built_lea:
  "buildInstrDefs c ! 13 =
     InstrDefNode INT_TYPE None
      [InstrDefNode REG_OFFSET None
        [InstrDefNode INT_REG (Some (sig 0x10 0 [REG_OFFSET, INT_REG] [])) []]]"
  by (simp add: buildInstrDefs_def INSTR_ASM_DEFS_def buildInstrDefNode_def)

lemma built_jmp:
  "buildInstrDefs c ! 47 =
     InstrDefNode INT_TYPE None [InstrDefNode LABEL_ID (Some (sig 0xE1 0 [LABEL_ID] [])) []]"
  by (simp add: buildInstrDefs_def INSTR_ASM_DEFS_def buildInstrDefNode_def)

lemmas ex_defs = new_Parser_def new_ASTFileNode_def new_ASTSection_def new_LabelDef_def
  new_Instruction_def new_Identifier_def new_TypeInfo_def new_ASTInt_def new_ASTVariable_def
  new_ASTString_def new_RegisterOffset_def new_RegisterId_def

lemma ex_dup_eval:
  "\<exists>pf. typeCheck c (ex_dup_parser c) = Inr (False, pf)
     \<and> Console pf = [TokenError ''Label is already defined'' 13 4 3 1]"
  by (simp add: typeCheck_def typeCheckSection_def ex_dup_parser_def ex_dup_code_def ex_defs
      andThen_def findMainEntry_def printError_def checkVarRefs_def)

lemma ex_refs_eval:
  "\<exists>pf. typeCheck c (ex_refs_parser c) = Inr (True, pf)
     \<and> map Identifier.Name (LabelRefs pf) = [''loop'']
     \<and> map Identifier.Name (varRefsOf (bodyOf (SecCode (FileNode pf)))) = [''msg'']"
  by (simp add: typeCheck_def typeCheckSection_def typeCheckVars_def ex_refs_parser_def ex_refs_file_def
      ex_msg_def ex_lea_def ex_jmp_def ex_defs
      andThen_def findMainEntry_def printError_def checkVarRefs_def
      typeCheckInstrParams_def length_buildInstrDefs built_lea built_jmp built_exit matchChild_def
      getRegisterType_def bodyOf_def)

lemma typeCheck_all_labels:
  assumes run: "typeCheck c p = Inr (ok, pf)"
    and m: "findMainEntry (bodyOf (SecCode (FileNode p)))"
  shows "LabelDefs pf = LabelDefs p @ map lookupOf (labelDefsOf (bodyOf (SecCode (FileNode p))))"
  using run
proof (cases rule: typeCheck_elim)
  case (MissingLabel secStatic e1 p1 secGlobal e2 p2 code)
  have "FileNode p2 = FileNode p"
    using typeCheckSection_props [OF MissingLabel(1)] typeCheckSection_props [OF MissingLabel(2)]
    by (simp add: same_tables_def)
  then show ?thesis
    using m MissingLabel(3,4) by (simp add: bodyOf_def findMainEntry_def)
next
  case (MissingEntry secStatic e1 p1 secGlobal e2 p2 code)
  have "FileNode p2 = FileNode p"
    using typeCheckSection_props [OF MissingEntry(1)] typeCheckSection_props [OF MissingEntry(2)]
    by (simp add: same_tables_def)
  then show ?thesis
    using m MissingEntry(3,5) by (simp add: bodyOf_def)
next
  case (Full secStatic e1 p1 secGlobal e2 p2 code body e3 labelRefs p4 e4 p6 valid)
  have f: "FileNode p2 = FileNode p" "LabelDefs p2 = LabelDefs p"
    using typeCheckSection_props [OF Full(1)] typeCheckSection_props [OF Full(2)]
    by (simp_all add: same_tables_def)
  have "LabelDefs p4 = LabelDefs p @ map lookupOf (labelDefsOf (Body code))"
    using typeCheckBody_tables [OF Full(6)] f(2) by simp
  moreover have "LabelDefs pf = LabelDefs p4"
    using console_ext_fields [OF conjunct1 [OF checkLabelRefs_props [OF Full(7)]]]
      console_ext_fields [OF conjunct1 [OF checkVarRefsBody_props [OF Full(9)]]] by simp
  ultimately show ?thesis
    using Full(3) f(1) by (simp add: bodyOf_def)
qed

subsection \<open>The signature a walk ends at\<close>

lemma built_trieSound:
  "list_all2 (\<lambda>sigs n. trieSound sigs [] n) (INSTR_ASM_DEFS c) (buildInstrDefs c)"
  by (simp add: buildInstrDefs_def INSTR_ASM_DEFS_def buildInstrDefNode_def)

lemma table_variantsCover: "list_all (list_all (variantsCover c)) (INSTR_ASM_DEFS c)"
  by (simp add: INSTR_ASM_DEFS_def variantsCover_def isTypeParam_def
      INSTR_FLAG_TYPE_VARIANTS_def INSTR_FLAG_ENCODE_TYPE_def)

lemma trieSound_child:
  "trieSound sigs path n \<Longrightarrow> ch \<in> set (Children n) \<Longrightarrow> trieSound sigs (path @ [InstrDefNode.Type ch]) ch"
  by (cases n) (simp add: list_all_iff)

lemma trieSound_ParamList:
  "trieSound sigs path n \<Longrightarrow> InstrDefNode.ParamList n = Some l \<Longrightarrow>
   l \<in> set sigs \<and> InstrParamList.Params l = path"
  by (cases n) simp

lemma walkParams_signature:
  "walkParams c cur as w = Inr (pl, as1, w2) \<Longrightarrow>
   \<forall>path l. trieSound sigs path cur \<longrightarrow> pl = Some l \<longrightarrow>
     l \<in> set sigs \<and> (\<exists>cats. InstrParamList.Params l = path @ cats \<and> list_all2 (operandAccepted c) cats as)"
proof (induction rule: walkParams_induct)
  case (Last cur a w w1 nx)
  have acc: "nx \<in> set (Children cur)" "operandAccepted c (InstrDefNode.Type nx) a"
    using matchChildren_nextNode [OF Last.hyps(1,2)] by simp_all
  show ?case
  proof (intro allI impI)
    fix path l
    assume t: "trieSound sigs path cur" and p: "InstrDefNode.ParamList nx = Some l"
    have "l \<in> set sigs \<and> InstrParamList.Params l = path @ [InstrDefNode.Type nx]"
      using trieSound_ParamList [OF trieSound_child [OF t acc(1)] p] .
    then show "l \<in> set sigs \<and> (\<exists>cats. InstrParamList.Params l = path @ cats \<and> list_all2 (operandAccepted c) cats [a])"
      using acc(2) by simp
  qed
next
  case (Step cur a as w w1 nx pl as2 w2)
  have acc: "nx \<in> set (Children cur)" "operandAccepted c (InstrDefNode.Type nx) a"
    using matchChildren_nextNode [OF Step.hyps(1,2)] by simp_all
  show ?case
  proof (intro allI impI)
    fix path l
    assume t: "trieSound sigs path cur" and p: "pl = Some l"
    have "l \<in> set sigs \<and> (\<exists>cats. InstrParamList.Params l = (path @ [InstrDefNode.Type nx]) @ cats
            \<and> list_all2 (operandAccepted c) cats as)"
      using Step.IH trieSound_child [OF t acc(1)] p by blast
    then obtain cats where l: "l \<in> set sigs"
      and c: "InstrParamList.Params l = path @ (InstrDefNode.Type nx # cats)"
      and a: "list_all2 (operandAccepted c) cats as"
      by auto
    have "list_all2 (operandAccepted c) (InstrDefNode.Type nx # cats) (a # as)"
      using a acc(2) by simp
    then show "l \<in> set sigs \<and> (\<exists>cats. InstrParamList.Params l = path @ cats \<and> list_all2 (operandAccepted c) cats (a # as))"
      using l c by blast
  qed
qed simp_all

lemma walkParams_typeRef:
  "walkParams c cur as w = Inr (pl, as1, w2) \<Longrightarrow> pl \<noteq> None \<Longrightarrow> typeRef w2 = lastTypeOf (typeRef w) as"
proof (induction rule: walkParams_induct)
  case (Last cur a w w1 nx)
  have acc: "nx \<in> set (Children cur)" "operandAccepted c (InstrDefNode.Type nx) a"
    using matchChildren_nextNode [OF Last.hyps(1,2)] by simp_all
  then have "list_ex (\<lambda>ch. operandAccepted c (InstrDefNode.Type ch) a) (Children cur)"
    by (auto simp: list_ex_iff)
  then show ?case
    using matchChildren_typeRef [OF Last.hyps(1)] by (cases a) simp_all
next
  case (Step cur a as w w1 nx pl as2 w2)
  have acc: "nx \<in> set (Children cur)" "operandAccepted c (InstrDefNode.Type nx) a"
    using matchChildren_nextNode [OF Step.hyps(1,2)] by simp_all
  then have "list_ex (\<lambda>ch. operandAccepted c (InstrDefNode.Type ch) a) (Children cur)"
    by (auto simp: list_ex_iff)
  then have "lastTypeOf (typeRef w) (a # as) = lastTypeOf (typeRef w1) as"
    using matchChildren_typeRef [OF Step.hyps(1)] by (cases a) simp_all
  then show ?case
    using Step.IH Step.prems by simp
qed simp_all

lemma lastTypeOf_no_type:
  "list_all2 (operandAccepted c) cats as \<Longrightarrow> list_all (\<lambda>t. \<not> isTypeParam t) cats \<Longrightarrow>
   lastTypeOf t as = t"
proof (induction cats as arbitrary: t rule: list_all2_induct)
  case Nil
  then show ?case by simp
next
  case (Cons x xs y ys)
  then have "\<forall>ti. y \<noteq> TypeInfoNode ti"
    by (cases x; cases y) (simp_all add: isTypeParam_def)
  then have "lastTypeOf t (y # ys) = lastTypeOf t ys"
    by (cases y) simp_all
  then show ?case using Cons by simp
qed

lemma findVariant_filter:
  "findVariant vs (Some t) opc0 =
     Inr (case filter (\<lambda>v. TypeVariant.Type v = TypeInfo.DataType t) vs of
            [] \<Rightarrow> opc0 | f # fs \<Rightarrow> TypeVariant.Opcode (last (f # fs)))"
proof (induction vs arbitrary: opc0)
  case Nil
  then show ?case by simp
next
  case (Cons v vs)
  show ?case
    by (simp add: Cons.IH split: list.splits)
qed

lemma findVariant_unique:
  assumes "findVariant vs (Some t) opc0 = Inr opc"
    and "distinct (map TypeVariant.Type vs)"
    and "v \<in> set vs" and "TypeVariant.Type v = TypeInfo.DataType t"
  shows "opc = TypeVariant.Opcode v"
proof -
  have "filter (\<lambda>u. TypeVariant.Type u = TypeInfo.DataType t) vs = [v]"
    using assms(2,3,4)
  proof (induction vs)
    case Nil
    then show ?case by simp
  next
    case (Cons u us)
    show ?case
    proof (cases "u = v")
      case True
      have "\<And>x. x \<in> set us \<Longrightarrow> TypeVariant.Type x \<noteq> TypeInfo.DataType t"
        using Cons.prems True by force
      then have "filter (\<lambda>u. TypeVariant.Type u = TypeInfo.DataType t) us = []"
        by (simp add: filter_empty_conv)
      then show ?thesis using True Cons.prems(3) by simp
    next
      case False
      then have "v \<in> set us" using Cons.prems(2) by simp
      moreover have "TypeVariant.Type u \<noteq> TypeInfo.DataType t"
        using Cons.prems \<open>v \<in> set us\<close> by force
      ultimately show ?thesis using Cons by simp
    qed
  qed
  then show ?thesis
    using assms(1) by (simp add: findVariant_filter)
qed

lemma variantsCover_lookup:
  assumes cov: "variantsCover c l" and fl: "Flags l AND INSTR_FLAG_TYPE_VARIANTS \<noteq> 0"
    and d: "uvm_distinct c"
    and acc: "list_all2 (operandAccepted c) (InstrParamList.Params l) as"
  shows "\<exists>ti rest v. as = TypeInfoNode ti # rest \<and> lastTypeOf None as = Some ti
            \<and> v \<in> set (OpcodeVariants l) \<and> TypeVariant.Type v = TypeInfo.DataType ti
            \<and> distinct (map TypeVariant.Type (OpcodeVariants l))"
proof -
  obtain t ts where ps: "InstrParamList.Params l = t # ts"
    and nt: "list_all (\<lambda>t. \<not> isTypeParam t) ts"
    and tv: "if t = INT_TYPE
             then map TypeVariant.Type (OpcodeVariants l) = [UVM_TYPE_I8 c, UVM_TYPE_I16 c, UVM_TYPE_I32 c, UVM_TYPE_I64 c]
             else t = FLOAT_TYPE \<and> map TypeVariant.Type (OpcodeVariants l) = [UVM_TYPE_F32 c, UVM_TYPE_F64 c]"
    using cov fl by (auto simp: variantsCover_def split: list.splits)
  obtain a rest where as: "as = a # rest" and a: "operandAccepted c t a"
    and r: "list_all2 (operandAccepted c) ts rest"
    using acc ps by (auto simp: list_all2_Cons1)
  have t: "t = INT_TYPE \<or> t = FLOAT_TYPE"
    using tv by (auto split: if_splits)
  then obtain ti where ti: "a = TypeInfoNode ti"
    using a by (cases a) auto
  have lt: "lastTypeOf None as = Some ti"
    using lastTypeOf_no_type [OF r nt] by (simp add: as ti)
  have dist: "distinct (map TypeVariant.Type (OpcodeVariants l))"
    using tv d by (auto simp: uvm_distinct_def split: if_splits)
  have "TypeInfo.DataType ti \<in> set (map TypeVariant.Type (OpcodeVariants l))"
    using tv a t by (auto simp: ti isIntType_def isFloatType_def split: if_splits)
  then obtain v where "v \<in> set (OpcodeVariants l)" "TypeVariant.Type v = TypeInfo.DataType ti"
    by auto
  then show ?thesis
    using as ti lt dist by blast
qed

lemma built_sigs:
  assumes "i < length (buildInstrDefs c)"
  shows "trieSound (INSTR_ASM_DEFS c ! i) [] (buildInstrDefs c ! i)"
    and "list_all (variantsCover c) (INSTR_ASM_DEFS c ! i)"
proof -
  have len: "length (INSTR_ASM_DEFS c) = length (buildInstrDefs c)"
    using built_trieSound [of c] by (rule list_all2_lengthD)
  show "trieSound (INSTR_ASM_DEFS c ! i) [] (buildInstrDefs c ! i)"
    using built_trieSound [of c] assms by (simp add: list_all2_conv_all_nth)
  show "list_all (variantsCover c) (INSTR_ASM_DEFS c ! i)"
    using table_variantsCover [of c] assms len by (simp add: list_all_length)
qed

section \<open>The diagnostics of the pass\<close>

lemma rebase_fields:
  "nextNode (rebase rs p w) = nextNode w" "astNode (rebase rs p w) = astNode w"
  "typeRef (rebase rs p w) = typeRef w" "error (rebase rs p w) = error w"
  "refs (rebase rs p w) = rs @ refs w"
  "parser (rebase rs p w) = p\<lparr> Console := Console p @ Console (parser w) \<rparr>"
  by (simp_all add: rebase_def)

lemma rebase_update:
  "rebase rs p (w\<lparr> nextNode := n \<rparr>) = (rebase rs p w)\<lparr> nextNode := n \<rparr>"
  "rebase rs p (w\<lparr> astNode := a \<rparr>) = (rebase rs p w)\<lparr> astNode := a \<rparr>"
  "rebase rs p (w\<lparr> typeRef := t \<rparr>) = (rebase rs p w)\<lparr> typeRef := t \<rparr>"
  "rebase rs p (w\<lparr> error := e \<rparr>) = (rebase rs p w)\<lparr> error := e \<rparr>"
  by (simp_all add: rebase_def)

lemmas rebase_simps = rebase_fields rebase_update

lemma rebase_refs:
  "rebase rs p (w\<lparr> refs := refs w @ [r] \<rparr>) = (rebase rs p w)\<lparr> refs := refs (rebase rs p w) @ [r] \<rparr>"
  by (simp add: rebase_def)

lemma rebase_printError:
  "rebase rs p (w\<lparr> parser := printError i s r l msg (parser w) \<rparr>)
   = (rebase rs p w)\<lparr> parser := printError i s r l msg (parser (rebase rs p w)) \<rparr>"
  by (simp add: rebase_def printError_def)

lemma matchChild_rebase:
  "matchChild c ch (rebase rs p w) = map_sum id (rebase rs p) (matchChild c ch w)"
  unfolding matchChild_def
  by (simp add: Let_def rebase_refs rebase_printError rebase_simps
      split: InstrParamType.splits Node.splits option.splits)

lemma matchChildren_rebase:
  "matchChildren c chs (rebase rs p w) = map_sum id (rebase rs p) (matchChildren c chs w)"
proof (induction chs arbitrary: w)
  case Nil
  then show ?case by simp
next
  case (Cons ch chs)
  show ?case
    by (cases "matchChild c ch w") (simp_all add: matchChild_rebase andThen_def Cons.IH rebase_simps)
qed

lemma walkParams_rebase:
  "walkParams c cur as (rebase rs p w)
   = map_sum id (\<lambda>(pl, as1, w2). (pl, as1, rebase rs p w2)) (walkParams c cur as w)"
proof (induction as arbitrary: cur w)
  case Nil
  then show ?case by simp
next
  case (Cons a as)
  let ?m = "matchChildren c (Children cur) (w\<lparr> nextNode := None, astNode := a \<rparr>)"
  have m: "matchChildren c (Children cur) ((rebase rs p w)\<lparr> nextNode := None, astNode := a \<rparr>)
           = map_sum id (rebase rs p) ?m"
    using matchChildren_rebase [of c "Children cur" rs p "w\<lparr> nextNode := None, astNode := a \<rparr>"]
    by (simp add: rebase_simps)
  show ?case
  proof (cases ?m)
    case (Inl f)
    then show ?thesis by (simp add: m andThen_def rebase_simps)
  next
    case (Inr w1)
    show ?thesis
    proof (cases "nextNode w1")
      case None
      then show ?thesis by (simp add: m Inr andThen_def rebase_simps)
    next
      case (Some nx)
      show ?thesis
      proof (cases "as = []")
        case True
        then show ?thesis by (simp add: m Inr Some andThen_def rebase_simps)
      next
        case False
        then show ?thesis
          by (cases "walkParams c nx as w1") (auto simp: m Inr Some andThen_def Cons.IH rebase_simps)
      qed
    qed
  qed
qed

lemma blank_start:
  assumes "Console q = []"
  shows "\<lparr> nextNode = None, astNode = a, typeRef = None, error = False, refs = rs, parser = p \<rparr>
         = rebase rs p \<lparr> nextNode = None, astNode = a, typeRef = None, error = False, refs = [], parser = q \<rparr>"
  using assms by (simp add: rebase_def)

lemma typeCheckInstrParams_rebase:
  assumes q: "Console q = []" "InstrDefs q = InstrDefs p"
  shows "typeCheckInstrParams c instr rs p
         = map_sum id (\<lambda>(ok, instr1, refs1, q1). (ok, instr1, rs @ refs1, p\<lparr> Console := Console p @ Console q1 \<rparr>))
             (typeCheckInstrParams c instr [] q)"
proof (cases "length (InstrDefs p) \<le> unat (ASMDefIndex instr)")
  case True
  then show ?thesis by (simp add: typeCheckInstrParams_def q)
next
  case False
  let ?root = "InstrDefs p ! unat (ASMDefIndex instr)"
  show ?thesis
  proof (cases "Instruction.Params instr")
    case Nil
    then show ?thesis
      using False
      by (simp add: typeCheckInstrParams_def q printError_def Let_def split: option.splits)
  next
    case (Cons a as)
    let ?w0 = "\<lparr> nextNode = None, astNode = a, typeRef = None, error = False, refs = [], parser = q \<rparr>"
    have w: "walkParams c ?root (a # as)
               \<lparr> nextNode = None, astNode = a, typeRef = None, error = False, refs = rs, parser = p \<rparr>
             = map_sum id (\<lambda>(pl, as1, w2). (pl, as1, rebase rs p w2)) (walkParams c ?root (a # as) ?w0)"
      unfolding blank_start [OF q(1), of a rs p] by (rule walkParams_rebase)
    show ?thesis
    proof (cases "walkParams c ?root (a # as) ?w0")
      case (Inl f)
      then show ?thesis
        using False by (simp add: typeCheckInstrParams_def q Cons w andThen_def Let_def rebase_simps del: walkParams.simps)
    next
      case (Inr r)
      obtain pl as1 w2 where r: "r = (pl, as1, w2)" by (cases r)
      show ?thesis
      proof (cases pl)
        case None
        then show ?thesis
          using False
          by (simp add: typeCheckInstrParams_def q Cons w Inr r andThen_def printError_def Let_def
              rebase_simps del: walkParams.simps)
      next
        case (Some l)
        show ?thesis
        proof (cases "findVariant (OpcodeVariants l) (typeRef w2) 0")
          case (Inl f)
          then show ?thesis
            using False
            by (simp add: typeCheckInstrParams_def q Cons w Inr r Some andThen_def Let_def
                rebase_simps del: walkParams.simps)
        next
          case (Inr opc)
          then show ?thesis
            using False
            by (simp add: typeCheckInstrParams_def q Cons w \<open>walkParams c ?root (a # as) ?w0 = Inr r\<close> r Some
                andThen_def Let_def rebase_simps del: walkParams.simps)
        qed
      qed
    qed
  qed
qed

lemma typeCheckInstrParams_alone:
  assumes "typeCheckInstrParams c instr rs p = Inr (ok, instr1, refs1, p1)"
  shows "Console p1 = Console p @ instrDiags c (InstrDefs p) instr"
    and "refs1 = rs @ instrRefs c (InstrDefs p) instr"
    and "InstrDefs p1 = InstrDefs p" and "LabelDefs p1 = LabelDefs p"
proof -
  let ?q = "new_Parser (InstrDefs p) [] [] new_ASTFileNode"
  have q: "Console ?q = []" "InstrDefs ?q = InstrDefs p"
    by (simp_all add: new_Parser_def)
  note e = typeCheckInstrParams_rebase [OF q, of c instr rs]
  show "Console p1 = Console p @ instrDiags c (InstrDefs p) instr"
    using assms e
    by (cases "typeCheckInstrParams c instr [] ?q") (auto simp: instrDiags_def checkAlone_def)
  show "refs1 = rs @ instrRefs c (InstrDefs p) instr"
    using assms e
    by (cases "typeCheckInstrParams c instr [] ?q") (auto simp: instrRefs_def checkAlone_def)
  show "InstrDefs p1 = InstrDefs p" "LabelDefs p1 = LabelDefs p"
    using assms e
    by (cases "typeCheckInstrParams c instr [] ?q"; auto)+
qed

lemma list_ex_labelNames:
  "list_ex (\<lambda>d. LabelDef.Name (Def d) = n) (LabelDefs p) = (n \<in> labelNames p)"
  "list_ex (\<lambda>d. n = LabelDef.Name (Def d)) (LabelDefs p) = (n \<in> labelNames p)"
  by (force simp: list_ex_iff labelNames_def)+

lemma list_ex_declNames:
  "list_ex (\<lambda>d. Identifier.Name (VarDeclaration.Id d) = n) (VarDecls p) = (n \<in> declNames p)"
  by (force simp: list_ex_iff declNames_def)

lemma afterLabel_Console:
  "Console (afterLabel label p)
   = Console p @ (if LabelDef.Name label \<in> labelNames p then [labelDiag label] else [])"
  by (simp add: afterLabel_def Let_def printError_def list_ex_labelNames labelDiag_def)

lemma afterLabel_labelNames:
  "labelNames (afterLabel label p) = insert (LabelDef.Name label) (labelNames p)"
  by (simp add: labelNames_def lookupOf_def)

lemma typeCheckBody_diags:
  "typeCheckBody c body e lrefs p = Inr (body1, e1, refs1, p1) \<Longrightarrow>
   Console p1 = Console p @ bodyDiags c (InstrDefs p) (labelNames p) body
   \<and> refs1 = lrefs @ bodyRefs c (InstrDefs p) body"
proof (induction body arbitrary: e lrefs p body1 e1 refs1 p1)
  case Nil
  then show ?case by simp
next
  case (Cons node rest)
  show ?case
  proof (cases node)
    case (InstructionNode instr)
    from Cons.prems obtain ok instr1 refs0 p0 rest1 where
      a: "typeCheckInstrParams c instr lrefs p = Inr (ok, instr1, refs0, p0)"
      and b: "typeCheckBody c rest (if \<not> ok then True else e) refs0 p0 = Inr (rest1, e1, refs1, p1)"
      unfolding InstructionNode typeCheckBody_Instr by blast
    note f = typeCheckInstrParams_alone [OF a]
    have "labelNames p0 = labelNames p" using f(4) by (simp add: labelNames_def)
    then show ?thesis
      using Cons.IH [OF b] f by (simp add: InstructionNode)
  next
    case (VariableNode v)
    from Cons.prems obtain rest1 where
      "typeCheckBody c rest e lrefs p = Inr (rest1, e1, refs1, p1)"
      by (auto simp: VariableNode andThen_Inr_iff)
    from Cons.IH [OF this] show ?thesis by (simp add: VariableNode)
  next
    case (LeafNode n)
    show ?thesis
    proof (cases "\<exists>label. n = LabelDefNode label")
      case True
      then obtain label where n: "n = LabelDefNode label" by blast
      from Cons.prems obtain rest1 where
        b: "typeCheckBody c rest
              (if list_ex (\<lambda>d. LabelDef.Name (Def d) = LabelDef.Name label) (LabelDefs p) then True else e)
              lrefs (afterLabel label p) = Inr (rest1, e1, refs1, p1)"
        unfolding LeafNode n typeCheckBody_Label by blast
      from Cons.IH [OF b] show ?thesis
        by (simp add: LeafNode n afterLabel_Console afterLabel_labelNames)
    next
      case False
      from Cons.prems False obtain rest1 where
        "typeCheckBody c rest e lrefs p = Inr (rest1, e1, refs1, p1)"
        by (cases n) (auto simp: LeafNode andThen_Inr_iff)
      from Cons.IH [OF this] False show ?thesis
        by (cases n) (simp_all add: LeafNode)
    qed
  qed
qed

lemma printError_fields:
  "VarDecls (printError i s r l msg p) = VarDecls p"
  "LabelDefs (printError i s r l msg p) = LabelDefs p"
  "InstrDefs (printError i s r l msg p) = InstrDefs p"
  "FileNode (printError i s r l msg p) = FileNode p"
  "Console (printError i s r l msg p) = Console p @ [TokenError msg i s r l]"
  by (simp_all add: printError_def)

lemma declNames_printError: "declNames (printError i s r l msg p) = declNames p"
  by (simp add: declNames_def)

lemma labelNames_printError: "labelNames (printError i s r l msg p) = labelNames p"
  by (simp add: labelNames_def)

lemmas printError_simps = printError_fields declNames_printError labelNames_printError

lemma typeCheckVarsLoop_diags:
  "typeCheckVarsLoop c st body valid p = Inr (valid1, body1, p1) \<Longrightarrow>
   Console p1 = Console p @ map varDiag (repeated varName (declNames p) (variablesOf body))
   \<and> declNames p1 = declNames p \<union> set (map varName (variablesOf body))"
proof (induction c st body valid p arbitrary: valid1 body1 p1 rule: typeCheckVarsLoop.induct)
  case (1 c secType valid p)
  then show ?case by simp
next
  case (2 c secType var rest valid p)
  let ?dup = "list_ex (\<lambda>varDecl. Identifier.Name (VarDeclaration.Id varDecl) = Identifier.Name (ASTVariable.Id var))
           (VarDecls p)"
  have dup: "?dup = (varName var \<in> declNames p)"
    by (simp add: list_ex_declNames varName_def)
  show ?case
  proof (cases ?dup)
    case True
    let ?p = "printError (ASTNode.Index var) (ASTNode.Size var) (ASTNode.LineRow var)
                      (ASTNode.LineCol var) ''Variable redefiniton'' p"
    from "2.prems" True obtain v1 r1 where
      r: "typeCheckVarsLoop c secType rest False ?p = Inr (v1, r1, p1)"
      by (auto simp: andThen_Inr_iff)
    have ins: "insert (varName var) (declNames p) = declNames p"
      using True dup by auto
    from "2.IH"(1) [OF True r] show ?thesis
      using True dup by (auto simp: ins varDiag_def printError_simps)
  next
    case False
    let ?d = "\<lparr> VarDeclaration.Id = ASTVariable.Id var,
                        SecPerm = (case secType of
                                     STATIC \<Rightarrow> SEC_PERM_READ c
                                   | GLOBAL \<Rightarrow> SEC_PERM_READ c AND SEC_PERM_WRITE c
                                   | CODE \<Rightarrow> SEC_PERM_READ c AND SEC_PERM_EXECUTE c) \<rparr>"
    let ?p = "p\<lparr> VarDecls := VarDecls p @ [?d] \<rparr>"
    from "2.prems" False obtain v1 r1 where
      r: "typeCheckVarsLoop c secType rest valid ?p = Inr (v1, r1, p1)"
      by (auto simp: andThen_Inr_iff Let_def)
    have dn: "declNames ?p = insert (varName var) (declNames p)"
      by (simp add: declNames_def varName_def)
    from "2.IH"(2) [OF False refl refl r] show ?thesis
      using False dup by (auto simp: dn)
  qed
qed simp_all

lemma repeated_cong_seen: "repeated name seen (xs @ ys)
   = repeated name seen xs @ repeated name (seen \<union> set (map name xs)) ys"
proof (induction xs arbitrary: seen)
  case Nil
  then show ?case by simp
next
  case (Cons x xs)
  have "insert (name x) seen \<union> set (map name xs) = seen \<union> set (map name (x # xs))"
    by auto
  then show ?case using Cons [of "insert (name x) seen"] by simp
qed

lemma checkLabelRefs_diags:
  "checkLabelRefs lrefs e p = (e1, p1) \<Longrightarrow>
   Console p1 = Console p @ map refDiag (filter (\<lambda>r. Identifier.Name r \<notin> labelNames p) lrefs)"
proof (induction lrefs arbitrary: e p)
  case Nil
  then show ?case by simp
next
  case (Cons labelRef rest)
  show ?case
  proof (cases "Identifier.Name labelRef \<in> labelNames p")
    case True
    then have "checkLabelRefs rest e p = (e1, p1)"
      using Cons.prems by (simp add: list_ex_labelNames)
    from Cons.IH [OF this] show ?thesis using True by simp
  next
    case False
    then have "checkLabelRefs rest True
             (printError (ASTNode.Index labelRef) (of_nat (length (Identifier.Name labelRef)))
                (ASTNode.LineRow labelRef) (ASTNode.LineCol labelRef) ''Unresolved label'' p) = (e1, p1)"
      using Cons.prems by (simp add: list_ex_labelNames)
    from Cons.IH [OF this] show ?thesis using False by (simp add: refDiag_def printError_simps)
  qed
qed

lemma checkVarRefsParams_diags:
  "checkVarRefsParams as valid p = (valid1, p1) \<Longrightarrow>
   Console p1 = Console p @ map varRefDiag (filter (\<lambda>v. Identifier.Name v \<notin> declNames p) (varRefsOfParams as))
   \<and> declNames p1 = declNames p"
proof (induction as valid p rule: checkVarRefsParams.induct)
  case (1 valid p)
  then show ?case by simp
next
  case (2 ro rest valid p)
  show ?case
  proof (cases "Var ro")
    case None
    then show ?thesis using 2 by simp
  next
    case (Some v)
    show ?thesis
    proof (cases "Identifier.Name v \<in> declNames p")
      case True
      then show ?thesis using 2 Some by (simp add: list_ex_declNames)
    next
      case False
      then show ?thesis using 2 Some by (simp add: list_ex_declNames varRefDiag_def printError_simps)
    qed
  qed
qed simp_all

lemma checkVarRefsBody_diags:
  "checkVarRefsBody body valid p = (valid1, p1) \<Longrightarrow>
   Console p1 = Console p @ map varRefDiag (filter (\<lambda>v. Identifier.Name v \<notin> declNames p) (varRefsOf body))
   \<and> declNames p1 = declNames p"
proof (induction body valid p rule: checkVarRefsBody.induct)
  case (1 valid p)
  then show ?case by simp
next
  case (2 instr rest valid p)
  obtain v0 p0 where a: "checkVarRefsParams (Instruction.Params instr) valid p = (v0, p0)"
    by (cases "checkVarRefsParams (Instruction.Params instr) valid p")
  then have b: "checkVarRefsBody rest v0 p0 = (valid1, p1)"
    using "2.prems" by simp
  from "2.IH" [OF a [symmetric] b] checkVarRefsParams_diags [OF a]
  show ?case by simp
qed simp_all

lemma typeCheckSection_diags:
  assumes "typeCheckSection c sec e p = Inr (sec1, e1, p1)"
  shows "Console p1 = Console p @ map varDiag (repeated varName (declNames p) (variablesOf (bodyOf sec)))"
    and "declNames p1 = declNames p \<union> set (map varName (variablesOf (bodyOf sec)))"
proof -
  have "Console p1 = Console p @ map varDiag (repeated varName (declNames p) (variablesOf (bodyOf sec)))
      \<and> declNames p1 = declNames p \<union> set (map varName (variablesOf (bodyOf sec)))"
  proof (cases sec)
    case None
    then show ?thesis using assms by (simp add: typeCheckSection_def bodyOf_def)
  next
    case (Some s)
    from assms obtain valid body1 where
      "typeCheckVarsLoop c (SecType s) (Body s) True p = Inr (valid, body1, p1)"
      by (auto simp: Some typeCheckSection_def typeCheckVars_def andThen_Inr_iff)
    from typeCheckVarsLoop_diags [OF this] show ?thesis
      by (simp add: Some bodyOf_def)
  qed
  then show "Console p1 = Console p @ map varDiag (repeated varName (declNames p) (variablesOf (bodyOf sec)))"
    and "declNames p1 = declNames p \<union> set (map varName (variablesOf (bodyOf sec)))"
    by simp_all
qed

lemma typeCheck_diags:
  assumes run: "typeCheck c p = Inr (ok, pf)"
  shows "Console pf = Console p @ passDiags c p"
  using run
proof (cases rule: typeCheck_elim)
  case (MissingLabel secStatic e1 p1 secGlobal e2 p2 code)
  note s1 = typeCheckSection_diags [OF MissingLabel(1)] typeCheckSection_props [OF MissingLabel(1)]
  note s2 = typeCheckSection_diags [OF MissingLabel(2)] typeCheckSection_props [OF MissingLabel(2)]
  have fn: "FileNode p2 = FileNode p" using s1 s2 by (simp add: same_tables_def)
  have body: "bodyOf (SecCode (FileNode p)) = []"
    using MissingLabel(3,4) fn by (simp add: bodyOf_def)
  show ?thesis
    using s1(1,2) s2(1,2)
    by (simp add: MissingLabel(6) passDiags_def Let_def body printLine_def repeated_cong_seen)
next
  case (MissingEntry secStatic e1 p1 secGlobal e2 p2 code)
  note s1 = typeCheckSection_diags [OF MissingEntry(1)] typeCheckSection_props [OF MissingEntry(1)]
  note s2 = typeCheckSection_diags [OF MissingEntry(2)] typeCheckSection_props [OF MissingEntry(2)]
  have fn: "FileNode p2 = FileNode p" using s1 s2 by (simp add: same_tables_def)
  have body: "bodyOf (SecCode (FileNode p)) = Body code"
    using MissingEntry(3) fn by (simp add: bodyOf_def)
  show ?thesis
    using s1(1,2) s2(1,2) MissingEntry(4,5)
    by (simp add: MissingEntry(7) passDiags_def Let_def body printLine_def repeated_cong_seen)
next
  case (Full secStatic e1 p1 secGlobal e2 p2 code body e3 labelRefs p4 e4 p6 valid)
  let ?p3 = "p2\<lparr> FileNode := (FileNode p2)\<lparr> SecStatic := secStatic, SecGlobal := secGlobal \<rparr> \<rparr>"
  let ?p5 = "p4\<lparr> FileNode := (FileNode p4)\<lparr> SecCode := Some (code\<lparr> Body := body \<rparr>) \<rparr>,
                 LabelRefs := labelRefs \<rparr>"
  note s1 = typeCheckSection_diags [OF Full(1)] typeCheckSection_props [OF Full(1)]
  note s2 = typeCheckSection_diags [OF Full(2)] typeCheckSection_props [OF Full(2)]
  have fn: "FileNode p2 = FileNode p" and idf: "InstrDefs p2 = InstrDefs p"
    and ld: "LabelDefs p2 = LabelDefs p"
    using s1 s2 by (simp_all add: same_tables_def)
  have bd: "bodyOf (SecCode (FileNode p)) = Body code"
    using Full(3) fn by (simp add: bodyOf_def)
  have c2: "Console p2 = Console p @ map varDiag (repeated varName (declNames p)
              (variablesOf (bodyOf (SecStatic (FileNode p))) @ variablesOf (bodyOf (SecGlobal (FileNode p)))))"
    using s1(1,2) s2(1) by (simp add: repeated_cong_seen)
  have d2: "declNames p2 = declNames p \<union> set (map varName
              (variablesOf (bodyOf (SecStatic (FileNode p))) @ variablesOf (bodyOf (SecGlobal (FileNode p)))))"
    using s1(2) s2(2) by auto
  note b = typeCheckBody_diags [OF Full(6)] typeCheckBody_tables [OF Full(6)]
  have c4: "Console p4 = Console p2 @ bodyDiags c (InstrDefs p) (labelNames p) (Body code)"
    using b(1) idf ld by (simp add: labelNames_def)
  have r4: "labelRefs = bodyRefs c (InstrDefs p) (Body code)"
    using b(1) idf by simp
  have l5: "labelNames ?p5 = labelNames p \<union> set (map LabelDef.Name (labelDefsOf (Body code)))"
    using b(2) ld by (simp add: labelNames_def lookupOf_def image_Un image_image)
  have d5: "declNames ?p5 = declNames p2"
    using b(2) by (simp add: declNames_def)
  note l = checkLabelRefs_diags [OF Full(7)] checkLabelRefs_props [OF Full(7)]
  have d6: "declNames p6 = declNames p2"
    using l(2) d5 by (auto simp: console_ext_def declNames_def)
  have c6: "Console p6 = Console p4 @ map refDiag
              (filter (\<lambda>r. Identifier.Name r \<notin> labelNames p \<union> set (map LabelDef.Name (labelDefsOf (Body code))))
                 (bodyRefs c (InstrDefs p) (Body code)))"
    using l(1) l5 r4 by simp
  note v = checkVarRefsBody_diags [OF Full(9)]
  have vr: "varRefsOf body = varRefsOf (Body code)" using b(2) by simp
  show ?thesis
    using Full(4,5)
    by (simp add: passDiags_def Let_def bd conjunct1 [OF v] c6 c4 c2 d6 d2 vr image_Un)
qed

lemma ex_errors_eval:
  assumes "uvm_distinct c"
  shows "\<exists>pf. typeCheck c (ex_errors_parser c) = Inr (False, pf)
     \<and> Console pf =
         [TokenError ''Variable redefiniton'' 28 10 3 5,
          TokenError ''Integer does not fit into given type'' 66 3 7 13,
          TokenError ''Error no matching parameter list found for instruction'' 74 4 8 5,
          TokenError ''Label is already defined'' 113 4 11 1,
          TokenError ''Unresolved label'' 89 7 9 9,
          TokenError ''Variable reference does not exist'' 106 1 10 10]"
  by (simp add: typeCheck_def typeCheckSection_def typeCheckVars_def ex_errors_parser_def ex_errors_file_def
      ex_defs andThen_def findMainEntry_def printError_def checkVarRefs_def
      typeCheckInstrParams_def length_buildInstrDefs built_push built_lea built_jmp built_exit matchChild_def
      getRegisterType_def bodyOf_def checkIntWidth_cases magnitude_def uvm_distinct_neq [OF assms]
      INSTR_FLAG_TYPE_VARIANTS_def INSTR_FLAG_ENCODE_TYPE_def)

lemma console_ext_fields2:
  "console_ext p p1 \<Longrightarrow> LabelRefs p1 = LabelRefs p \<and> declNames p1 = declNames p"
  by (auto simp: console_ext_def declNames_def)

lemma typeCheck_declNames:
  assumes run: "typeCheck c p = Inr (ok, pf)"
  shows "declNames pf = declNames p \<union> set (map varName
           (variablesOf (bodyOf (SecStatic (FileNode p))) @ variablesOf (bodyOf (SecGlobal (FileNode p)))))"
  using run
proof (cases rule: typeCheck_elim)
  case (MissingLabel secStatic e1 p1 secGlobal e2 p2 code)
  note s1 = typeCheckSection_diags [OF MissingLabel(1)] typeCheckSection_props [OF MissingLabel(1)]
  note s2 = typeCheckSection_diags [OF MissingLabel(2)] typeCheckSection_props [OF MissingLabel(2)]
  have fn: "FileNode p1 = FileNode p" using s1 by (simp add: same_tables_def)
  show ?thesis
    using s1(2) s2(2) by (auto simp: MissingLabel(6) fn printLine_def declNames_def)
next
  case (MissingEntry secStatic e1 p1 secGlobal e2 p2 code)
  note s1 = typeCheckSection_diags [OF MissingEntry(1)] typeCheckSection_props [OF MissingEntry(1)]
  note s2 = typeCheckSection_diags [OF MissingEntry(2)] typeCheckSection_props [OF MissingEntry(2)]
  have fn: "FileNode p1 = FileNode p" using s1 by (simp add: same_tables_def)
  show ?thesis
    using s1(2) s2(2) by (auto simp: MissingEntry(7) fn printLine_def declNames_def)
next
  case (Full secStatic e1 p1 secGlobal e2 p2 code body e3 labelRefs p4 e4 p6 valid)
  let ?p5 = "p4\<lparr> FileNode := (FileNode p4)\<lparr> SecCode := Some (code\<lparr> Body := body \<rparr>) \<rparr>,
                 LabelRefs := labelRefs \<rparr>"
  note s1 = typeCheckSection_diags [OF Full(1)] typeCheckSection_props [OF Full(1)]
  note s2 = typeCheckSection_diags [OF Full(2)] typeCheckSection_props [OF Full(2)]
  have fn: "FileNode p1 = FileNode p" using s1 by (simp add: same_tables_def)
  have d2: "declNames p2 = declNames p \<union> set (map varName
              (variablesOf (bodyOf (SecStatic (FileNode p))) @ variablesOf (bodyOf (SecGlobal (FileNode p)))))"
    using s1(2) s2(2) fn by auto
  note b = typeCheckBody_tables [OF Full(6)]
  have d5: "declNames ?p5 = declNames p2"
    using b by (simp add: declNames_def)
  have d6: "declNames p6 = declNames p2"
    using console_ext_fields2 [OF conjunct1 [OF checkLabelRefs_props [OF Full(7)]]] d5 by simp
  show ?thesis
    using checkVarRefsBody_diags [OF Full(9)] d6 d2 by simp
qed

lemma typeCheck_LabelRefs:
  assumes run: "typeCheck c p = Inr (ok, pf)"
    and m: "findMainEntry (bodyOf (SecCode (FileNode p)))"
  shows "LabelRefs pf = bodyRefs c (InstrDefs p) (bodyOf (SecCode (FileNode p)))"
  using run
proof (cases rule: typeCheck_elim)
  case (MissingLabel secStatic e1 p1 secGlobal e2 p2 code)
  have "FileNode p2 = FileNode p"
    using typeCheckSection_props [OF MissingLabel(1)] typeCheckSection_props [OF MissingLabel(2)]
    by (simp add: same_tables_def)
  then show ?thesis
    using m MissingLabel(3,4) by (simp add: bodyOf_def findMainEntry_def)
next
  case (MissingEntry secStatic e1 p1 secGlobal e2 p2 code)
  have "FileNode p2 = FileNode p"
    using typeCheckSection_props [OF MissingEntry(1)] typeCheckSection_props [OF MissingEntry(2)]
    by (simp add: same_tables_def)
  then show ?thesis
    using m MissingEntry(3,5) by (simp add: bodyOf_def)
next
  case (Full secStatic e1 p1 secGlobal e2 p2 code body e3 labelRefs p4 e4 p6 valid)
  let ?p5 = "p4\<lparr> FileNode := (FileNode p4)\<lparr> SecCode := Some (code\<lparr> Body := body \<rparr>) \<rparr>,
                 LabelRefs := labelRefs \<rparr>"
  note s1 = typeCheckSection_props [OF Full(1)]
  note s2 = typeCheckSection_props [OF Full(2)]
  have fn: "FileNode p2 = FileNode p" and idf: "InstrDefs p2 = InstrDefs p"
    using s1 s2 by (simp_all add: same_tables_def)
  have bd: "bodyOf (SecCode (FileNode p)) = Body code"
    using Full(3) fn by (simp add: bodyOf_def)
  have r4: "labelRefs = bodyRefs c (InstrDefs p) (Body code)"
    using typeCheckBody_diags [OF Full(6)] idf by simp
  have "LabelRefs p6 = labelRefs"
    using console_ext_fields2 [OF conjunct1 [OF checkLabelRefs_props [OF Full(7)]]] by simp
  moreover have "LabelRefs pf = LabelRefs p6"
    using console_ext_fields2 [OF conjunct1 [OF checkVarRefsBody_props [OF Full(9)]]] by simp
  ultimately show ?thesis using r4 bd by simp
qed

section \<open>The register offset sub-parser\<close>

lemma eatToken_tokenAt:
  assumes "eatToken p = Inr (t, p1)"
  shows "t = tokenAt p 0" and "tokenAt p1 k = tokenAt p (Suc k)" and "Src p1 = Src p"
    and "Console p1 = Console p"
  using assms by (auto simp: eatToken_def tokenAt_def split: if_splits)

lemma peekToken_tokenAt:
  "peekToken p = Inr t \<Longrightarrow> t = tokenAt p 0"
  by (auto simp: peekToken_def tokenAt_def split: if_splits)

lemma parseRegOffsetFactor_True:
  assumes "parseRegOffsetFactor instr regOff t p = Inr (True, instr1, p1)"
  shows "\<exists>ro. Instruction.Params instr1 = Instruction.Params instr @ [RegisterOffsetNode ro]
           \<and> Layout ro = Layout regOff OR 0x1F \<and> Base ro = Base regOff \<and> Var ro = Var regOff
           \<and> Token.Type (tokenAt p 0) = ASTERISK
           \<and> Token.Type (tokenAt p 2) = RIGHT_SQUARE_BRACKET"
proof -
  have "\<exists>t1 q1 t2 q2 (num :: u64) t3 q3.
      eatToken p = Inr (t1, q1) \<and> Token.Type t1 = ASTERISK
    \<and> eatToken q1 = Inr (t2, q2)
    \<and> eatToken q2 = Inr (t3, q3) \<and> Token.Type t3 = RIGHT_SQUARE_BRACKET
    \<and> instr1 = pushParam (RegisterOffsetNode
              ((setPosition t3 (regOff\<lparr> Offset := Some (new_RegisterId (Token.Index t) (Token.Size t)
                                     (Token.LineRow t) (Token.LineCol t) (Token.Tag t)),
                    Immediate := ROInt_set_U16 (ucast num) (Immediate regOff) \<rparr>))
                 \<lparr> Layout := Layout regOff OR RO_LAYOUT_IR_IR_INT \<rparr>)) instr"
    using assms unfolding parseRegOffsetFactor_def
    by (auto simp: andThen_Inr_iff Let_def split: if_splits prod.splits)
  then obtain t1 q1 t2 q2 and num :: u64 and t3 q3 where
    e1: "eatToken p = Inr (t1, q1)" and a: "Token.Type t1 = ASTERISK"
    and e2: "eatToken q1 = Inr (t2, q2)"
    and e3: "eatToken q2 = Inr (t3, q3)" and b: "Token.Type t3 = RIGHT_SQUARE_BRACKET"
    and i: "instr1 = pushParam (RegisterOffsetNode
              ((setPosition t3 (regOff\<lparr> Offset := Some (new_RegisterId (Token.Index t) (Token.Size t)
                                     (Token.LineRow t) (Token.LineCol t) (Token.Tag t)),
                    Immediate := ROInt_set_U16 (ucast num) (Immediate regOff) \<rparr>))
                 \<lparr> Layout := Layout regOff OR RO_LAYOUT_IR_IR_INT \<rparr>)) instr"
    by (elim exE conjE)
  have "t1 = tokenAt p 0" using eatToken_tokenAt(1) [OF e1] .
  moreover have "t3 = tokenAt p 2"
    using eatToken_tokenAt(1) [OF e3] eatToken_tokenAt(2) [OF e2, of 0] eatToken_tokenAt(2) [OF e1, of 1]
    by (simp add: numeral_2_eq_2)
  ultimately show ?thesis
    using a b by (simp add: i pushParam_def setPosition_def RO_LAYOUT_IR_IR_INT_def)
qed

lemma parseRegOffsetImmediate_True:
  assumes "parseRegOffsetImmediate instr regOff t p = Inr (True, instr1, p1)"
  shows "\<exists>ro num. Instruction.Params instr1 = Instruction.Params instr @ [RegisterOffsetNode ro]
           \<and> Layout ro = Layout regOff OR 0x2F \<and> Base ro = Base regOff \<and> Var ro = Var regOff
           \<and> strToInt (getSubStr (Src p) (Token.Index t) (Token.Size t)) 0 = Inr (True, num)
           \<and> drop_bit 32 num = 0 \<and> Immediate ro = ucast num
           \<and> Token.Type (tokenAt p 0) = RIGHT_SQUARE_BRACKET"
proof -
  have "\<exists>pk num. peekToken p = Inr pk \<and> Token.Type pk = RIGHT_SQUARE_BRACKET
    \<and> strToInt (getSubStr (Src p) (Token.Index t) (Token.Size t)) 0 = Inr (True, num)
    \<and> drop_bit 32 num = 0
    \<and> instr1 = pushParam (RegisterOffsetNode
              ((setPosition t (regOff\<lparr> Immediate := ucast num \<rparr>))
                 \<lparr> Layout := Layout regOff OR RO_LAYOUT_IR_INT \<rparr>)) instr"
    using assms unfolding parseRegOffsetImmediate_def
    by (auto simp: andThen_Inr_iff Let_def setPosition_def split: if_splits prod.splits)
  then obtain pk num where
    e1: "peekToken p = Inr pk" and a: "Token.Type pk = RIGHT_SQUARE_BRACKET"
    and s: "strToInt (getSubStr (Src p) (Token.Index t) (Token.Size t)) 0 = Inr (True, num)"
    and d: "drop_bit 32 num = 0"
    and i: "instr1 = pushParam (RegisterOffsetNode
              ((setPosition t (regOff\<lparr> Immediate := ucast num \<rparr>))
                 \<lparr> Layout := Layout regOff OR RO_LAYOUT_IR_INT \<rparr>)) instr"
    by (elim exE conjE)
  have "pk = tokenAt p 0" using peekToken_tokenAt [OF e1] .
  then show ?thesis
    using a s d by (simp add: i pushParam_def setPosition_def RO_LAYOUT_IR_INT_def)
qed

lemma parseRegOffsetSign_True:
  assumes "parseRegOffsetSign instr regOff t p = Inr (True, instr1, p1)"
    and l0: "Layout regOff = 0"
  shows "\<exists>ro. Instruction.Params instr1 = Instruction.Params instr @ [RegisterOffsetNode ro]
           \<and> Base ro = Base regOff \<and> Var ro = Var regOff
           \<and> (if Token.Type t = RIGHT_SQUARE_BRACKET then Layout ro = 0x4F
               else (Token.Type t = PLUS_SIGN \<or> Token.Type t = MINUS_SIGN)
                 \<and> (if Token.Type (tokenAt p 0) = INTEGER_NUMBER
                     then Token.Type (tokenAt p 1) = RIGHT_SQUARE_BRACKET
                       \<and> Layout ro = (if Token.Type t = MINUS_SIGN then 0x80 else 0) OR 0x2F
                       \<and> (\<exists>num. strToInt (getSubStr (Src p) (Token.Index (tokenAt p 0))
                                    (Token.Size (tokenAt p 0))) 0 = Inr (True, num)
                              \<and> drop_bit 32 num = 0 \<and> Immediate ro = ucast num)
                     else Token.Type (tokenAt p 0) = REGISTER_DEFINITION
                       \<and> Token.Type (tokenAt p 1) = ASTERISK
                       \<and> Token.Type (tokenAt p 3) = RIGHT_SQUARE_BRACKET
                       \<and> Layout ro = (if Token.Type t = MINUS_SIGN then 0x80 else 0) OR 0x1F))"
proof (cases "Token.Type t = RIGHT_SQUARE_BRACKET")
  case True
  then show ?thesis
    using assms(1) by (auto simp: parseRegOffsetSign_def pushParam_def setPosition_def RO_LAYOUT_IR_def)
next
  case False
  define ro1 where "ro1 = (if Token.Type t = PLUS_SIGN then regOff\<lparr> Layout := Layout regOff OR 0x00 \<rparr>
                      else regOff\<lparr> Layout := Layout regOff OR 0x80 \<rparr>)"
  have ro1: "Layout ro1 = (if Token.Type t = MINUS_SIGN then 0x80 else 0)" "Base ro1 = Base regOff"
      "Var ro1 = Var regOff" if "Token.Type t = PLUS_SIGN \<or> Token.Type t = MINUS_SIGN"
    using that l0 by (auto simp: ro1_def)
  have "\<exists>t1 q1. (Token.Type t = PLUS_SIGN \<or> Token.Type t = MINUS_SIGN)
    \<and> eatToken p = Inr (t1, q1)
    \<and> ((Token.Type t1 = INTEGER_NUMBER \<and> parseRegOffsetImmediate instr ro1 t1 q1 = Inr (True, instr1, p1))
          \<or> (Token.Type t1 \<noteq> INTEGER_NUMBER \<and> Token.Type t1 = REGISTER_DEFINITION
              \<and> parseRegOffsetFactor instr ro1 t1 q1 = Inr (True, instr1, p1)))"
    using assms(1) False unfolding parseRegOffsetSign_def ro1_def
    by (auto simp: andThen_Inr_iff Let_def split: if_splits prod.splits)
  then obtain t1 q1 where
    sg: "Token.Type t = PLUS_SIGN \<or> Token.Type t = MINUS_SIGN"
    and e1: "eatToken p = Inr (t1, q1)"
    and r: "(Token.Type t1 = INTEGER_NUMBER \<and> parseRegOffsetImmediate instr ro1 t1 q1 = Inr (True, instr1, p1))
          \<or> (Token.Type t1 \<noteq> INTEGER_NUMBER \<and> Token.Type t1 = REGISTER_DEFINITION
              \<and> parseRegOffsetFactor instr ro1 t1 q1 = Inr (True, instr1, p1))"
    by (elim exE conjE)
  have t1: "t1 = tokenAt p 0" and q1: "\<And>k. tokenAt q1 k = tokenAt p (Suc k)" and src: "Src q1 = Src p"
    using eatToken_tokenAt [OF e1] by simp_all
  from r show ?thesis
  proof
    assume a: "Token.Type t1 = INTEGER_NUMBER \<and> parseRegOffsetImmediate instr ro1 t1 q1 = Inr (True, instr1, p1)"
    from parseRegOffsetImmediate_True [OF conjunct2 [OF a]] 
    show ?thesis
      using False sg a ro1 [OF sg] by (auto simp: t1 [symmetric] q1 src)
  next
    assume a: "Token.Type t1 \<noteq> INTEGER_NUMBER \<and> Token.Type t1 = REGISTER_DEFINITION
              \<and> parseRegOffsetFactor instr ro1 t1 q1 = Inr (True, instr1, p1)"
    from parseRegOffsetFactor_True [OF conjunct2 [OF conjunct2 [OF a]]]
    show ?thesis
      using False sg a ro1 [OF sg] by (auto simp: t1 [symmetric] q1 src numeral_3_eq_3 numeral_2_eq_2)
  qed
qed

lemma parseRegOffset_forms:
  assumes run: "parseRegOffset instr p = Inr (True, instr1, p1)"
  shows "\<exists>ro. Instruction.Params instr1 = Instruction.Params instr @ [RegisterOffsetNode ro]
      \<and> (if Token.Type (tokenAt p 0) = IDENTIFIER
          then Token.Type (tokenAt p 1) = RIGHT_SQUARE_BRACKET \<and> Layout ro = 0
             \<and> (\<exists>v. Var ro = Some v
                   \<and> Identifier.Name v = getSubStr (Src p) (Token.Index (tokenAt p 0)) (Token.Size (tokenAt p 0)))
          else Token.Type (tokenAt p 0) = REGISTER_DEFINITION
             \<and> (\<exists>b. Base ro = Some b \<and> RegisterId.Id b = Token.Tag (tokenAt p 0))
             \<and> Var ro = None
             \<and> (if Token.Type (tokenAt p 1) = RIGHT_SQUARE_BRACKET then Layout ro = 0x4F
                 else (Token.Type (tokenAt p 1) = PLUS_SIGN \<or> Token.Type (tokenAt p 1) = MINUS_SIGN)
                   \<and> (if Token.Type (tokenAt p 2) = INTEGER_NUMBER
                       then Token.Type (tokenAt p 3) = RIGHT_SQUARE_BRACKET
                         \<and> Layout ro = (if Token.Type (tokenAt p 1) = MINUS_SIGN then 0x80 else 0) OR 0x2F
                         \<and> (\<exists>num. strToInt (getSubStr (Src p) (Token.Index (tokenAt p 2))
                                      (Token.Size (tokenAt p 2))) 0 = Inr (True, num)
                                \<and> drop_bit 32 num = 0 \<and> Immediate ro = ucast num)
                       else Token.Type (tokenAt p 2) = REGISTER_DEFINITION
                         \<and> Token.Type (tokenAt p 3) = ASTERISK
                         \<and> Token.Type (tokenAt p 5) = RIGHT_SQUARE_BRACKET
                         \<and> Layout ro = (if Token.Type (tokenAt p 1) = MINUS_SIGN then 0x80 else 0) OR 0x1F)))"
proof -
  obtain t0 q0 where e0: "eatToken p = Inr (t0, q0)"
    using run by (auto simp: parseRegOffset_def andThen_Inr_iff)
  have t0: "t0 = tokenAt p 0" and q0: "\<And>k. tokenAt q0 k = tokenAt p (Suc k)" and s0: "Src q0 = Src p"
    using eatToken_tokenAt [OF e0] by simp_all
  show ?thesis
  proof (cases "Token.Type t0 = IDENTIFIER")
    case True
    have "\<exists>t1 q1. eatToken q0 = Inr (t1, q1) \<and> Token.Type t1 = RIGHT_SQUARE_BRACKET
        \<and> instr1 = pushParam (RegisterOffsetNode (new_RegisterOffset\<lparr> Var := Some (new_Identifier (Token.Index t0) (Token.Size t0)
                                    (Token.LineRow t0) (Token.LineCol t0)
                                    (getSubStr (Src q0) (Token.Index t0) (Token.Size t0))) \<rparr>)) instr"
      using run True by (auto simp: parseRegOffset_def e0 andThen_Inr_iff Let_def split: if_splits)
    then obtain t1 q1 where e1: "eatToken q0 = Inr (t1, q1)" and b: "Token.Type t1 = RIGHT_SQUARE_BRACKET"
      and i: "instr1 = pushParam (RegisterOffsetNode (new_RegisterOffset\<lparr> Var := Some (new_Identifier (Token.Index t0) (Token.Size t0)
                                    (Token.LineRow t0) (Token.LineCol t0)
                                    (getSubStr (Src q0) (Token.Index t0) (Token.Size t0))) \<rparr>)) instr"
      by (elim exE conjE)
    have "t1 = tokenAt p 1"
      using eatToken_tokenAt(1) [OF e1] q0 [of 0] by simp
    then show ?thesis
      using True b by (simp add: t0 [symmetric] i pushParam_def new_RegisterOffset_def new_Identifier_def s0)
  next
    case False
    define ro0 where "ro0 = new_RegisterOffset\<lparr> Base := Some (new_RegisterId (Token.Index t0) (Token.Size t0)
                                       (Token.LineRow t0) (Token.LineCol t0) (Token.Tag t0)) \<rparr>"
    have "\<exists>t1 q1. Token.Type t0 = REGISTER_DEFINITION \<and> eatToken q0 = Inr (t1, q1)
              \<and> parseRegOffsetSign instr ro0 t1 q1 = Inr (True, instr1, p1)"
      using run False unfolding ro0_def
      by (auto simp: parseRegOffset_def e0 andThen_Inr_iff Let_def split: if_splits)
    then obtain t1 q1 where r: "Token.Type t0 = REGISTER_DEFINITION" and e1: "eatToken q0 = Inr (t1, q1)"
      and s: "parseRegOffsetSign instr ro0 t1 q1 = Inr (True, instr1, p1)"
      by (elim exE conjE)
    have t1: "t1 = tokenAt p 1" and q1: "\<And>k. tokenAt q1 k = tokenAt p (Suc (Suc k))" and s1: "Src q1 = Src p"
      using eatToken_tokenAt [OF e1] q0 s0 by simp_all
    have l0: "Layout ro0 = 0" and b0: "Base ro0 = Some (new_RegisterId (Token.Index t0) (Token.Size t0)
                                       (Token.LineRow t0) (Token.LineCol t0) (Token.Tag t0))"
      and v0: "Var ro0 = None"
      by (simp_all add: ro0_def new_RegisterOffset_def)
    have k0: "tokenAt q1 0 = tokenAt p 2" and k1: "tokenAt q1 1 = tokenAt p 3"
      and k3: "tokenAt q1 3 = tokenAt p 5"
      using q1 [of 0] q1 [of 1] q1 [of 3] by (simp_all add: eval_nat_numeral)
    have t1': "tokenAt p 1 = t1" using t1 by simp
    have t0': "tokenAt p 0 = t0" using t0 by simp
    from parseRegOffsetSign_True [OF s l0] obtain ro where
      ps: "Instruction.Params instr1 = Instruction.Params instr @ [RegisterOffsetNode ro]"
      and b: "Base ro = Base ro0" and v: "Var ro = Var ro0"
      and f: "if Token.Type t1 = RIGHT_SQUARE_BRACKET then Layout ro = 0x4F
               else (Token.Type t1 = PLUS_SIGN \<or> Token.Type t1 = MINUS_SIGN)
                 \<and> (if Token.Type (tokenAt q1 0) = INTEGER_NUMBER
                     then Token.Type (tokenAt q1 1) = RIGHT_SQUARE_BRACKET
                       \<and> Layout ro = (if Token.Type t1 = MINUS_SIGN then 0x80 else 0) OR 0x2F
                       \<and> (\<exists>num. strToInt (getSubStr (Src q1) (Token.Index (tokenAt q1 0))
                                    (Token.Size (tokenAt q1 0))) 0 = Inr (True, num)
                              \<and> drop_bit 32 num = 0 \<and> Immediate ro = ucast num)
                     else Token.Type (tokenAt q1 0) = REGISTER_DEFINITION
                       \<and> Token.Type (tokenAt q1 1) = ASTERISK
                       \<and> Token.Type (tokenAt q1 3) = RIGHT_SQUARE_BRACKET
                       \<and> Layout ro = (if Token.Type t1 = MINUS_SIGN then 0x80 else 0) OR 0x1F)"
      by (elim exE conjE)
    have bb: "\<exists>b. Base ro = Some b \<and> RegisterId.Id b = Token.Tag t0"
      by (simp add: b b0 new_RegisterId_def)
    have vv: "Var ro = None" by (simp add: v v0)
    show ?thesis
      apply (rule exI [of _ ro])
      apply (simp only: t0' t1' False if_False)
      apply (intro conjI ps r bb vv)
      apply (rule f [unfolded k0 k1 k3 s1])
      done
  qed
qed

lemma ex_ro_eval:
  "parseRegOffset ex_load ex_ro_parser =
     Inr (True,
          ex_load\<lparr> Instruction.Params :=
            [RegisterOffsetNode \<lparr> ASTNode.Index = 6, ASTNode.Size = 0, ASTNode.LineRow = 1, ASTNode.LineCol = 7,
               Layout = 0xAF, Base = Some (new_RegisterId 1 2 1 2 0x03), Offset = None,
               Immediate = 4, Var = None \<rparr>] \<rparr>,
          ex_ro_parser\<lparr> Cursor := 5 \<rparr>)"
  by (simp add: parseRegOffset_def parseRegOffsetSign_def parseRegOffsetImmediate_def
      ex_ro_parser_def ex_ro_tokens_def ex_load_def new_Parser_def new_Token_def new_Instruction_def
      new_RegisterOffset_def new_RegisterId_def registerTag_def ASM_REGISTERS_def
      eatToken_def peekToken_def andThen_def getRegisterType_def setPosition_def pushParam_def
      strToInt_def stoull_def getSubStr_def isSpace_def digitValue_def numberOf_def
      RO_LAYOUT_IR_INT_def Let_def)

lemma eatToken_advance:
  "Tokens p \<noteq> [] \<Longrightarrow> eatToken p = Inr (tokenAt p 0, advance p)"
  by (simp add: eatToken_def tokenAt_def advance_def)

lemma peekToken_tokenAt0:
  "Tokens p \<noteq> [] \<Longrightarrow> peekToken p = Inr (tokenAt p 0)"
  by (simp add: peekToken_def tokenAt_def)

lemma advance_fields:
  "Tokens (advance p) = Tokens p" "Src (advance p) = Src p" "Console (advance p) = Console p"
  "FileNode (advance p) = FileNode p"
  by (simp_all add: advance_def)

lemma tokenAt_advance: "tokenAt (advance p) k = tokenAt p (Suc k)"
  by (auto simp: advance_def tokenAt_def)

lemma tokenAt_advance_numeral:
  "tokenAt (advance p) 0 = tokenAt p 1"
  "tokenAt (advance (advance p)) 0 = tokenAt p 2"
  "tokenAt (advance (advance (advance p))) 0 = tokenAt p 3"
  "tokenAt (advance (advance (advance (advance p)))) 0 = tokenAt p 4"
  "tokenAt (advance (advance (advance (advance (advance p))))) 0 = tokenAt p 5"
  by (simp_all add: tokenAt_advance eval_nat_numeral)

lemmas advance_simps = advance_fields

text \<open>The variable form.\<close>

lemma parseRegOffset_accepts_raw_var:
  assumes "Tokens p \<noteq> []"
    and "Token.Type (tokenAt p 0) = IDENTIFIER"
    and "Token.Type (tokenAt (advance p) 0) = RIGHT_SQUARE_BRACKET"
  shows "parseRegOffset instr p =
     Inr (True,
          pushParam (RegisterOffsetNode (new_RegisterOffset
             \<lparr> Var := Some (new_Identifier (Token.Index (tokenAt p 0)) (Token.Size (tokenAt p 0))
                        (Token.LineRow (tokenAt p 0)) (Token.LineCol (tokenAt p 0))
                        (getSubStr (Src p) (Token.Index (tokenAt p 0)) (Token.Size (tokenAt p 0)))) \<rparr>)) instr,
          advance (advance p))"
  using assms
  by (simp add: parseRegOffset_def eatToken_advance advance_simps andThen_def Let_def)

text \<open>The register on its own.\<close>

lemma parseRegOffset_accepts_raw_reg:
  assumes "Tokens p \<noteq> []"
    and "Token.Type (tokenAt p 0) = REGISTER_DEFINITION"
    and "getRegisterType (Token.Tag (tokenAt p 0)) = INTEGER"
    and "Token.Type (tokenAt (advance p) 0) = RIGHT_SQUARE_BRACKET"
  shows "parseRegOffset instr p =
     Inr (True,
          pushParam (RegisterOffsetNode (setPosition (tokenAt (advance p) 0) (new_RegisterOffset
             \<lparr> Base := Some (new_RegisterId (Token.Index (tokenAt p 0)) (Token.Size (tokenAt p 0))
                        (Token.LineRow (tokenAt p 0)) (Token.LineCol (tokenAt p 0))
                        (Token.Tag (tokenAt p 0))) \<rparr>)
             \<lparr> Layout := 0x4F \<rparr>)) instr,
          advance (advance p))"
  using assms
  by (simp add: parseRegOffset_def parseRegOffsetSign_def eatToken_advance advance_simps andThen_def
      Let_def RO_LAYOUT_IR_def)

text \<open>A register and an immediate of 32 bits.\<close>

lemma parseRegOffset_accepts_raw_immediate:
  assumes "Tokens p \<noteq> []"
    and "Token.Type (tokenAt p 0) = REGISTER_DEFINITION"
    and "getRegisterType (Token.Tag (tokenAt p 0)) = INTEGER"
    and "Token.Type (tokenAt (advance p) 0) = PLUS_SIGN \<or> Token.Type (tokenAt (advance p) 0) = MINUS_SIGN"
    and "Token.Type (tokenAt (advance (advance p)) 0) = INTEGER_NUMBER"
    and "Token.Type (tokenAt (advance (advance (advance p))) 0) = RIGHT_SQUARE_BRACKET"
    and "strToInt (getSubStr (Src p) (Token.Index (tokenAt (advance (advance p)) 0)) (Token.Size (tokenAt (advance (advance p)) 0))) 0
           = Inr (True, num)"
    and "drop_bit 32 num = 0"
  shows "parseRegOffset instr p =
     Inr (True,
          pushParam (RegisterOffsetNode (setPosition (tokenAt (advance (advance p)) 0) (new_RegisterOffset
             \<lparr> Base := Some (new_RegisterId (Token.Index (tokenAt p 0)) (Token.Size (tokenAt p 0))
                        (Token.LineRow (tokenAt p 0)) (Token.LineCol (tokenAt p 0))
                        (Token.Tag (tokenAt p 0))),
               Immediate := ucast num \<rparr>)
             \<lparr> Layout := (if Token.Type (tokenAt (advance p) 0) = MINUS_SIGN then 0x80 else 0) OR 0x2F \<rparr>)) instr,
          advance (advance (advance (advance p))))"
  using assms
  by (auto simp: parseRegOffset_def parseRegOffsetSign_def parseRegOffsetImmediate_def
      eatToken_advance peekToken_tokenAt0 advance_simps andThen_def Let_def RO_LAYOUT_IR_INT_def
      new_RegisterOffset_def setPosition_def)

text \<open>A register and a register times an immediate of 16 bits.\<close>

lemma parseRegOffset_accepts_raw_factor:
  assumes "Tokens p \<noteq> []"
    and "Token.Type (tokenAt p 0) = REGISTER_DEFINITION"
    and "getRegisterType (Token.Tag (tokenAt p 0)) = INTEGER"
    and "Token.Type (tokenAt (advance p) 0) = PLUS_SIGN \<or> Token.Type (tokenAt (advance p) 0) = MINUS_SIGN"
    and "Token.Type (tokenAt (advance (advance p)) 0) = REGISTER_DEFINITION"
    and "getRegisterType (Token.Tag (tokenAt (advance (advance p)) 0)) = INTEGER"
    and "Token.Type (tokenAt (advance (advance (advance p))) 0) = ASTERISK"
    and "strToInt (getSubStr (Src p) (Token.Index (tokenAt (advance (advance (advance (advance p)))) 0)) (Token.Size (tokenAt (advance (advance (advance (advance p)))) 0))) 0
           = Inr (True, num)"
    and "drop_bit 16 num = 0"
    and "Token.Type (tokenAt (advance (advance (advance (advance (advance p))))) 0) = RIGHT_SQUARE_BRACKET"
  shows "parseRegOffset instr p =
     Inr (True,
          pushParam (RegisterOffsetNode (setPosition (tokenAt (advance (advance (advance (advance (advance p))))) 0) (new_RegisterOffset
             \<lparr> Base := Some (new_RegisterId (Token.Index (tokenAt p 0)) (Token.Size (tokenAt p 0))
                        (Token.LineRow (tokenAt p 0)) (Token.LineCol (tokenAt p 0))
                        (Token.Tag (tokenAt p 0))),
               Offset := Some (new_RegisterId (Token.Index (tokenAt (advance (advance p)) 0)) (Token.Size (tokenAt (advance (advance p)) 0))
                        (Token.LineRow (tokenAt (advance (advance p)) 0)) (Token.LineCol (tokenAt (advance (advance p)) 0))
                        (Token.Tag (tokenAt (advance (advance p)) 0))),
               Immediate := ROInt_set_U16 (ucast num) 0 \<rparr>)
             \<lparr> Layout := (if Token.Type (tokenAt (advance p) 0) = MINUS_SIGN then 0x80 else 0) OR 0x1F \<rparr>)) instr,
          advance (advance (advance (advance (advance (advance p))))))"
  using assms
  by (auto simp: parseRegOffset_def parseRegOffsetSign_def parseRegOffsetFactor_def
      eatToken_advance advance_simps andThen_def Let_def RO_LAYOUT_IR_IR_INT_def
      new_RegisterOffset_def setPosition_def)

lemmas parseRegOffset_accepts_var = parseRegOffset_accepts_raw_var [unfolded tokenAt_advance_numeral(5), unfolded tokenAt_advance_numeral(4),
    unfolded tokenAt_advance_numeral(3), unfolded tokenAt_advance_numeral(2),
    unfolded tokenAt_advance_numeral(1)]
lemmas parseRegOffset_accepts_reg = parseRegOffset_accepts_raw_reg [unfolded tokenAt_advance_numeral(5), unfolded tokenAt_advance_numeral(4),
    unfolded tokenAt_advance_numeral(3), unfolded tokenAt_advance_numeral(2),
    unfolded tokenAt_advance_numeral(1)]
lemmas parseRegOffset_accepts_immediate =
  parseRegOffset_accepts_raw_immediate [unfolded tokenAt_advance_numeral(5), unfolded tokenAt_advance_numeral(4),
    unfolded tokenAt_advance_numeral(3), unfolded tokenAt_advance_numeral(2),
    unfolded tokenAt_advance_numeral(1)]
lemmas parseRegOffset_accepts_factor =
  parseRegOffset_accepts_raw_factor [unfolded tokenAt_advance_numeral(5), unfolded tokenAt_advance_numeral(4),
    unfolded tokenAt_advance_numeral(3), unfolded tokenAt_advance_numeral(2),
    unfolded tokenAt_advance_numeral(1)]

lemma drop_bit_0_bit:
  fixes num :: u64
  assumes "drop_bit k num = 0" and "k \<le> n"
  shows "\<not> bit num n"
proof -
  have "bit (drop_bit k num) (n - k) = bit num n"
    using assms(2) by (simp add: bit_drop_bit_eq)
  then show ?thesis using assms(1) by simp
qed

lemma ROInt_set_U16_low:
  fixes num :: u64
  assumes "drop_bit 16 num = 0"
  shows "ROInt_set_U16 (ucast num) 0 = ucast num"
proof -
  have "(ucast (ucast num :: u16) :: u32) = ucast num"
  proof (rule bit_word_eqI)
    fix n assume "n < LENGTH(32)"
    show "bit (ucast (ucast num :: u16) :: u32) n = bit (ucast num :: u32) n"
      using drop_bit_0_bit [OF assms, of n] by (cases "16 \<le> n") (auto simp: bit_simps)
  qed
  then show ?thesis
    by (simp add: ROInt_set_U16_def)
qed
lemma parseRegOffset_complete:
  assumes tk: "Tokens p \<noteq> []"
  shows "(Token.Type (tokenAt p 0) = IDENTIFIER \<and> Token.Type (tokenAt p 1) = RIGHT_SQUARE_BRACKET \<longrightarrow>
           (\<exists>ro p1 v. parseRegOffset instr p = Inr (True, pushParam (RegisterOffsetNode ro) instr, p1)
              \<and> Layout ro = 0 \<and> Base ro = None \<and> Offset ro = None \<and> Var ro = Some v
              \<and> Identifier.Name v = getSubStr (Src p) (Token.Index (tokenAt p 0)) (Token.Size (tokenAt p 0))))"
    and "(Token.Type (tokenAt p 0) = REGISTER_DEFINITION
          \<and> getRegisterType (Token.Tag (tokenAt p 0)) = INTEGER
          \<and> Token.Type (tokenAt p 1) = RIGHT_SQUARE_BRACKET \<longrightarrow>
           (\<exists>ro p1 b. parseRegOffset instr p = Inr (True, pushParam (RegisterOffsetNode ro) instr, p1)
              \<and> Layout ro = 0x4F \<and> Base ro = Some b \<and> RegisterId.Id b = Token.Tag (tokenAt p 0)
              \<and> Offset ro = None \<and> Var ro = None))"
    and "(Token.Type (tokenAt p 0) = REGISTER_DEFINITION
          \<and> getRegisterType (Token.Tag (tokenAt p 0)) = INTEGER
          \<and> (Token.Type (tokenAt p 1) = PLUS_SIGN \<or> Token.Type (tokenAt p 1) = MINUS_SIGN)
          \<and> Token.Type (tokenAt p 2) = INTEGER_NUMBER
          \<and> Token.Type (tokenAt p 3) = RIGHT_SQUARE_BRACKET
          \<and> strToInt (getSubStr (Src p) (Token.Index (tokenAt p 2)) (Token.Size (tokenAt p 2))) 0
               = Inr (True, num)
          \<and> drop_bit 32 num = 0 \<longrightarrow>
           (\<exists>ro p1 b. parseRegOffset instr p = Inr (True, pushParam (RegisterOffsetNode ro) instr, p1)
              \<and> Layout ro = (if Token.Type (tokenAt p 1) = MINUS_SIGN then 0x80 else 0) OR 0x2F
              \<and> Base ro = Some b \<and> RegisterId.Id b = Token.Tag (tokenAt p 0)
              \<and> Offset ro = None \<and> Var ro = None \<and> Immediate ro = ucast num))"
    and "(Token.Type (tokenAt p 0) = REGISTER_DEFINITION
          \<and> getRegisterType (Token.Tag (tokenAt p 0)) = INTEGER
          \<and> (Token.Type (tokenAt p 1) = PLUS_SIGN \<or> Token.Type (tokenAt p 1) = MINUS_SIGN)
          \<and> Token.Type (tokenAt p 2) = REGISTER_DEFINITION
          \<and> getRegisterType (Token.Tag (tokenAt p 2)) = INTEGER
          \<and> Token.Type (tokenAt p 3) = ASTERISK
          \<and> strToInt (getSubStr (Src p) (Token.Index (tokenAt p 4)) (Token.Size (tokenAt p 4))) 0
               = Inr (True, num)
          \<and> drop_bit 16 num = 0
          \<and> Token.Type (tokenAt p 5) = RIGHT_SQUARE_BRACKET \<longrightarrow>
           (\<exists>ro p1 b off. parseRegOffset instr p = Inr (True, pushParam (RegisterOffsetNode ro) instr, p1)
              \<and> Layout ro = (if Token.Type (tokenAt p 1) = MINUS_SIGN then 0x80 else 0) OR 0x1F
              \<and> Base ro = Some b \<and> RegisterId.Id b = Token.Tag (tokenAt p 0)
              \<and> Offset ro = Some off \<and> RegisterId.Id off = Token.Tag (tokenAt p 2)
              \<and> Var ro = None \<and> Immediate ro = ucast num))"
proof -
  show "(Token.Type (tokenAt p 0) = IDENTIFIER \<and> Token.Type (tokenAt p 1) = RIGHT_SQUARE_BRACKET \<longrightarrow>
           (\<exists>ro p1 v. parseRegOffset instr p = Inr (True, pushParam (RegisterOffsetNode ro) instr, p1)
              \<and> Layout ro = 0 \<and> Base ro = None \<and> Offset ro = None \<and> Var ro = Some v
              \<and> Identifier.Name v = getSubStr (Src p) (Token.Index (tokenAt p 0)) (Token.Size (tokenAt p 0))))"
  proof (intro impI, elim conjE)
    assume a: "Token.Type (tokenAt p 0) = IDENTIFIER" "Token.Type (tokenAt p 1) = RIGHT_SQUARE_BRACKET"
    show "\<exists>ro p1 v. parseRegOffset instr p = Inr (True, pushParam (RegisterOffsetNode ro) instr, p1)
              \<and> Layout ro = 0 \<and> Base ro = None \<and> Offset ro = None \<and> Var ro = Some v
              \<and> Identifier.Name v = getSubStr (Src p) (Token.Index (tokenAt p 0)) (Token.Size (tokenAt p 0))"
      by (intro exI conjI, rule parseRegOffset_accepts_var [OF tk a])
         (simp add: new_RegisterOffset_def new_Identifier_def)+
  qed
  show "(Token.Type (tokenAt p 0) = REGISTER_DEFINITION
          \<and> getRegisterType (Token.Tag (tokenAt p 0)) = INTEGER
          \<and> Token.Type (tokenAt p 1) = RIGHT_SQUARE_BRACKET \<longrightarrow>
           (\<exists>ro p1 b. parseRegOffset instr p = Inr (True, pushParam (RegisterOffsetNode ro) instr, p1)
              \<and> Layout ro = 0x4F \<and> Base ro = Some b \<and> RegisterId.Id b = Token.Tag (tokenAt p 0)
              \<and> Offset ro = None \<and> Var ro = None))"
  proof (intro impI, elim conjE)
    assume a: "Token.Type (tokenAt p 0) = REGISTER_DEFINITION"
      "getRegisterType (Token.Tag (tokenAt p 0)) = INTEGER"
      "Token.Type (tokenAt p 1) = RIGHT_SQUARE_BRACKET"
    show "\<exists>ro p1 b. parseRegOffset instr p = Inr (True, pushParam (RegisterOffsetNode ro) instr, p1)
              \<and> Layout ro = 0x4F \<and> Base ro = Some b \<and> RegisterId.Id b = Token.Tag (tokenAt p 0)
              \<and> Offset ro = None \<and> Var ro = None"
      by (intro exI conjI, rule parseRegOffset_accepts_reg [OF tk a])
         (simp add: new_RegisterOffset_def new_RegisterId_def setPosition_def)+
  qed
  show "(Token.Type (tokenAt p 0) = REGISTER_DEFINITION
          \<and> getRegisterType (Token.Tag (tokenAt p 0)) = INTEGER
          \<and> (Token.Type (tokenAt p 1) = PLUS_SIGN \<or> Token.Type (tokenAt p 1) = MINUS_SIGN)
          \<and> Token.Type (tokenAt p 2) = INTEGER_NUMBER
          \<and> Token.Type (tokenAt p 3) = RIGHT_SQUARE_BRACKET
          \<and> strToInt (getSubStr (Src p) (Token.Index (tokenAt p 2)) (Token.Size (tokenAt p 2))) 0
               = Inr (True, num)
          \<and> drop_bit 32 num = 0 \<longrightarrow>
           (\<exists>ro p1 b. parseRegOffset instr p = Inr (True, pushParam (RegisterOffsetNode ro) instr, p1)
              \<and> Layout ro = (if Token.Type (tokenAt p 1) = MINUS_SIGN then 0x80 else 0) OR 0x2F
              \<and> Base ro = Some b \<and> RegisterId.Id b = Token.Tag (tokenAt p 0)
              \<and> Offset ro = None \<and> Var ro = None \<and> Immediate ro = ucast num))"
  proof (intro impI, elim conjE)
    assume a: "Token.Type (tokenAt p 0) = REGISTER_DEFINITION"
      "getRegisterType (Token.Tag (tokenAt p 0)) = INTEGER"
      "Token.Type (tokenAt p 1) = PLUS_SIGN \<or> Token.Type (tokenAt p 1) = MINUS_SIGN"
      "Token.Type (tokenAt p 2) = INTEGER_NUMBER"
      "Token.Type (tokenAt p 3) = RIGHT_SQUARE_BRACKET"
      "strToInt (getSubStr (Src p) (Token.Index (tokenAt p 2)) (Token.Size (tokenAt p 2))) 0
               = Inr (True, num)"
      "drop_bit 32 num = 0"
    show "\<exists>ro p1 b. parseRegOffset instr p = Inr (True, pushParam (RegisterOffsetNode ro) instr, p1)
              \<and> Layout ro = (if Token.Type (tokenAt p 1) = MINUS_SIGN then 0x80 else 0) OR 0x2F
              \<and> Base ro = Some b \<and> RegisterId.Id b = Token.Tag (tokenAt p 0)
              \<and> Offset ro = None \<and> Var ro = None \<and> Immediate ro = ucast num"
      by (intro exI conjI, rule parseRegOffset_accepts_immediate [OF tk a])
         (simp add: new_RegisterOffset_def new_RegisterId_def setPosition_def)+
  qed
  show "(Token.Type (tokenAt p 0) = REGISTER_DEFINITION
          \<and> getRegisterType (Token.Tag (tokenAt p 0)) = INTEGER
          \<and> (Token.Type (tokenAt p 1) = PLUS_SIGN \<or> Token.Type (tokenAt p 1) = MINUS_SIGN)
          \<and> Token.Type (tokenAt p 2) = REGISTER_DEFINITION
          \<and> getRegisterType (Token.Tag (tokenAt p 2)) = INTEGER
          \<and> Token.Type (tokenAt p 3) = ASTERISK
          \<and> strToInt (getSubStr (Src p) (Token.Index (tokenAt p 4)) (Token.Size (tokenAt p 4))) 0
               = Inr (True, num)
          \<and> drop_bit 16 num = 0
          \<and> Token.Type (tokenAt p 5) = RIGHT_SQUARE_BRACKET \<longrightarrow>
           (\<exists>ro p1 b off. parseRegOffset instr p = Inr (True, pushParam (RegisterOffsetNode ro) instr, p1)
              \<and> Layout ro = (if Token.Type (tokenAt p 1) = MINUS_SIGN then 0x80 else 0) OR 0x1F
              \<and> Base ro = Some b \<and> RegisterId.Id b = Token.Tag (tokenAt p 0)
              \<and> Offset ro = Some off \<and> RegisterId.Id off = Token.Tag (tokenAt p 2)
              \<and> Var ro = None \<and> Immediate ro = ucast num))"
  proof (intro impI, elim conjE)
    assume a: "Token.Type (tokenAt p 0) = REGISTER_DEFINITION"
      "getRegisterType (Token.Tag (tokenAt p 0)) = INTEGER"
      "Token.Type (tokenAt p 1) = PLUS_SIGN \<or> Token.Type (tokenAt p 1) = MINUS_SIGN"
      "Token.Type (tokenAt p 2) = REGISTER_DEFINITION"
      "getRegisterType (Token.Tag (tokenAt p 2)) = INTEGER"
      "Token.Type (tokenAt p 3) = ASTERISK"
      "strToInt (getSubStr (Src p) (Token.Index (tokenAt p 4)) (Token.Size (tokenAt p 4))) 0
               = Inr (True, num)"
      "drop_bit 16 num = 0"
      "Token.Type (tokenAt p 5) = RIGHT_SQUARE_BRACKET"
    note low = ROInt_set_U16_low [OF a(8)]
    show "\<exists>ro p1 b off. parseRegOffset instr p = Inr (True, pushParam (RegisterOffsetNode ro) instr, p1)
              \<and> Layout ro = (if Token.Type (tokenAt p 1) = MINUS_SIGN then 0x80 else 0) OR 0x1F
              \<and> Base ro = Some b \<and> RegisterId.Id b = Token.Tag (tokenAt p 0)
              \<and> Offset ro = Some off \<and> RegisterId.Id off = Token.Tag (tokenAt p 2)
              \<and> Var ro = None \<and> Immediate ro = ucast num"
      by (intro exI conjI, rule parseRegOffset_accepts_factor [OF tk a])
         (simp add: new_RegisterOffset_def new_RegisterId_def setPosition_def low)+
  qed
qed

lemma ex_ro_tokens_facts:
  "Tokens ex_ro_parser \<noteq> []"
  "Token.Type (tokenAt ex_ro_parser 0) = REGISTER_DEFINITION"
  "Token.Tag (tokenAt ex_ro_parser 0) = 0x03"
  "Token.Type (tokenAt ex_ro_parser 1) = MINUS_SIGN"
  "Token.Type (tokenAt ex_ro_parser 2) = INTEGER_NUMBER"
  "Token.Type (tokenAt ex_ro_parser 3) = RIGHT_SQUARE_BRACKET"
  by (simp_all add: tokenAt_def ex_ro_parser_def ex_ro_tokens_def new_Parser_def new_Token_def
      registerTag_def ASM_REGISTERS_def)

lemma ex_ro_reg_facts:
  "Tokens ex_ro_reg \<noteq> []"
  "Token.Type (tokenAt ex_ro_reg 0) = REGISTER_DEFINITION"
  "Token.Tag (tokenAt ex_ro_reg 0) = 0x05"
  "Token.Type (tokenAt ex_ro_reg 1) = RIGHT_SQUARE_BRACKET"
  by (simp_all add: tokenAt_def ex_ro_reg_def new_Parser_def new_Token_def
      registerTag_def ASM_REGISTERS_def)

lemma ex_ro_var_facts:
  "Tokens ex_ro_var \<noteq> []"
  "Token.Type (tokenAt ex_ro_var 0) = IDENTIFIER"
  "Token.Type (tokenAt ex_ro_var 1) = RIGHT_SQUARE_BRACKET"
  "getSubStr (Src ex_ro_var) (Token.Index (tokenAt ex_ro_var 0)) (Token.Size (tokenAt ex_ro_var 0))
     = ''counter''"
  by (simp_all add: tokenAt_def ex_ro_var_def new_Parser_def new_Token_def getSubStr_def)

lemma ex_ro_plus_facts:
  "Tokens ex_ro_plus \<noteq> []"
  "Token.Type (tokenAt ex_ro_plus 0) = REGISTER_DEFINITION"
  "Token.Tag (tokenAt ex_ro_plus 0) = 0x05"
  "Token.Type (tokenAt ex_ro_plus 1) = PLUS_SIGN"
  "Token.Type (tokenAt ex_ro_plus 2) = INTEGER_NUMBER"
  "Token.Type (tokenAt ex_ro_plus 3) = RIGHT_SQUARE_BRACKET"
  "strToInt (getSubStr (Src ex_ro_plus) (Token.Index (tokenAt ex_ro_plus 2))
     (Token.Size (tokenAt ex_ro_plus 2))) 0 = Inr (True, 8)"
  by (simp_all add: tokenAt_def ex_ro_plus_def new_Parser_def new_Token_def
      registerTag_def ASM_REGISTERS_def getSubStr_def strToInt_def stoull_def isSpace_def
      digitValue_def numberOf_def Let_def)

lemma ex_ro_factor_facts:
  "Tokens ex_ro_factor \<noteq> []"
  "Token.Type (tokenAt ex_ro_factor 0) = REGISTER_DEFINITION"
  "Token.Tag (tokenAt ex_ro_factor 0) = 0x05"
  "Token.Type (tokenAt ex_ro_factor 1) = MINUS_SIGN"
  "Token.Type (tokenAt ex_ro_factor 2) = REGISTER_DEFINITION"
  "Token.Tag (tokenAt ex_ro_factor 2) = 0x06"
  "Token.Type (tokenAt ex_ro_factor 3) = ASTERISK"
  "strToInt (getSubStr (Src ex_ro_factor) (Token.Index (tokenAt ex_ro_factor 4))
     (Token.Size (tokenAt ex_ro_factor 4))) 0 = Inr (True, 65535)"
  "Token.Type (tokenAt ex_ro_factor 5) = RIGHT_SQUARE_BRACKET"
  by (simp_all add: tokenAt_def ex_ro_factor_def new_Parser_def new_Token_def
      registerTag_def ASM_REGISTERS_def getSubStr_def strToInt_def stoull_def isSpace_def
      digitValue_def numberOf_def Let_def)

lemma integer_registers:
  "getRegisterType 0x03 = INTEGER" "getRegisterType 0x05 = INTEGER" "getRegisterType 0x06 = INTEGER"
  by (simp_all add: getRegisterType_def)

lemma pushParam_Params:
  "Instruction.Params (pushParam n instr) = Instruction.Params instr @ [n]"
  by (simp add: pushParam_def)

section \<open>The sign of a number\<close>

lemma andThen_Inr: "andThen (Inr x) f = f x"
  by (simp add: andThen_def)

lemma andThen_Inl: "andThen (Inl e) f = Inl e"
  by (simp add: andThen_def)

lemma andThen_weak_cong: "m = m' \<Longrightarrow> andThen m f = andThen m' f"
  by simp

lemma andThenLoop_Inr: "andThenLoop (Inr x) f = f x"
  by (simp add: andThenLoop_def)

lemma andThenLoop_Inl: "andThenLoop (Inl e) f = Some (Inl e)"
  by (simp add: andThenLoop_def)

lemma andThenLoop_weak_cong: "m = m' \<Longrightarrow> andThenLoop m f = andThenLoop m' f"
  by simp

lemma loopThen_None: "loopThen None f = None"
  by (simp add: loopThen_def)

lemma loopThen_Inl: "loopThen (Some (Inl e)) f = Some (Inl e)"
  by (simp add: loopThen_def)

lemma loopThen_Inr: "loopThen (Some (Inr x)) f = f x"
  by (simp add: loopThen_def)

lemma loopThen_weak_cong: "m = m' \<Longrightarrow> loopThen m f = loopThen m' f"
  by simp

lemmas run_simps =
  andThen_Inr andThen_Inl andThenLoop_Inr andThenLoop_Inl loopThen_None loopThen_Inl loopThen_Inr

lemmas run_congs = andThen_weak_cong andThenLoop_weak_cong loopThen_weak_cong

lemma buildASTLoop_numeral:
  "buildASTLoop c stod (numeral k) currentToken p =
     (if Token.Type currentToken = END_OF_FILE then Some (Inr (True, p))
      else loopThen (buildSection c stod (pred_numeral k) currentToken p) (\<lambda>step.
             case step of
               BuildBreak p1 \<Rightarrow> Some (Inr (False, p1))
             | BuildNext tok p1 \<Rightarrow> buildASTLoop c stod (pred_numeral k) tok p1))"
  by (subst numeral_eq_Suc) (rule buildASTLoop.simps(2))

lemma parseSectionCodeLoop_numeral:
  "parseSectionCodeLoop stod (numeral k) state instr p =
     (if state = END then Some (Inr (True, p))
      else andThenLoop (eatToken p) (\<lambda>(t, p).
             loopThen (case state of
                         GLOBAL_SCOPE \<Rightarrow> Some (globalScope t instr p)
                       | INSTR_BODY \<Rightarrow> instrBody stod (pred_numeral k) t instr p
                       | _ \<Rightarrow> Some (Inr (CodeNext state instr p)))
               (\<lambda>step. case step of
                          CodeReturn p1 \<Rightarrow> Some (Inr (False, p1))
                        | CodeNext state1 instr1 p1 \<Rightarrow>
                            parseSectionCodeLoop stod (pred_numeral k) state1 instr1 p1)))"
  by (subst numeral_eq_Suc) (rule parseSectionCodeLoop.simps(2))

lemma operandLoop_numeral:
  "operandLoop stod (numeral k) t instr p =
     andThenLoop (operandStep stod t instr p) (\<lambda>step.
       case step of
         OperandReturn instr1 p1 \<Rightarrow> Some (Inr (False, instr1, p1))
       | OperandNext t1 instr1 p1 endOfParamList \<Rightarrow>
           if endOfParamList then Some (Inr (True, instr1, p1))
           else operandLoop stod (pred_numeral k) t1 instr1 p1)"
  by (subst numeral_eq_Suc) (rule operandLoop.simps(2))

lemma parseSectionVarsLoop_numeral:
  "parseSectionVarsLoop c stod (numeral k) tok sec p =
     (if Token.Type tok = RIGHT_CURLY_BRACKET then Some (Inr (True, sec, p))
      else andThenLoop (parseVarDecl c stod tok sec p) (\<lambda>step.
             case step of
               VarBreak p1 \<Rightarrow> Some (Inr (False, sec, p1))
             | VarNext tok1 sec1 p1 \<Rightarrow> parseSectionVarsLoop c stod (pred_numeral k) tok1 sec1 p1))"
  by (subst numeral_eq_Suc) (rule parseSectionVarsLoop.simps(2))

lemmas parser_defs =
  buildASTLoop_numeral parseSectionCodeLoop_numeral operandLoop_numeral parseSectionVarsLoop_numeral
  Let_def
  buildAST_def buildSection_def nextSection_def parseSectionCode_def globalScope_def instrBody_def
  operandStep_def afterOperand_def parseOperand_def operandInt_def pushCode_def loadInstr_def storeInstr_def
  eatToken_def peekToken_def printTokenError_def printError_def run_simps getSubStr_def getChar_def pushParam_def
  new_Parser_def new_Token_def new_ASTFileNode_def new_ASTSection_def new_Instruction_def
  new_TypeInfo_def new_ASTInt_def

lemma ex_comma_gap_eval:
  "\<exists>q. buildAST c no_floats 10 (ex_comma_gap_parser c) = Some (Inr (False, q))
       \<and> Console q = [TokenError ''Expected parameter'' 19 1 2 13]"
  by (simp add: parser_defs ex_comma_gap_parser_def ex_comma_gap_tokens_def ex_comma_gap_src_def
      cong: run_congs)

lemma ex_gap_eval:
  "\<exists>q. buildAST c no_floats 10 (ex_gap_parser c) = Some (Inr (False, q))
       \<and> Console q = [TokenError ''Unexpected operator'' 20 1 2 14]"
  by (simp add: parser_defs ex_gap_parser_def ex_gap_tokens_def ex_gap_src_def
      cong: run_congs)

lemma ex_adjacent_eval:
  "\<exists>q. buildAST c no_floats 10 (ex_adjacent_parser c) = Some (Inr (True, q))
       \<and> Console q = []
       \<and> bodyOf (SecCode (FileNode q)) =
           [InstructionNode ((new_Instruction 11 4 2 5 ''push'' 1)
              \<lparr> Instruction.Params := [TypeInfoNode (new_TypeInfo 16 3 2 10 (UVM_TYPE_I32 c)),
                                       IntNode (new_ASTInt 21 1 2 15 (- 1) True)] \<rparr>)]"
  by (simp add: parser_defs ex_adjacent_parser_def ex_adjacent_tokens_def ex_adjacent_src_def
      strToInt_def stoull_def isSpace_def digitValue_def numberOf_def bodyOf_def
      cong: run_congs)

lemma ex_var_gap_eval:
  "\<exists>q. buildAST c no_floats 10 (ex_var_gap_parser c) = Some (Inr (False, q))
       \<and> Console q = [TokenError ''Unexpected operator'' 29 1 2 21,
                       ConsoleLine ''Error: could not find code section'']"
  by (simp add: parser_defs ex_var_gap_parser_def ex_var_gap_tokens_def ex_var_gap_src_def
      parseSectionVars_def parseVarDecl_def parseVarValue_def printLine_def new_Identifier_def
      cong: run_congs)

lemma eatToken_Src: "eatToken p = Inr (t, p1) \<Longrightarrow> Src p1 = Src p"
  by (auto simp: eatToken_def split: if_splits)

lemma printTokenError_message:
  "printTokenError m1 t1 q = printTokenError m2 t2 q \<Longrightarrow> m1 = m2"
proof -
  assume "printTokenError m1 t1 q = printTokenError m2 t2 q"
  then have "Console (printTokenError m1 t1 q) = Console (printTokenError m2 t2 q)" by simp
  then show ?thesis by (simp add: printTokenError_def printError_def)
qed

lemma operandStep_sign:
  assumes sg: "Token.Type s = PLUS_SIGN \<or> Token.Type s = MINUS_SIGN"
    and nx: "eatToken p = Inr (t, p1)"
  shows "operandStep stod s instr p =
     (if Token.Type t \<noteq> INTEGER_NUMBER \<and> Token.Type t \<noteq> FLOAT_NUMBER
      then Inr (OperandReturn instr (printTokenError ''Unexpected operator'' s p1))
      else if Token.Index s + 1 \<noteq> Token.Index t
      then Inr (OperandReturn instr (printTokenError ''Unexpected operator'' s p1))
      else if Token.Type t = INTEGER_NUMBER
      then andThen (operandInt t (getChar (Src p) (Token.Index s)
                                    # getSubStr (Src p) (Token.Index t) (Token.Size t))
                      (Token.Type s = MINUS_SIGN) instr p1) afterOperand
      else afterOperand (operandFloat stod t (getChar (Src p) (Token.Index s)
                                    # getSubStr (Src p) (Token.Index t) (Token.Size t)) instr p1))"
proof -
  note src = eatToken_Src [OF nx]
  show ?thesis
  proof (cases "Token.Type t = INTEGER_NUMBER")
    case True
    then show ?thesis
      using sg by (auto simp: operandStep_def nx andThen_Inr parseOperand_def src afterOperand_def)
  next
    case False
    show ?thesis
    proof (cases "Token.Type t = FLOAT_NUMBER")
      case True
      then show ?thesis
        using sg by (auto simp: operandStep_def nx andThen_Inr parseOperand_def src afterOperand_def)
    next
      case f: False
      then show ?thesis
        using sg False by (auto simp: operandStep_def nx andThen_Inr)
    qed
  qed
qed

lemma parseVarValue_sign:
  assumes sg: "Token.Type s = PLUS_SIGN \<or> Token.Type s = MINUS_SIGN"
    and nx: "eatToken p = Inr (t, p1)"
    and lit: "Token.Type t = INTEGER_NUMBER \<or> Token.Type t = FLOAT_NUMBER"
  shows "parseVarValue c stod typeInfo s p =
     (if Token.Index s + 1 \<noteq> Token.Index t
      then Inr (None, printTokenError ''Unexpected operator'' s p1)
      else if Token.Type t = INTEGER_NUMBER
      then varIntValue c typeInfo t (getChar (Src p) (Token.Index s)
                                      # getSubStr (Src p) (Token.Index t) (Token.Size t))
             (Token.Type s = MINUS_SIGN) p1
      else Inr (varFloatValue c stod typeInfo t (getChar (Src p) (Token.Index s)
                                      # getSubStr (Src p) (Token.Index t) (Token.Size t)) p1))"
proof -
  note src = eatToken_Src [OF nx]
  show ?thesis
    using sg lit by (auto simp: parseVarValue_def nx andThen_Inr src Let_def)
qed

lemma afterOperand_not_returned:
  "afterOperand (True, i, q) \<noteq> Inr (OperandReturn i' q')"
  by (auto simp: afterOperand_def andThen_def split: sum.splits prod.splits)

lemma afterOperand_True_Next:
  "afterOperand (True, i, q) = Inr (OperandNext t' i' q' e) \<Longrightarrow> i' = i"
  by (auto simp: afterOperand_def andThen_def split: sum.splits prod.splits if_splits)

lemma afterOperand_False:
  "afterOperand (False, i, q) = Inr (OperandReturn i q)"
  by (simp add: afterOperand_def)

lemma eatToken_total:
  "eatToken p = Inr (t, p1) \<Longrightarrow> \<exists>t' p'. eatToken p1 = Inr (t', p') \<and> (\<exists>t'' p''. eatToken p' = Inr (t'', p''))"
  by (auto simp: eatToken_def split: if_splits)

lemma afterOperand_accepts:
  assumes "eatToken p = Inr (t, p1)"
  shows "\<exists>t' q e. afterOperand (True, i, p1) = Inr (OperandNext t' i q e)"
proof -
  from eatToken_total [OF assms] obtain t1 q1 t2 q2 where
    a: "eatToken p1 = Inr (t1, q1)" and b: "eatToken q1 = Inr (t2, q2)"
    by blast
  show ?thesis
    by (auto simp: afterOperand_def a b andThen_Inr)
qed

lemma operandInt_cases:
  "operandInt t str isSigned instr q =
     (case strToInt str 0 of
        Inl f \<Rightarrow> Inl f
      | Inr (ok, num) \<Rightarrow>
          if ok then Inr (True, pushParam (IntNode (new_ASTInt (Token.Index t) (Token.Size t)
                            (Token.LineRow t) (Token.LineCol t) num isSigned)) instr, q)
          else Inr (False, instr, printTokenError ''Integer does not fit into 64-bit value'' t q))"
  by (simp add: operandInt_def andThen_def split: sum.splits prod.splits)

lemma operandFloat_cases:
  "operandFloat stod t str instr q =
     (case stod str of
        Converted d \<Rightarrow> (True, pushParam (FloatNode (new_ASTFloat (Token.Index t) (Token.Size t)
                            (Token.LineRow t) (Token.LineCol t) d)) instr, q)
      | _ \<Rightarrow> (False, instr, printTokenError ''Float does not fit into 64-bit value'' t q))"
  by (simp add: operandFloat_def strToFP_def split: Conversion.splits)

lemma operand_rejected_iff:
  assumes sg: "Token.Type s = PLUS_SIGN \<or> Token.Type s = MINUS_SIGN"
    and nx: "eatToken p = Inr (t, p1)"
    and lit: "Token.Type t = INTEGER_NUMBER \<or> Token.Type t = FLOAT_NUMBER"
  shows "(operandStep stod s instr p
            = Inr (OperandReturn instr (printTokenError ''Unexpected operator'' s p1)))
         = (Token.Index s + 1 \<noteq> Token.Index t)"
proof (cases "Token.Index s + 1 = Token.Index t")
  case False
  then show ?thesis using lit by (simp add: operandStep_sign [OF sg nx])
next
  case True
  let ?str = "getChar (Src p) (Token.Index s) # getSubStr (Src p) (Token.Index t) (Token.Size t)"
  have "operandStep stod s instr p
          \<noteq> Inr (OperandReturn instr (printTokenError ''Unexpected operator'' s p1))"
  proof (cases "Token.Type t = INTEGER_NUMBER")
    case i: True
    show ?thesis
    proof (cases "strToInt ?str 0")
      case (Inl f)
      then show ?thesis
        by (simp add: operandStep_sign [OF sg nx] True i operandInt_cases andThen_def)
    next
      case (Inr r)
      obtain ok num where r: "r = (ok, num)" by (cases r)
      show ?thesis
      proof (cases ok)
        case True
        then show ?thesis
          using afterOperand_not_returned
          by (simp add: operandStep_sign [OF sg nx] \<open>Token.Index s + 1 = Token.Index t\<close> i
              operandInt_cases Inr r andThen_def)
      next
        case False
        have "printTokenError ''Integer does not fit into 64-bit value'' t p1
              \<noteq> printTokenError ''Unexpected operator'' s p1"
          using printTokenError_message by fastforce
        then show ?thesis
          using False
          by (simp add: operandStep_sign [OF sg nx] \<open>Token.Index s + 1 = Token.Index t\<close> i
              operandInt_cases Inr r andThen_def afterOperand_False)
      qed
    qed
  next
    case i: False
    then have f: "Token.Type t = FLOAT_NUMBER" using lit by simp
    have ne: "printTokenError ''Float does not fit into 64-bit value'' t p1
              \<noteq> printTokenError ''Unexpected operator'' s p1"
      using printTokenError_message by fastforce
    show ?thesis
      using afterOperand_not_returned ne
      by (cases "stod ?str")
         (simp_all add: operandStep_sign [OF sg nx] True i f operandFloat_cases afterOperand_False)
  qed
  then show ?thesis using True by simp
qed

lemma operand_accepted:
  assumes sg: "Token.Type s = PLUS_SIGN \<or> Token.Type s = MINUS_SIGN"
    and nx: "eatToken p = Inr (t, p1)"
    and lit: "Token.Type t = INTEGER_NUMBER \<or> Token.Type t = FLOAT_NUMBER"
    and run: "operandStep stod s instr p = Inr (OperandNext t' i q e)"
  shows "Token.Index s + 1 = Token.Index t
     \<and> (if Token.Type t = INTEGER_NUMBER
        then \<exists>num. strToInt (getChar (Src p) (Token.Index s)
                               # getSubStr (Src p) (Token.Index t) (Token.Size t)) 0 = Inr (True, num)
               \<and> i = pushParam (IntNode (new_ASTInt (Token.Index t) (Token.Size t) (Token.LineRow t)
                                   (Token.LineCol t) num (Token.Type s = MINUS_SIGN))) instr
        else \<exists>d. stod (getChar (Src p) (Token.Index s)
                         # getSubStr (Src p) (Token.Index t) (Token.Size t)) = Converted d
               \<and> i = pushParam (FloatNode (new_ASTFloat (Token.Index t) (Token.Size t) (Token.LineRow t)
                                   (Token.LineCol t) d)) instr)"
proof -
  let ?str = "getChar (Src p) (Token.Index s) # getSubStr (Src p) (Token.Index t) (Token.Size t)"
  have adj: "Token.Index s + 1 = Token.Index t"
    using run lit by (cases "Token.Index s + 1 = Token.Index t") (auto simp: operandStep_sign [OF sg nx])
  show ?thesis
  proof (cases "Token.Type t = INTEGER_NUMBER")
    case True
    have r: "andThen (operandInt t ?str (Token.Type s = MINUS_SIGN) instr p1) afterOperand
             = Inr (OperandNext t' i q e)"
      using run by (simp add: operandStep_sign [OF sg nx] adj True)
    show ?thesis
    proof (cases "strToInt ?str 0")
      case (Inl f)
      then show ?thesis using r by (simp add: operandInt_cases andThen_def)
    next
      case (Inr x)
      obtain ok num where x: "x = (ok, num)" by (cases x)
      show ?thesis
      proof (cases ok)
        case False
        then show ?thesis using r by (simp add: operandInt_cases Inr x andThen_def afterOperand_False)
      next
        case ok: True
        have "i = pushParam (IntNode (new_ASTInt (Token.Index t) (Token.Size t) (Token.LineRow t)
                                   (Token.LineCol t) num (Token.Type s = MINUS_SIGN))) instr"
          using r afterOperand_True_Next by (simp add: operandInt_cases Inr x ok andThen_def)
        then show ?thesis using adj True Inr x ok by simp
      qed
    qed
  next
    case False
    have r: "afterOperand (operandFloat stod t ?str instr p1) = Inr (OperandNext t' i q e)"
      using run lit by (simp add: operandStep_sign [OF sg nx] adj False)
    show ?thesis
    proof (cases "stod ?str")
      case (Converted d)
      have "i = pushParam (FloatNode (new_ASTFloat (Token.Index t) (Token.Size t) (Token.LineRow t)
                                   (Token.LineCol t) d)) instr"
        using r afterOperand_True_Next by (simp add: operandFloat_cases Converted)
      then show ?thesis using adj False Converted by simp
    next
      case OutOfRange
      then show ?thesis using r by (simp add: operandFloat_cases afterOperand_False)
    next
      case InvalidArgument
      then show ?thesis using r by (simp add: operandFloat_cases afterOperand_False)
    qed
  qed
qed

lemma operand_accepts_int:
  assumes sg: "Token.Type s = PLUS_SIGN \<or> Token.Type s = MINUS_SIGN"
    and nx: "eatToken p = Inr (t, p1)"
    and lit: "Token.Type t = INTEGER_NUMBER"
    and adj: "Token.Index s + 1 = Token.Index t"
    and cv: "strToInt (getChar (Src p) (Token.Index s)
                         # getSubStr (Src p) (Token.Index t) (Token.Size t)) 0 = Inr (True, num)"
  shows "\<exists>t' q e. operandStep stod s instr p
           = Inr (OperandNext t'
                   (pushParam (IntNode (new_ASTInt (Token.Index t) (Token.Size t) (Token.LineRow t)
                                   (Token.LineCol t) num (Token.Type s = MINUS_SIGN))) instr) q e)"
  using afterOperand_accepts [OF nx]
  by (simp add: operandStep_sign [OF sg nx] lit adj operandInt_cases cv andThen_def)

lemma operand_accepts_float:
  assumes sg: "Token.Type s = PLUS_SIGN \<or> Token.Type s = MINUS_SIGN"
    and nx: "eatToken p = Inr (t, p1)"
    and lit: "Token.Type t = FLOAT_NUMBER"
    and adj: "Token.Index s + 1 = Token.Index t"
    and cv: "stod (getChar (Src p) (Token.Index s)
                     # getSubStr (Src p) (Token.Index t) (Token.Size t)) = Converted d"
  shows "\<exists>t' q e. operandStep stod s instr p
           = Inr (OperandNext t'
                   (pushParam (FloatNode (new_ASTFloat (Token.Index t) (Token.Size t) (Token.LineRow t)
                                   (Token.LineCol t) d)) instr) q e)"
  using afterOperand_accepts [OF nx]
  by (simp add: operandStep_sign [OF sg nx] lit adj operandFloat_cases cv)

lemma varIntValue_cases:
  "varIntValue c typeInfo t str isSigned q =
     (case strToInt str 0 of
        Inl f \<Rightarrow> Inl f
      | Inr (ok, num) \<Rightarrow>
          if \<not> ok then
            Inr (None, printTokenError ''Integer does not fit into 64-bit value'' t q)
          else if \<not> checkIntWidth c num (TypeInfo.DataType typeInfo) isSigned then
            Inr (None, printTokenError ''Integer does not fit into given type value'' t q)
          else Inr (Some (IntNode (new_ASTInt (Token.Index t) (Token.Size t) (Token.LineRow t)
                                     (Token.LineCol t) num isSigned)), q))"
  by (simp add: varIntValue_def andThen_def split: sum.splits prod.splits)

lemma varFloatValue_cases:
  "varFloatValue c stod typeInfo t str q =
     (case stod str of
        Converted d \<Rightarrow>
          if \<not> checkFloatWidth c d (TypeInfo.DataType typeInfo) then
            (None, printTokenError ''Floating-point value does not fit into given value'' t q)
          else (Some (FloatNode (new_ASTFloat (Token.Index t) (Token.Size t) (Token.LineRow t)
                                   (Token.LineCol t) d)), q)
      | _ \<Rightarrow> (None, printTokenError ''Floating-point value does not fit into 64-bit value'' t q))"
  by (simp add: varFloatValue_def strToFP_def split: Conversion.splits)

lemma var_rejected_iff:
  assumes sg: "Token.Type s = PLUS_SIGN \<or> Token.Type s = MINUS_SIGN"
    and nx: "eatToken p = Inr (t, p1)"
    and lit: "Token.Type t = INTEGER_NUMBER \<or> Token.Type t = FLOAT_NUMBER"
  shows "(parseVarValue c stod typeInfo s p
            = Inr (None, printTokenError ''Unexpected operator'' s p1))
         = (Token.Index s + 1 \<noteq> Token.Index t)"
proof (cases "Token.Index s + 1 = Token.Index t")
  case False
  then show ?thesis by (simp add: parseVarValue_sign [OF sg nx lit])
next
  case True
  let ?str = "getChar (Src p) (Token.Index s) # getSubStr (Src p) (Token.Index t) (Token.Size t)"
  have n1: "printTokenError ''Integer does not fit into 64-bit value'' t p1
              \<noteq> printTokenError ''Unexpected operator'' s p1"
    using printTokenError_message by fastforce
  have n2: "printTokenError ''Integer does not fit into given type value'' t p1
              \<noteq> printTokenError ''Unexpected operator'' s p1"
    using printTokenError_message by fastforce
  have n3: "printTokenError ''Floating-point value does not fit into given value'' t p1
              \<noteq> printTokenError ''Unexpected operator'' s p1"
    using printTokenError_message by fastforce
  have n4: "printTokenError ''Floating-point value does not fit into 64-bit value'' t p1
              \<noteq> printTokenError ''Unexpected operator'' s p1"
    using printTokenError_message by fastforce
  have "parseVarValue c stod typeInfo s p
          \<noteq> Inr (None, printTokenError ''Unexpected operator'' s p1)"
  proof (cases "Token.Type t = INTEGER_NUMBER")
    case i: True
    show ?thesis
      using n1 n2
      by (simp add: parseVarValue_sign [OF sg nx lit] True i varIntValue_cases
          split: sum.splits prod.splits)
  next
    case i: False
    show ?thesis
      using n3 n4
      by (simp add: parseVarValue_sign [OF sg nx lit] True i varFloatValue_cases
          split: Conversion.splits)
  qed
  then show ?thesis using True by simp
qed

lemma var_accepted:
  assumes sg: "Token.Type s = PLUS_SIGN \<or> Token.Type s = MINUS_SIGN"
    and nx: "eatToken p = Inr (t, p1)"
    and lit: "Token.Type t = INTEGER_NUMBER \<or> Token.Type t = FLOAT_NUMBER"
    and run: "parseVarValue c stod typeInfo s p = Inr (Some n, q)"
  shows "Token.Index s + 1 = Token.Index t \<and> q = p1
     \<and> (if Token.Type t = INTEGER_NUMBER
        then \<exists>num. strToInt (getChar (Src p) (Token.Index s)
                               # getSubStr (Src p) (Token.Index t) (Token.Size t)) 0 = Inr (True, num)
               \<and> checkIntWidth c num (TypeInfo.DataType typeInfo) (Token.Type s = MINUS_SIGN)
               \<and> n = IntNode (new_ASTInt (Token.Index t) (Token.Size t) (Token.LineRow t)
                                (Token.LineCol t) num (Token.Type s = MINUS_SIGN))
        else \<exists>d. stod (getChar (Src p) (Token.Index s)
                         # getSubStr (Src p) (Token.Index t) (Token.Size t)) = Converted d
               \<and> checkFloatWidth c d (TypeInfo.DataType typeInfo)
               \<and> n = FloatNode (new_ASTFloat (Token.Index t) (Token.Size t) (Token.LineRow t)
                                  (Token.LineCol t) d))"
proof -
  let ?str = "getChar (Src p) (Token.Index s) # getSubStr (Src p) (Token.Index t) (Token.Size t)"
  have adj: "Token.Index s + 1 = Token.Index t"
    using run by (cases "Token.Index s + 1 = Token.Index t")
      (auto simp: parseVarValue_sign [OF sg nx lit])
  show ?thesis
  proof (cases "Token.Type t = INTEGER_NUMBER")
    case True
    have r: "varIntValue c typeInfo t ?str (Token.Type s = MINUS_SIGN) p1 = Inr (Some n, q)"
      using run by (simp add: parseVarValue_sign [OF sg nx lit] adj True)
    then show ?thesis
      using adj True
      by (auto simp: varIntValue_cases split: sum.splits prod.splits if_splits)
  next
    case False
    have r: "varFloatValue c stod typeInfo t ?str p1 = (Some n, q)"
      using run by (simp add: parseVarValue_sign [OF sg nx lit] adj False)
    then show ?thesis
      using adj False
      by (auto simp: varFloatValue_cases split: Conversion.splits if_splits)
  qed
qed

lemma var_accepts_int:
  assumes sg: "Token.Type s = PLUS_SIGN \<or> Token.Type s = MINUS_SIGN"
    and nx: "eatToken p = Inr (t, p1)"
    and lit: "Token.Type t = INTEGER_NUMBER"
    and adj: "Token.Index s + 1 = Token.Index t"
    and cv: "strToInt (getChar (Src p) (Token.Index s)
                         # getSubStr (Src p) (Token.Index t) (Token.Size t)) 0 = Inr (True, num)"
    and fits: "checkIntWidth c num (TypeInfo.DataType typeInfo) (Token.Type s = MINUS_SIGN)"
  shows "parseVarValue c stod typeInfo s p
           = Inr (Some (IntNode (new_ASTInt (Token.Index t) (Token.Size t) (Token.LineRow t)
                                   (Token.LineCol t) num (Token.Type s = MINUS_SIGN))), p1)"
proof -
  have l: "Token.Type t = INTEGER_NUMBER \<or> Token.Type t = FLOAT_NUMBER" using lit by simp
  show ?thesis
    using fits by (simp add: parseVarValue_sign [OF sg nx l] lit adj varIntValue_cases cv)
qed

lemma var_accepts_float:
  assumes sg: "Token.Type s = PLUS_SIGN \<or> Token.Type s = MINUS_SIGN"
    and nx: "eatToken p = Inr (t, p1)"
    and lit: "Token.Type t = FLOAT_NUMBER"
    and adj: "Token.Index s + 1 = Token.Index t"
    and cv: "stod (getChar (Src p) (Token.Index s)
                     # getSubStr (Src p) (Token.Index t) (Token.Size t)) = Converted d"
    and fits: "checkFloatWidth c d (TypeInfo.DataType typeInfo)"
  shows "parseVarValue c stod typeInfo s p
           = Inr (Some (FloatNode (new_ASTFloat (Token.Index t) (Token.Size t) (Token.LineRow t)
                                     (Token.LineCol t) d)), p1)"
proof -
  have l: "Token.Type t = INTEGER_NUMBER \<or> Token.Type t = FLOAT_NUMBER" using lit by simp
  show ?thesis
    using fits by (simp add: parseVarValue_sign [OF sg nx l] lit adj varFloatValue_cases cv)
qed

lemma ex_comma_gap_tokens_facts:
  "Token.Type (Tokens (ex_comma_gap_parser c) ! 6) = MINUS_SIGN"
  "Token.Type (Tokens (ex_comma_gap_parser c) ! 7) = INTEGER_NUMBER"
  "Token.Index (Tokens (ex_comma_gap_parser c) ! 6) = 21"
  "Token.Index (Tokens (ex_comma_gap_parser c) ! 7) = 23"
  by (simp_all add: ex_comma_gap_parser_def ex_comma_gap_tokens_def new_Parser_def new_Token_def)

lemma ex_at_sign_facts:
  "eatToken ex_adjacent_at_sign
     = Inr (new_Token INTEGER_NUMBER 21 1 2 15 0, ex_adjacent_at_sign\<lparr> Cursor := 7 \<rparr>)"
  "eatToken ex_gap_at_sign
     = Inr (new_Token INTEGER_NUMBER 22 1 2 16 0, ex_gap_at_sign\<lparr> Cursor := 7 \<rparr>)"
  "eatToken ex_var_gap_at_sign
     = Inr (new_Token INTEGER_NUMBER 31 1 2 23 0, ex_var_gap_at_sign\<lparr> Cursor := 9 \<rparr>)"
  "strToInt (signedText ex_adjacent_at_sign (new_Token MINUS_SIGN 20 1 2 14 0)
               (new_Token INTEGER_NUMBER 21 1 2 15 0)) 0 = Inr (True, - 1)"
  "checkIntWidth sample_consts (- 1) (UVM_TYPE_I32 sample_consts) True"
  by (simp_all add: eatToken_def ex_adjacent_at_sign_def ex_gap_at_sign_def ex_var_gap_at_sign_def
      ex_adjacent_parser_def ex_gap_parser_def ex_var_gap_parser_def
      ex_adjacent_tokens_def ex_gap_tokens_def ex_var_gap_tokens_def new_Parser_def
      ex_adjacent_src_def signedText_def getChar_def getSubStr_def new_Token_def
      strToInt_def stoull_def isSpace_def digitValue_def numberOf_def
      checkIntWidth_def sample_consts_def abs_int64_def Let_def)

lemma new_Token_fields:
  "Token.Type (new_Token ty i sz r cl tg) = ty"
  "Token.Index (new_Token ty i sz r cl tg) = i"
  "Token.Size (new_Token ty i sz r cl tg) = sz"
  "Token.LineRow (new_Token ty i sz r cl tg) = r"
  "Token.LineCol (new_Token ty i sz r cl tg) = cl"
  by (simp_all add: new_Token_def)

section \<open>Results\<close>

text \<open>
  C7 (the code differs). The float-fit check compares the number itself with the
  maximum of the type, not its absolute value: the double \<open>-2^128\<close>, whose magnitude
  exceeds FLT_MAX, is accepted for F32.
\<close>

theorem checkFloatWidth_negative_accepted:
  "checkFloatWidth sample_consts (Finite (- (2 ^ 128))) (UVM_TYPE_F32 sample_consts) = True
   \<and> double_le (double_abs (Finite (- (2 ^ 128)))) FLT_MAX = False"
  by (simp add: checkFloatWidth_def FLT_MAX_def)

text \<open>
  C6 (the code differs). For a variable of the global section typeCheckVars records
  the bitwise AND of the read and the write permission, where the claim asks for their
  combination.
\<close>

theorem typeCheckVars_global_SecPerm:
  "\<exists>sec1 p1. typeCheckVars c (ex_global c) (new_Parser defs src toks fileNode) = Inr (True, sec1, p1)
     \<and> map SecPerm (VarDecls p1) = [SEC_PERM_READ c AND SEC_PERM_WRITE c]"
  by (simp add: typeCheckVars_def ex_global_def new_ASTSection_def new_Parser_def andThen_def)

text \<open>
  C9. On the trie of the built-in definition table typeCheckInstrParams never
  dereferences a null pointer: when the walk reaches an INT_NUM or FLOAT_NUM position,
  a type operand has been accepted before and \<open>type\<close> is set. Every signature of the
  table that has a number parameter starts with a type parameter, and no signature has
  more than one type parameter.
\<close>

theorem typeCheckInstrParams_type_set:
  assumes "InstrDefs p = buildInstrDefs c"
  shows "typeCheckInstrParams c instr labelRefs p \<noteq> Inl NullPointer
       \<and> list_all (list_all typeBeforeNumber) (INSTR_ASM_DEFS c)"
proof (cases "unat (ASMDefIndex instr) < length (InstrDefs p)")
  case True
  then show ?thesis
    using typeCheckInstrParams_no_fault [of p instr c labelRefs] assms
      built_typeGuarded built_rootComplete table_typeBeforeNumber by auto
next
  case False
  then show ?thesis
    using typeCheckInstrParams_Inl_OutOfBounds [of p instr c labelRefs] table_typeBeforeNumber by simp
qed

theorem typeCheckInstrParams_type_set_witness:
  "InstrDefs (ex_parser sample_consts) = buildInstrDefs sample_consts
   \<and> typeCheckInstrParams sample_consts (ex_push sample_consts) [] (ex_parser sample_consts)
       \<noteq> Inl NullPointer"
proof -
  have h: "InstrDefs (ex_parser sample_consts) = buildInstrDefs sample_consts"
    by (simp add: ex_parser_def new_Parser_def)
  show ?thesis
    using h typeCheckInstrParams_type_set [OF h, of "ex_push sample_consts" "[]"] by simp
qed

text \<open>
  C10. When typeCheckInstrParams returns false, the fields \<open>Opcode\<close> and
  \<open>EncodingFlags\<close> of the instruction are what they were before the call (0 for an
  instruction fresh from the parser); they are assigned on the success path only.
\<close>

theorem typeCheckInstrParams_false_keeps_opcode:
  assumes "typeCheckInstrParams c instr labelRefs p = Inr (False, instr1, refs1, p1)"
  shows "Instruction.Opcode instr1 = Instruction.Opcode instr
       \<and> EncodingFlags instr1 = EncodingFlags instr"
  using assms
  by (cases rule: typeCheckInstrParams_elim) simp_all

lemma ex_exit_1_eval:
  "typeCheckInstrParams c ex_exit_1 [] (ex_parser c) =
     Inr (False, ex_exit_1, [],
          printError 33 4 4 5 ''Error no matching parameter list found for instruction'' (ex_parser c))"
  by (simp add: typeCheckInstrParams_def ex_exit_1_def ex_exit_def ex_parser_def new_Parser_def
      new_Instruction_def length_buildInstrDefs built_exit andThen_def)

theorem typeCheckInstrParams_false_keeps_opcode_witness:
  "typeCheckInstrParams sample_consts ex_exit_1 [] (ex_parser sample_consts) =
     Inr (False, ex_exit_1, [],
          printError 33 4 4 5 ''Error no matching parameter list found for instruction''
            (ex_parser sample_consts))
   \<and> Instruction.Opcode ex_exit_1 = 0 \<and> EncodingFlags ex_exit_1 = 0"
  using typeCheckInstrParams_false_keeps_opcode [OF ex_exit_1_eval [of sample_consts]]
    ex_exit_1_eval [of sample_consts]
  by (simp add: ex_exit_1_def ex_exit_def new_Instruction_def)

text \<open>
  C1. On the trie of the built-in definition table, and starting with an empty console,
  typeCheck returns true exactly when nothing was written to the console during the
  pass. The recoverable errors do not stop the pass and they accumulate: the console at
  the end is \<open>passDiags\<close>, which lists, item by item, the diagnostic of every variable
  that is redefined, the diagnostics of every element of the code section (a duplicate
  label, or what the check of the instruction on its own reports: no matching signature,
  an operand out of range), the diagnostic of every collected label reference that is
  unresolved and of every variable reference that is unresolved, each whether or not an
  item before it was in error. The name of every variable is in the variable table at the
  end, and whenever the code section has a label \<open>main\<close>, every label definition of the
  section is in the label table and the label references of every instruction are
  collected. For the code section with two labels \<open>main\<close>, typeCheck returns false and the
  console holds the single diagnostic that the label is already defined; for a file with
  one error of each kind it returns false and the console holds all six diagnostics.
\<close>

theorem typeCheck_true_iff_no_errors:
  assumes "InstrDefs p = buildInstrDefs c" and "Console p = []"
    and "typeCheck c p = Inr (ok, pf)"
  shows "ok = (Console pf = [])
       \<and> Console pf = passDiags c p
       \<and> declNames pf = declNames p \<union> set (map varName
            (variablesOf (bodyOf (SecStatic (FileNode p))) @ variablesOf (bodyOf (SecGlobal (FileNode p)))))
       \<and> (findMainEntry (bodyOf (SecCode (FileNode p))) \<longrightarrow>
            LabelDefs pf = LabelDefs p @ map lookupOf (labelDefsOf (bodyOf (SecCode (FileNode p))))
            \<and> LabelRefs pf = bodyRefs c (InstrDefs p) (bodyOf (SecCode (FileNode p))))
       \<and> (\<exists>pd. typeCheck c (ex_dup_parser c) = Inr (False, pd)
              \<and> Console pd = [TokenError ''Label is already defined'' 13 4 3 1])
       \<and> (uvm_distinct c \<longrightarrow>
            (\<exists>pe. typeCheck c (ex_errors_parser c) = Inr (False, pe)
               \<and> Console pe =
                   [TokenError ''Variable redefiniton'' 28 10 3 5,
                    TokenError ''Integer does not fit into given type'' 66 3 7 13,
                    TokenError ''Error no matching parameter list found for instruction'' 74 4 8 5,
                    TokenError ''Label is already defined'' 113 4 11 1,
                    TokenError ''Unresolved label'' 89 7 9 9,
                    TokenError ''Variable reference does not exist'' 106 1 10 10]))"
proof -
  have "list_all wellSeparated (InstrDefs p)"
    using assms(1) built_wellSeparated by simp
  from typeCheck_reported [OF assms(3) this]
  have a: "ok = (Console pf = [])"
    using assms(2) by (auto simp: reported_def)
  have b: "Console pf = passDiags c p"
    using typeCheck_diags [OF assms(3)] assms(2) by simp
  note d = typeCheck_declNames [OF assms(3)]
  have e: "findMainEntry (bodyOf (SecCode (FileNode p))) \<longrightarrow>
            LabelDefs pf = LabelDefs p @ map lookupOf (labelDefsOf (bodyOf (SecCode (FileNode p))))
            \<and> LabelRefs pf = bodyRefs c (InstrDefs p) (bodyOf (SecCode (FileNode p)))"
    using typeCheck_all_labels [OF assms(3)] typeCheck_LabelRefs [OF assms(3)] by blast
  show ?thesis
    by (intro conjI) (rule a b d e ex_dup_eval | (rule impI, erule ex_errors_eval))+
qed

theorem typeCheck_true_iff_no_errors_witness:
  "InstrDefs (ex_dup_parser sample_consts) = buildInstrDefs sample_consts
   \<and> Console (ex_dup_parser sample_consts) = []
   \<and> (\<exists>pd. typeCheck sample_consts (ex_dup_parser sample_consts) = Inr (False, pd)
          \<and> Console pd \<noteq> []
          \<and> passDiags sample_consts (ex_dup_parser sample_consts) = Console pd
          \<and> map (\<lambda>d. LabelDef.Name (Def d)) (LabelDefs pd) = [''main'', ''main''])
   \<and> uvm_distinct sample_consts
   \<and> (\<exists>pe. typeCheck sample_consts (ex_errors_parser sample_consts) = Inr (False, pe)
          \<and> length (Console pe) = 6)"
proof -
  have h1: "InstrDefs (ex_dup_parser sample_consts) = buildInstrDefs sample_consts"
    and h2: "Console (ex_dup_parser sample_consts) = []"
    by (simp_all add: ex_dup_parser_def new_Parser_def)
  have d: "uvm_distinct sample_consts"
    by (simp add: uvm_distinct_def sample_consts_def)
  obtain pd where run: "typeCheck sample_consts (ex_dup_parser sample_consts) = Inr (False, pd)"
    using ex_dup_eval [of sample_consts] by (elim exE conjE)
  have m: "findMainEntry (bodyOf (SecCode (FileNode (ex_dup_parser sample_consts))))"
    by (simp add: ex_dup_parser_def ex_dup_code_def ex_defs bodyOf_def findMainEntry_def)
  note t = typeCheck_true_iff_no_errors [OF h1 h2 run]
  have a: "Console pd \<noteq> []"
    using conjunct1 [OF t] by simp
  have a2: "passDiags sample_consts (ex_dup_parser sample_consts) = Console pd"
    using conjunct1 [OF conjunct2 [OF t]] by (rule sym)
  have "LabelDefs pd = LabelDefs (ex_dup_parser sample_consts)
          @ map lookupOf (labelDefsOf (bodyOf (SecCode (FileNode (ex_dup_parser sample_consts)))))"
    using conjunct1 [OF conjunct2 [OF conjunct2 [OF conjunct2 [OF t]]]] m by blast
  then have b: "map (\<lambda>d. LabelDef.Name (Def d)) (LabelDefs pd) = [''main'', ''main'']"
    by (simp add: ex_dup_parser_def ex_dup_code_def ex_defs bodyOf_def lookupOf_def)
  have "\<exists>pe. typeCheck sample_consts (ex_errors_parser sample_consts) = Inr (False, pe)
               \<and> Console pe =
                   [TokenError ''Variable redefiniton'' 28 10 3 5,
                    TokenError ''Integer does not fit into given type'' 66 3 7 13,
                    TokenError ''Error no matching parameter list found for instruction'' 74 4 8 5,
                    TokenError ''Label is already defined'' 113 4 11 1,
                    TokenError ''Unresolved label'' 89 7 9 9,
                    TokenError ''Variable reference does not exist'' 106 1 10 10]"
    using conjunct2 [OF conjunct2 [OF conjunct2 [OF conjunct2 [OF conjunct2 [OF t]]]]] d by (rule mp)
  then obtain pe where
    e1: "typeCheck sample_consts (ex_errors_parser sample_consts) = Inr (False, pe)"
    and e2: "length (Console pe) = 6"
    by (elim exE conjE) simp
  show ?thesis
    by (intro conjI exI [of _ pd] exI [of _ pe]) (rule h1 h2 run a a2 b d e1 e2)+
qed

text \<open>
  C3. Whenever typeCheck returns true (called with empty label and variable tables),
  the name of every collected label reference is the name of a label definition of
  the code section, and the name of the variable of every register offset is the name
  of a variable that the static or the global section declares.
\<close>

theorem typeCheck_true_resolved:
  assumes "typeCheck c p = Inr (True, pf)" and "LabelDefs p = []" and "VarDecls p = []"
  shows "(\<forall>r \<in> set (LabelRefs pf).
            Identifier.Name r \<in> set (map LabelDef.Name (labelDefsOf (bodyOf (SecCode (FileNode pf))))))
       \<and> (\<forall>v \<in> set (varRefsOf (bodyOf (SecCode (FileNode pf)))).
            Identifier.Name v \<in> set (declaredNames (FileNode pf)))"
  using assms by (rule typeCheck_resolved)

theorem typeCheck_true_resolved_witness:
  "LabelDefs (ex_refs_parser sample_consts) = [] \<and> VarDecls (ex_refs_parser sample_consts) = []
   \<and> (\<exists>pf. typeCheck sample_consts (ex_refs_parser sample_consts) = Inr (True, pf)
         \<and> map Identifier.Name (LabelRefs pf) = [''loop'']
         \<and> map Identifier.Name (varRefsOf (bodyOf (SecCode (FileNode pf)))) = [''msg'']
         \<and> ''loop'' \<in> set (map LabelDef.Name (labelDefsOf (bodyOf (SecCode (FileNode pf)))))
         \<and> ''msg'' \<in> set (declaredNames (FileNode pf)))"
proof -
  have h1: "LabelDefs (ex_refs_parser sample_consts) = []"
    and h2: "VarDecls (ex_refs_parser sample_consts) = []"
    by (simp_all add: ex_refs_parser_def new_Parser_def)
  obtain pf where run: "typeCheck sample_consts (ex_refs_parser sample_consts) = Inr (True, pf)"
    and l: "map Identifier.Name (LabelRefs pf) = [''loop'']"
    and v: "map Identifier.Name (varRefsOf (bodyOf (SecCode (FileNode pf)))) = [''msg'']"
    using ex_refs_eval [of sample_consts] by (elim exE conjE)
  note t = typeCheck_true_resolved [OF run h1 h2]
  obtain r0 where r0: "r0 \<in> set (LabelRefs pf)" "Identifier.Name r0 = ''loop''"
    using l by (cases "LabelRefs pf") simp_all
  have a: "''loop'' \<in> set (map LabelDef.Name (labelDefsOf (bodyOf (SecCode (FileNode pf)))))"
    using bspec [OF conjunct1 [OF t] r0(1)] unfolding r0(2) .
  obtain v0 where v0: "v0 \<in> set (varRefsOf (bodyOf (SecCode (FileNode pf))))" "Identifier.Name v0 = ''msg''"
    using v by (cases "varRefsOf (bodyOf (SecCode (FileNode pf)))") simp_all
  have b: "''msg'' \<in> set (declaredNames (FileNode pf))"
    using bspec [OF conjunct2 [OF t] v0(1)] unfolding v0(2) .
  show ?thesis
    by (intro conjI exI [of _ pf]) (rule h1 h2 run l v a b)+
qed

text \<open>
  C2. With the built-in table, an instruction that passes the check of its operands
  matches one signature of its mnemonic, category by category. The flags byte of that
  signature is attached verbatim. When the flags include the type variants flag, the first
  operand is the type, exactly one entry of the variant table has that type, and the opcode
  attached is the opcode of that entry; otherwise the opcode attached is the base opcode of
  the signature. The instruction \<^verbatim>\<open>push i32, 42\<close> receives opcode 0x03 and
  \<^verbatim>\<open>exit\<close> receives opcode 0x50.
\<close>

theorem typeCheckInstrParams_opcode:
  assumes defs: "InstrDefs p = buildInstrDefs c" and d: "uvm_distinct c"
    and run: "typeCheckInstrParams c instr labelRefs p = Inr (True, instr1, refs1, p1)"
  shows "(\<exists>l. l \<in> set (INSTR_ASM_DEFS c ! unat (ASMDefIndex instr))
            \<and> list_all2 (operandAccepted c) (InstrParamList.Params l) (Instruction.Params instr)
            \<and> EncodingFlags instr1 = Flags l
            \<and> (if Flags l AND INSTR_FLAG_TYPE_VARIANTS \<noteq> 0
                then \<exists>ti rest v. Instruction.Params instr = TypeInfoNode ti # rest
                       \<and> v \<in> set (OpcodeVariants l)
                       \<and> TypeVariant.Type v = TypeInfo.DataType ti
                       \<and> (\<forall>u \<in> set (OpcodeVariants l).
                             TypeVariant.Type u = TypeInfo.DataType ti \<longrightarrow> u = v)
                       \<and> Instruction.Opcode instr1 = TypeVariant.Opcode v
                else Instruction.Opcode instr1 = InstrParamList.Opcode l))
         \<and> (\<exists>i q. typeCheckInstrParams c (ex_push c) [] (ex_parser c) = Inr (True, i, [], q)
                  \<and> Instruction.Opcode i = 0x03)
         \<and> (\<exists>i q. typeCheckInstrParams c ex_exit [] (ex_parser c) = Inr (True, i, [], q)
                  \<and> Instruction.Opcode i = 0x50)"
proof (intro conjI)
  let ?i = "unat (ASMDefIndex instr)"
  let ?sigs = "INSTR_ASM_DEFS c ! ?i"
  let ?root = "buildInstrDefs c ! ?i"
  show "\<exists>i q. typeCheckInstrParams c (ex_push c) [] (ex_parser c) = Inr (True, i, [], q)
                  \<and> Instruction.Opcode i = 0x03"
    by (simp add: ex_push_eval [OF d])
  show "\<exists>i q. typeCheckInstrParams c ex_exit [] (ex_parser c) = Inr (True, i, [], q)
                  \<and> Instruction.Opcode i = 0x50"
    by (simp add: ex_exit_eval)
  show "\<exists>l. l \<in> set ?sigs
            \<and> list_all2 (operandAccepted c) (InstrParamList.Params l) (Instruction.Params instr)
            \<and> EncodingFlags instr1 = Flags l
            \<and> (if Flags l AND INSTR_FLAG_TYPE_VARIANTS \<noteq> 0
                then \<exists>ti rest v. Instruction.Params instr = TypeInfoNode ti # rest
                       \<and> v \<in> set (OpcodeVariants l)
                       \<and> TypeVariant.Type v = TypeInfo.DataType ti
                       \<and> (\<forall>u \<in> set (OpcodeVariants l).
                             TypeVariant.Type u = TypeInfo.DataType ti \<longrightarrow> u = v)
                       \<and> Instruction.Opcode instr1 = TypeVariant.Opcode v
                else Instruction.Opcode instr1 = InstrParamList.Opcode l)"
    using run
  proof (cases rule: typeCheckInstrParams_elim)
    case (NoParams pl)
    have i: "?i < length (buildInstrDefs c)" using NoParams(1) defs by simp
    have l: "pl \<in> set ?sigs" and ps: "InstrParamList.Params pl = []"
      using trieSound_ParamList [OF built_sigs(1) [OF i]] NoParams(4) defs by simp_all
    have cov: "variantsCover c pl"
      using built_sigs(2) [OF i] l by (simp add: list_all_iff)
    have nf: "Flags pl AND INSTR_FLAG_TYPE_VARIANTS = 0"
      using cov ps by (auto simp: variantsCover_def split: if_splits)
    have f: "EncodingFlags instr1 = Flags pl" and o: "Instruction.Opcode instr1 = InstrParamList.Opcode pl"
      by (simp_all add: NoParams(8))
    have a: "list_all2 (operandAccepted c) (InstrParamList.Params pl) (Instruction.Params instr)"
      by (simp add: ps NoParams(2))
    show ?thesis
      by (rule exI [of _ pl]) (simp add: l a f nf o)
  next
    case (Variant a as pl params1 w opcode)
    have i: "?i < length (buildInstrDefs c)" using Variant(1) defs by simp
    have w: "walkParams c ?root (a # as)
         \<lparr> nextNode = None, astNode = a, typeRef = None, error = False, refs = labelRefs, parser = p \<rparr>
       = Inr (Some pl, params1, w)"
      using Variant(3) defs by simp
    have l: "pl \<in> set ?sigs"
      and acc: "list_all2 (operandAccepted c) (InstrParamList.Params pl) (a # as)"
      using walkParams_signature [OF w, of ?sigs] built_sigs(1) [OF i] by auto
    have cov: "variantsCover c pl"
      using built_sigs(2) [OF i] l by (simp add: list_all_iff)
    have tr: "typeRef w = lastTypeOf None (a # as)"
      using walkParams_typeRef [OF w] by simp
    obtain ti rest v where as: "a # as = TypeInfoNode ti # rest"
      and lt: "lastTypeOf None (a # as) = Some ti"
      and v: "v \<in> set (OpcodeVariants pl)" "TypeVariant.Type v = TypeInfo.DataType ti"
      and dist: "distinct (map TypeVariant.Type (OpcodeVariants pl))"
      using variantsCover_lookup [OF cov Variant(5) d acc] by blast
    have opc: "opcode = TypeVariant.Opcode v"
      using findVariant_unique [OF _ dist v] Variant(6) tr lt by simp
    have uniq: "\<forall>u \<in> set (OpcodeVariants pl). TypeVariant.Type u = TypeInfo.DataType ti \<longrightarrow> u = v"
      using dist v by (auto simp: distinct_map inj_on_def)
    have ps: "Instruction.Params instr = TypeInfoNode ti # rest"
      using Variant(2) as by simp
    have f: "EncodingFlags instr1 = Flags pl" and o: "Instruction.Opcode instr1 = TypeVariant.Opcode v"
      by (simp_all add: Variant(10) opc)
    have a: "list_all2 (operandAccepted c) (InstrParamList.Params pl) (Instruction.Params instr)"
      using acc by (simp only: Variant(2))
    have "\<exists>ti rest v. Instruction.Params instr = TypeInfoNode ti # rest
                       \<and> v \<in> set (OpcodeVariants pl)
                       \<and> TypeVariant.Type v = TypeInfo.DataType ti
                       \<and> (\<forall>u \<in> set (OpcodeVariants pl).
                             TypeVariant.Type u = TypeInfo.DataType ti \<longrightarrow> u = v)
                       \<and> Instruction.Opcode instr1 = TypeVariant.Opcode v"
      by (intro exI [of _ ti] exI [of _ rest] exI [of _ v] conjI) (rule ps v uniq o)+
    then show ?thesis
      by (intro exI [of _ pl] conjI) (simp_all only: l a f Variant(5) if_True not_False_eq_True)
  next
    case (Plain a as pl params1 w)
    have i: "?i < length (buildInstrDefs c)" using Plain(1) defs by simp
    have w: "walkParams c ?root (a # as)
         \<lparr> nextNode = None, astNode = a, typeRef = None, error = False, refs = labelRefs, parser = p \<rparr>
       = Inr (Some pl, params1, w)"
      using Plain(3) defs by simp
    have l: "pl \<in> set ?sigs"
      and acc: "list_all2 (operandAccepted c) (InstrParamList.Params pl) (a # as)"
      using walkParams_signature [OF w, of ?sigs] built_sigs(1) [OF i] by auto
    have f: "EncodingFlags instr1 = Flags pl" and o: "Instruction.Opcode instr1 = InstrParamList.Opcode pl"
      by (simp_all add: Plain(9))
    have a: "list_all2 (operandAccepted c) (InstrParamList.Params pl) (Instruction.Params instr)"
      using acc by (simp only: Plain(2))
    show ?thesis
      by (rule exI [of _ pl]) (simp add: l a f Plain(5) o)
  next
    case NoParamsErr
    from NoParamsErr(4) show ?thesis by simp
  next
    case (NoMatch a as params1 w)
    from NoMatch(4) show ?thesis by simp
  next
    case (RangeErr a as pl params1 w)
    from RangeErr(5) show ?thesis by simp
  qed
qed

theorem typeCheckInstrParams_opcode_witness:
  "InstrDefs (ex_parser sample_consts) = buildInstrDefs sample_consts \<and> uvm_distinct sample_consts
   \<and> (\<exists>instr1 refs1 p1 l.
        typeCheckInstrParams sample_consts (ex_push sample_consts) [] (ex_parser sample_consts)
          = Inr (True, instr1, refs1, p1)
        \<and> l \<in> set (INSTR_ASM_DEFS sample_consts ! unat (ASMDefIndex (ex_push sample_consts)))
        \<and> EncodingFlags instr1 = Flags l
        \<and> Flags l AND INSTR_FLAG_TYPE_VARIANTS \<noteq> 0
        \<and> Instruction.Opcode instr1 = 0x03)"
proof -
  let ?c = sample_consts
  have d: "uvm_distinct ?c" by (simp add: uvm_distinct_def sample_consts_def)
  have defs: "InstrDefs (ex_parser ?c) = buildInstrDefs ?c"
    by (simp add: ex_parser_def new_Parser_def)
  define i1 where "i1 = (ex_push ?c)\<lparr> Instruction.Params := [TypeInfoNode (new_TypeInfo 22 3 3 10 (UVM_TYPE_I32 ?c)),
                              IntNode ((new_ASTInt 26 2 3 14 42 False)\<lparr> ASTInt.DataType := UVM_TYPE_I32 ?c \<rparr>)],
                 Instruction.Opcode := 0x03, EncodingFlags := INSTR_FLAG_TYPE_VARIANTS \<rparr>"
  have run: "typeCheckInstrParams ?c (ex_push ?c) [] (ex_parser ?c) = Inr (True, i1, [], ex_parser ?c)"
    unfolding i1_def by (rule ex_push_eval [OF d])
  have fl: "EncodingFlags i1 = INSTR_FLAG_TYPE_VARIANTS" "Instruction.Opcode i1 = 0x03"
    by (simp_all add: i1_def)
  from typeCheckInstrParams_opcode [OF defs d run]
  obtain l where l: "l \<in> set (INSTR_ASM_DEFS ?c ! unat (ASMDefIndex (ex_push ?c)))"
    and f: "EncodingFlags i1 = Flags l"
    by (elim conjE exE)
  have "Flags l AND INSTR_FLAG_TYPE_VARIANTS \<noteq> 0"
    using f fl(1) by (simp add: INSTR_FLAG_TYPE_VARIANTS_def)
  then have "\<exists>instr1 refs1 p1 l.
        typeCheckInstrParams sample_consts (ex_push sample_consts) [] (ex_parser sample_consts)
          = Inr (True, instr1, refs1, p1)
        \<and> l \<in> set (INSTR_ASM_DEFS sample_consts ! unat (ASMDefIndex (ex_push sample_consts)))
        \<and> EncodingFlags instr1 = Flags l
        \<and> Flags l AND INSTR_FLAG_TYPE_VARIANTS \<noteq> 0
        \<and> Instruction.Opcode instr1 = 0x03"
    by (intro exI [of _ i1] exI [of _ "[]"] exI [of _ "ex_parser ?c"] exI [of _ l] conjI)
       (rule run l f fl(2) | assumption)+
  then show ?thesis
    using d defs by (intro conjI)
qed

text \<open>
  C5. parseRegOffset accepts exactly the four forms of a register offset and appends one
  RegisterOffset node whose layout byte the tokens decide. Whenever it accepts, the tokens
  behind the cursor have one of the four forms and the layout is the one of the form. And
  each form is accepted: the variable form \<^verbatim>\<open>[ident]\<close> leaves the layout zero and sets
  \<open>Var\<close>; \<^verbatim>\<open>[reg]\<close> with an integer register gives 0x4F; \<^verbatim>\<open>[reg + imm32]\<close> with an
  immediate that converts and fits 32 bits gives 0x2F; \<^verbatim>\<open>[reg + reg * imm16]\<close> with integer
  registers and an immediate that converts and fits 16 bits gives 0x1F; a minus sign in
  place of the plus sign ORs 0x80 into the layout. The operand \<^verbatim>\<open>[bp - 4]\<close> yields layout
  0xAF, base register id 0x03 and the 32-bit immediate 4.
\<close>

theorem parseRegOffset_layout:
  "(\<forall>instr1 p1. parseRegOffset instr p = Inr (True, instr1, p1) \<longrightarrow>
     (\<exists>ro. Instruction.Params instr1 = Instruction.Params instr @ [RegisterOffsetNode ro]
      \<and> (if Token.Type (tokenAt p 0) = IDENTIFIER
          then Token.Type (tokenAt p 1) = RIGHT_SQUARE_BRACKET \<and> Layout ro = 0
             \<and> (\<exists>v. Var ro = Some v
                   \<and> Identifier.Name v = getSubStr (Src p) (Token.Index (tokenAt p 0)) (Token.Size (tokenAt p 0)))
          else Token.Type (tokenAt p 0) = REGISTER_DEFINITION
             \<and> (\<exists>b. Base ro = Some b \<and> RegisterId.Id b = Token.Tag (tokenAt p 0))
             \<and> Var ro = None
             \<and> (if Token.Type (tokenAt p 1) = RIGHT_SQUARE_BRACKET then Layout ro = 0x4F
                 else (Token.Type (tokenAt p 1) = PLUS_SIGN \<or> Token.Type (tokenAt p 1) = MINUS_SIGN)
                   \<and> (if Token.Type (tokenAt p 2) = INTEGER_NUMBER
                       then Token.Type (tokenAt p 3) = RIGHT_SQUARE_BRACKET
                         \<and> Layout ro = (if Token.Type (tokenAt p 1) = MINUS_SIGN then 0x80 else 0) OR 0x2F
                         \<and> (\<exists>num. strToInt (getSubStr (Src p) (Token.Index (tokenAt p 2))
                                      (Token.Size (tokenAt p 2))) 0 = Inr (True, num)
                                \<and> drop_bit 32 num = 0 \<and> Immediate ro = ucast num)
                       else Token.Type (tokenAt p 2) = REGISTER_DEFINITION
                         \<and> Token.Type (tokenAt p 3) = ASTERISK
                         \<and> Token.Type (tokenAt p 5) = RIGHT_SQUARE_BRACKET
                         \<and> Layout ro = (if Token.Type (tokenAt p 1) = MINUS_SIGN then 0x80 else 0) OR 0x1F)))))
   \<and> (Tokens p \<noteq> [] \<longrightarrow>
        (Token.Type (tokenAt p 0) = IDENTIFIER \<and> Token.Type (tokenAt p 1) = RIGHT_SQUARE_BRACKET \<longrightarrow>
           (\<exists>ro p1 v. parseRegOffset instr p = Inr (True, pushParam (RegisterOffsetNode ro) instr, p1)
              \<and> Layout ro = 0 \<and> Base ro = None \<and> Offset ro = None \<and> Var ro = Some v
              \<and> Identifier.Name v = getSubStr (Src p) (Token.Index (tokenAt p 0)) (Token.Size (tokenAt p 0))))
      \<and> (Token.Type (tokenAt p 0) = REGISTER_DEFINITION
          \<and> getRegisterType (Token.Tag (tokenAt p 0)) = INTEGER
          \<and> Token.Type (tokenAt p 1) = RIGHT_SQUARE_BRACKET \<longrightarrow>
           (\<exists>ro p1 b. parseRegOffset instr p = Inr (True, pushParam (RegisterOffsetNode ro) instr, p1)
              \<and> Layout ro = 0x4F \<and> Base ro = Some b \<and> RegisterId.Id b = Token.Tag (tokenAt p 0)
              \<and> Offset ro = None \<and> Var ro = None))
      \<and> (Token.Type (tokenAt p 0) = REGISTER_DEFINITION
          \<and> getRegisterType (Token.Tag (tokenAt p 0)) = INTEGER
          \<and> (Token.Type (tokenAt p 1) = PLUS_SIGN \<or> Token.Type (tokenAt p 1) = MINUS_SIGN)
          \<and> Token.Type (tokenAt p 2) = INTEGER_NUMBER
          \<and> Token.Type (tokenAt p 3) = RIGHT_SQUARE_BRACKET
          \<and> strToInt (getSubStr (Src p) (Token.Index (tokenAt p 2)) (Token.Size (tokenAt p 2))) 0
               = Inr (True, num)
          \<and> drop_bit 32 num = 0 \<longrightarrow>
           (\<exists>ro p1 b. parseRegOffset instr p = Inr (True, pushParam (RegisterOffsetNode ro) instr, p1)
              \<and> Layout ro = (if Token.Type (tokenAt p 1) = MINUS_SIGN then 0x80 else 0) OR 0x2F
              \<and> Base ro = Some b \<and> RegisterId.Id b = Token.Tag (tokenAt p 0)
              \<and> Offset ro = None \<and> Var ro = None \<and> Immediate ro = ucast num))
      \<and> (Token.Type (tokenAt p 0) = REGISTER_DEFINITION
          \<and> getRegisterType (Token.Tag (tokenAt p 0)) = INTEGER
          \<and> (Token.Type (tokenAt p 1) = PLUS_SIGN \<or> Token.Type (tokenAt p 1) = MINUS_SIGN)
          \<and> Token.Type (tokenAt p 2) = REGISTER_DEFINITION
          \<and> getRegisterType (Token.Tag (tokenAt p 2)) = INTEGER
          \<and> Token.Type (tokenAt p 3) = ASTERISK
          \<and> strToInt (getSubStr (Src p) (Token.Index (tokenAt p 4)) (Token.Size (tokenAt p 4))) 0
               = Inr (True, num)
          \<and> drop_bit 16 num = 0
          \<and> Token.Type (tokenAt p 5) = RIGHT_SQUARE_BRACKET \<longrightarrow>
           (\<exists>ro p1 b off. parseRegOffset instr p = Inr (True, pushParam (RegisterOffsetNode ro) instr, p1)
              \<and> Layout ro = (if Token.Type (tokenAt p 1) = MINUS_SIGN then 0x80 else 0) OR 0x1F
              \<and> Base ro = Some b \<and> RegisterId.Id b = Token.Tag (tokenAt p 0)
              \<and> Offset ro = Some off \<and> RegisterId.Id off = Token.Tag (tokenAt p 2)
              \<and> Var ro = None \<and> Immediate ro = ucast num)))
   \<and> (\<exists>i q ro b. parseRegOffset ex_load ex_ro_parser = Inr (True, i, q)
          \<and> Instruction.Params i = [RegisterOffsetNode ro]
          \<and> Layout ro = 0xAF \<and> Base ro = Some b \<and> RegisterId.Id b = 0x03 \<and> Immediate ro = 4)"
proof (intro conjI allI impI)
  show "\<exists>i q ro b. parseRegOffset ex_load ex_ro_parser = Inr (True, i, q)
          \<and> Instruction.Params i = [RegisterOffsetNode ro]
          \<and> Layout ro = 0xAF \<and> Base ro = Some b \<and> RegisterId.Id b = 0x03 \<and> Immediate ro = 4"
    by (simp add: ex_ro_eval new_RegisterId_def)
qed (erule parseRegOffset_forms, (rule parseRegOffset_complete [THEN mp], assumption+)+)

theorem parseRegOffset_layout_witness:
  "(\<exists>i q ro. parseRegOffset ex_load ex_ro_parser = Inr (True, i, q)
        \<and> Instruction.Params i = Instruction.Params ex_load @ [RegisterOffsetNode ro]
        \<and> Layout ro = 0x80 OR 0x2F)
   \<and> (\<exists>ro q. parseRegOffset ex_load ex_ro_var = Inr (True, pushParam (RegisterOffsetNode ro) ex_load, q)
        \<and> Layout ro = 0 \<and> map_option Identifier.Name (Var ro) = Some ''counter'')
   \<and> (\<exists>ro q. parseRegOffset ex_load ex_ro_reg = Inr (True, pushParam (RegisterOffsetNode ro) ex_load, q)
        \<and> Layout ro = 0x4F \<and> map_option RegisterId.Id (Base ro) = Some 0x05)
   \<and> (\<exists>ro q. parseRegOffset ex_load ex_ro_plus = Inr (True, pushParam (RegisterOffsetNode ro) ex_load, q)
        \<and> Layout ro = 0x2F \<and> map_option RegisterId.Id (Base ro) = Some 0x05 \<and> Immediate ro = 8)
   \<and> (\<exists>ro q. parseRegOffset ex_load ex_ro_factor = Inr (True, pushParam (RegisterOffsetNode ro) ex_load, q)
        \<and> Layout ro = 0x9F \<and> map_option RegisterId.Id (Base ro) = Some 0x05
        \<and> map_option RegisterId.Id (Offset ro) = Some 0x06 \<and> Immediate ro = 65535)"
proof (intro conjI)
  note sound = conjunct1 [OF parseRegOffset_layout [of ex_load ex_ro_parser 0], rule_format, OF ex_ro_eval]
  then obtain ro where
    "Instruction.Params (ex_load\<lparr> Instruction.Params :=
            [RegisterOffsetNode \<lparr> ASTNode.Index = 6, ASTNode.Size = 0, ASTNode.LineRow = 1, ASTNode.LineCol = 7,
               Layout = 0xAF, Base = Some (new_RegisterId 1 2 1 2 0x03), Offset = None,
               Immediate = 4, Var = None \<rparr>] \<rparr>) = Instruction.Params ex_load @ [RegisterOffsetNode ro]"
    and "Layout ro = 0x80 OR 0x2F"
    by (simp add: ex_ro_tokens_facts del: One_nat_def)
  then show "\<exists>i q ro. parseRegOffset ex_load ex_ro_parser = Inr (True, i, q)
        \<and> Instruction.Params i = Instruction.Params ex_load @ [RegisterOffsetNode ro]
        \<and> Layout ro = 0x80 OR 0x2F"
    using ex_ro_eval by blast
next
  note c = conjunct1 [OF conjunct2 [OF parseRegOffset_layout [of ex_load ex_ro_var 0]],
      THEN mp, OF ex_ro_var_facts(1)]
  from c [THEN conjunct1, THEN mp, OF conjI [OF ex_ro_var_facts(2) ex_ro_var_facts(3)]]
  show "\<exists>ro q. parseRegOffset ex_load ex_ro_var = Inr (True, pushParam (RegisterOffsetNode ro) ex_load, q)
        \<and> Layout ro = 0 \<and> map_option Identifier.Name (Var ro) = Some ''counter''"
    by (elim exE conjE) (fastforce simp: ex_ro_var_facts(4) simp del: One_nat_def)
next
  note c = conjunct1 [OF conjunct2 [OF parseRegOffset_layout [of ex_load ex_ro_reg 0]],
      THEN mp, OF ex_ro_reg_facts(1)]
  have h: "Token.Type (tokenAt ex_ro_reg 0) = REGISTER_DEFINITION
          \<and> getRegisterType (Token.Tag (tokenAt ex_ro_reg 0)) = INTEGER
          \<and> Token.Type (tokenAt ex_ro_reg 1) = RIGHT_SQUARE_BRACKET"
    by (simp add: ex_ro_reg_facts integer_registers del: One_nat_def)
  from c [THEN conjunct2, THEN conjunct1, THEN mp, OF h]
  show "\<exists>ro q. parseRegOffset ex_load ex_ro_reg = Inr (True, pushParam (RegisterOffsetNode ro) ex_load, q)
        \<and> Layout ro = 0x4F \<and> map_option RegisterId.Id (Base ro) = Some 0x05"
    by (elim exE conjE) (fastforce simp: ex_ro_reg_facts simp del: One_nat_def)
next
  note c = conjunct1 [OF conjunct2 [OF parseRegOffset_layout [of ex_load ex_ro_plus 8]],
      THEN mp, OF ex_ro_plus_facts(1)]
  have h: "Token.Type (tokenAt ex_ro_plus 0) = REGISTER_DEFINITION
          \<and> getRegisterType (Token.Tag (tokenAt ex_ro_plus 0)) = INTEGER
          \<and> (Token.Type (tokenAt ex_ro_plus 1) = PLUS_SIGN \<or> Token.Type (tokenAt ex_ro_plus 1) = MINUS_SIGN)
          \<and> Token.Type (tokenAt ex_ro_plus 2) = INTEGER_NUMBER
          \<and> Token.Type (tokenAt ex_ro_plus 3) = RIGHT_SQUARE_BRACKET
          \<and> strToInt (getSubStr (Src ex_ro_plus) (Token.Index (tokenAt ex_ro_plus 2))
               (Token.Size (tokenAt ex_ro_plus 2))) 0 = Inr (True, 8)
          \<and> drop_bit 32 (8 :: u64) = 0"
    by (simp add: ex_ro_plus_facts integer_registers drop_bit_eq_div del: One_nat_def)
  from c [THEN conjunct2, THEN conjunct2, THEN conjunct1, THEN mp, OF h]
  show "\<exists>ro q. parseRegOffset ex_load ex_ro_plus = Inr (True, pushParam (RegisterOffsetNode ro) ex_load, q)
        \<and> Layout ro = 0x2F \<and> map_option RegisterId.Id (Base ro) = Some 0x05 \<and> Immediate ro = 8"
    by (elim exE conjE) (fastforce simp: ex_ro_plus_facts simp del: One_nat_def)
next
  note c = conjunct1 [OF conjunct2 [OF parseRegOffset_layout [of ex_load ex_ro_factor 65535]],
      THEN mp, OF ex_ro_factor_facts(1)]
  have h: "Token.Type (tokenAt ex_ro_factor 0) = REGISTER_DEFINITION
          \<and> getRegisterType (Token.Tag (tokenAt ex_ro_factor 0)) = INTEGER
          \<and> (Token.Type (tokenAt ex_ro_factor 1) = PLUS_SIGN \<or> Token.Type (tokenAt ex_ro_factor 1) = MINUS_SIGN)
          \<and> Token.Type (tokenAt ex_ro_factor 2) = REGISTER_DEFINITION
          \<and> getRegisterType (Token.Tag (tokenAt ex_ro_factor 2)) = INTEGER
          \<and> Token.Type (tokenAt ex_ro_factor 3) = ASTERISK
          \<and> strToInt (getSubStr (Src ex_ro_factor) (Token.Index (tokenAt ex_ro_factor 4))
               (Token.Size (tokenAt ex_ro_factor 4))) 0 = Inr (True, 65535)
          \<and> drop_bit 16 (65535 :: u64) = 0
          \<and> Token.Type (tokenAt ex_ro_factor 5) = RIGHT_SQUARE_BRACKET"
    by (simp add: ex_ro_factor_facts integer_registers drop_bit_eq_div del: One_nat_def)
  from c [THEN conjunct2, THEN conjunct2, THEN conjunct2, THEN mp, OF h]
  show "\<exists>ro q. parseRegOffset ex_load ex_ro_factor = Inr (True, pushParam (RegisterOffsetNode ro) ex_load, q)
        \<and> Layout ro = 0x9F \<and> map_option RegisterId.Id (Base ro) = Some 0x05
        \<and> map_option RegisterId.Id (Offset ro) = Some 0x06 \<and> Immediate ro = 65535"
    by (elim exE conjE) (fastforce simp: ex_ro_factor_facts simp del: One_nat_def)
qed

text \<open>
  C8 (amended). The rule holds for a sign that the loop over the operands of an
  instruction or the value of a variable declaration reads as the start of an operand or
  value. Let \<open>s\<close> be a plus or minus token and \<open>t\<close> the next token, an integer or a float.
  The step fails with the diagnostic \<open>Unexpected operator\<close> on \<open>s\<close> exactly when
  \<open>Index s + 1 \<noteq> Index t\<close>. When the two are adjacent, the text converted is the sign
  character followed by the text of the number, and the integer is signed exactly for a
  minus; a step that goes on has pushed the node of that number, and a number that is
  converted (and, for a variable, fits its type) is accepted. The texts \<^verbatim>\<open>push i32 - 1\<close>
  and \<^verbatim>\<open>counter : i64 = - 1\<close> fail with the diagnostic on the sign, and \<^verbatim>\<open>push i32 -1\<close> is
  parsed to the operand \<open>-1\<close>.
\<close>

theorem sign_adjacency:
  assumes sg: "Token.Type s = PLUS_SIGN \<or> Token.Type s = MINUS_SIGN"
    and nx: "eatToken p = Inr (t, p1)"
    and lit: "Token.Type t = INTEGER_NUMBER \<or> Token.Type t = FLOAT_NUMBER"
  shows
    "((operandStep stod s instr p = Inr (OperandReturn instr (printTokenError ''Unexpected operator'' s p1)))
        = (Token.Index s + 1 \<noteq> Token.Index t))
   \<and> ((parseVarValue c stod typeInfo s p = Inr (None, printTokenError ''Unexpected operator'' s p1))
        = (Token.Index s + 1 \<noteq> Token.Index t))
   \<and> (Token.Index s + 1 = Token.Index t \<longrightarrow>
        operandStep stod s instr p =
          (if Token.Type t = INTEGER_NUMBER
           then andThen (operandInt t (signedText p s t) (Token.Type s = MINUS_SIGN) instr p1) afterOperand
           else afterOperand (operandFloat stod t (signedText p s t) instr p1))
      \<and> parseVarValue c stod typeInfo s p =
          (if Token.Type t = INTEGER_NUMBER
           then varIntValue c typeInfo t (signedText p s t) (Token.Type s = MINUS_SIGN) p1
           else Inr (varFloatValue c stod typeInfo t (signedText p s t) p1)))
   \<and> (\<forall>t' i q e. operandStep stod s instr p = Inr (OperandNext t' i q e) \<longrightarrow>
        Token.Index s + 1 = Token.Index t
      \<and> (if Token.Type t = INTEGER_NUMBER
         then \<exists>num. strToInt (signedText p s t) 0 = Inr (True, num)
                \<and> i = pushParam (IntNode (new_ASTInt (Token.Index t) (Token.Size t) (Token.LineRow t)
                                    (Token.LineCol t) num (Token.Type s = MINUS_SIGN))) instr
         else \<exists>d. stod (signedText p s t) = Converted d
                \<and> i = pushParam (FloatNode (new_ASTFloat (Token.Index t) (Token.Size t) (Token.LineRow t)
                                    (Token.LineCol t) d)) instr))
   \<and> (\<forall>n q. parseVarValue c stod typeInfo s p = Inr (Some n, q) \<longrightarrow>
        Token.Index s + 1 = Token.Index t \<and> q = p1
      \<and> (if Token.Type t = INTEGER_NUMBER
         then \<exists>num. strToInt (signedText p s t) 0 = Inr (True, num)
                \<and> checkIntWidth c num (TypeInfo.DataType typeInfo) (Token.Type s = MINUS_SIGN)
                \<and> n = IntNode (new_ASTInt (Token.Index t) (Token.Size t) (Token.LineRow t)
                                 (Token.LineCol t) num (Token.Type s = MINUS_SIGN))
         else \<exists>d. stod (signedText p s t) = Converted d
                \<and> checkFloatWidth c d (TypeInfo.DataType typeInfo)
                \<and> n = FloatNode (new_ASTFloat (Token.Index t) (Token.Size t) (Token.LineRow t)
                                   (Token.LineCol t) d)))
   \<and> (\<forall>num. Token.Index s + 1 = Token.Index t \<and> Token.Type t = INTEGER_NUMBER
            \<and> strToInt (signedText p s t) 0 = Inr (True, num) \<longrightarrow>
        (\<exists>t' q e. operandStep stod s instr p
           = Inr (OperandNext t'
                   (pushParam (IntNode (new_ASTInt (Token.Index t) (Token.Size t) (Token.LineRow t)
                                   (Token.LineCol t) num (Token.Type s = MINUS_SIGN))) instr) q e))
      \<and> (checkIntWidth c num (TypeInfo.DataType typeInfo) (Token.Type s = MINUS_SIGN) \<longrightarrow>
           parseVarValue c stod typeInfo s p
             = Inr (Some (IntNode (new_ASTInt (Token.Index t) (Token.Size t) (Token.LineRow t)
                                     (Token.LineCol t) num (Token.Type s = MINUS_SIGN))), p1)))
   \<and> (\<forall>d. Token.Index s + 1 = Token.Index t \<and> Token.Type t = FLOAT_NUMBER
            \<and> stod (signedText p s t) = Converted d \<longrightarrow>
        (\<exists>t' q e. operandStep stod s instr p
           = Inr (OperandNext t'
                   (pushParam (FloatNode (new_ASTFloat (Token.Index t) (Token.Size t) (Token.LineRow t)
                                   (Token.LineCol t) d)) instr) q e))
      \<and> (checkFloatWidth c d (TypeInfo.DataType typeInfo) \<longrightarrow>
           parseVarValue c stod typeInfo s p
             = Inr (Some (FloatNode (new_ASTFloat (Token.Index t) (Token.Size t) (Token.LineRow t)
                                       (Token.LineCol t) d)), p1)))
   \<and> (\<exists>q. buildAST c no_floats 10 (ex_gap_parser c) = Some (Inr (False, q))
          \<and> Console q = [TokenError ''Unexpected operator'' 20 1 2 14])
   \<and> (\<exists>q. buildAST c no_floats 10 (ex_var_gap_parser c) = Some (Inr (False, q))
          \<and> Console q = [TokenError ''Unexpected operator'' 29 1 2 21,
                          ConsoleLine ''Error: could not find code section''])
   \<and> (\<exists>q. buildAST c no_floats 10 (ex_adjacent_parser c) = Some (Inr (True, q))
          \<and> Console q = []
          \<and> bodyOf (SecCode (FileNode q)) =
              [InstructionNode ((new_Instruction 11 4 2 5 ''push'' 1)
                 \<lparr> Instruction.Params := [TypeInfoNode (new_TypeInfo 16 3 2 10 (UVM_TYPE_I32 c)),
                                          IntNode (new_ASTInt 21 1 2 15 (- 1) True)] \<rparr>)])"
proof (intro conjI allI impI)
  show "(operandStep stod s instr p = Inr (OperandReturn instr (printTokenError ''Unexpected operator'' s p1)))
        = (Token.Index s + 1 \<noteq> Token.Index t)"
    by (rule operand_rejected_iff [OF sg nx lit])
  show "(parseVarValue c stod typeInfo s p = Inr (None, printTokenError ''Unexpected operator'' s p1))
        = (Token.Index s + 1 \<noteq> Token.Index t)"
    by (rule var_rejected_iff [OF sg nx lit])
  show "\<exists>q. buildAST c no_floats 10 (ex_gap_parser c) = Some (Inr (False, q))
          \<and> Console q = [TokenError ''Unexpected operator'' 20 1 2 14]"
    by (rule ex_gap_eval)
  show "\<exists>q. buildAST c no_floats 10 (ex_var_gap_parser c) = Some (Inr (False, q))
          \<and> Console q = [TokenError ''Unexpected operator'' 29 1 2 21,
                          ConsoleLine ''Error: could not find code section'']"
    by (rule ex_var_gap_eval)
  show "\<exists>q. buildAST c no_floats 10 (ex_adjacent_parser c) = Some (Inr (True, q))
          \<and> Console q = []
          \<and> bodyOf (SecCode (FileNode q)) =
              [InstructionNode ((new_Instruction 11 4 2 5 ''push'' 1)
                 \<lparr> Instruction.Params := [TypeInfoNode (new_TypeInfo 16 3 2 10 (UVM_TYPE_I32 c)),
                                          IntNode (new_ASTInt 21 1 2 15 (- 1) True)] \<rparr>)]"
    by (rule ex_adjacent_eval)
next
  assume adj: "Token.Index s + 1 = Token.Index t"
  show "operandStep stod s instr p =
          (if Token.Type t = INTEGER_NUMBER
           then andThen (operandInt t (signedText p s t) (Token.Type s = MINUS_SIGN) instr p1) afterOperand
           else afterOperand (operandFloat stod t (signedText p s t) instr p1))"
    using lit by (auto simp: operandStep_sign [OF sg nx] adj signedText_def)
  show "parseVarValue c stod typeInfo s p =
          (if Token.Type t = INTEGER_NUMBER
           then varIntValue c typeInfo t (signedText p s t) (Token.Type s = MINUS_SIGN) p1
           else Inr (varFloatValue c stod typeInfo t (signedText p s t) p1))"
    by (simp add: parseVarValue_sign [OF sg nx lit] adj signedText_def)
next
  fix t' i q e
  assume run: "operandStep stod s instr p = Inr (OperandNext t' i q e)"
  note a = operand_accepted [OF sg nx lit run, folded signedText_def]
  show "Token.Index s + 1 = Token.Index t" using a by (rule conjunct1)
  show "if Token.Type t = INTEGER_NUMBER
         then \<exists>num. strToInt (signedText p s t) 0 = Inr (True, num)
                \<and> i = pushParam (IntNode (new_ASTInt (Token.Index t) (Token.Size t) (Token.LineRow t)
                                    (Token.LineCol t) num (Token.Type s = MINUS_SIGN))) instr
         else \<exists>d. stod (signedText p s t) = Converted d
                \<and> i = pushParam (FloatNode (new_ASTFloat (Token.Index t) (Token.Size t) (Token.LineRow t)
                                    (Token.LineCol t) d)) instr"
    using a by (rule conjunct2)
next
  fix n q
  assume run: "parseVarValue c stod typeInfo s p = Inr (Some n, q)"
  note a = var_accepted [OF sg nx lit run, folded signedText_def]
  show "Token.Index s + 1 = Token.Index t" using a by (rule conjunct1)
  show "q = p1" using a by simp
  show "if Token.Type t = INTEGER_NUMBER
         then \<exists>num. strToInt (signedText p s t) 0 = Inr (True, num)
                \<and> checkIntWidth c num (TypeInfo.DataType typeInfo) (Token.Type s = MINUS_SIGN)
                \<and> n = IntNode (new_ASTInt (Token.Index t) (Token.Size t) (Token.LineRow t)
                                 (Token.LineCol t) num (Token.Type s = MINUS_SIGN))
         else \<exists>d. stod (signedText p s t) = Converted d
                \<and> checkFloatWidth c d (TypeInfo.DataType typeInfo)
                \<and> n = FloatNode (new_ASTFloat (Token.Index t) (Token.Size t) (Token.LineRow t)
                                   (Token.LineCol t) d)"
    using a by (rule conjunct2 [THEN conjunct2])
next
  fix num
  assume h: "Token.Index s + 1 = Token.Index t \<and> Token.Type t = INTEGER_NUMBER
            \<and> strToInt (signedText p s t) 0 = Inr (True, num)"
  then have adj: "Token.Index s + 1 = Token.Index t" and i: "Token.Type t = INTEGER_NUMBER"
    and cv: "strToInt (getChar (Src p) (Token.Index s)
                         # getSubStr (Src p) (Token.Index t) (Token.Size t)) 0 = Inr (True, num)"
    by (simp_all add: signedText_def)
  show "\<exists>t' q e. operandStep stod s instr p
           = Inr (OperandNext t'
                   (pushParam (IntNode (new_ASTInt (Token.Index t) (Token.Size t) (Token.LineRow t)
                                   (Token.LineCol t) num (Token.Type s = MINUS_SIGN))) instr) q e)"
    by (rule operand_accepts_int [OF sg nx i adj cv])
  assume fits: "checkIntWidth c num (TypeInfo.DataType typeInfo) (Token.Type s = MINUS_SIGN)"
  show "parseVarValue c stod typeInfo s p
             = Inr (Some (IntNode (new_ASTInt (Token.Index t) (Token.Size t) (Token.LineRow t)
                                     (Token.LineCol t) num (Token.Type s = MINUS_SIGN))), p1)"
    by (rule var_accepts_int [OF sg nx i adj cv fits])
next
  fix d
  assume h: "Token.Index s + 1 = Token.Index t \<and> Token.Type t = FLOAT_NUMBER
            \<and> stod (signedText p s t) = Converted d"
  then have adj: "Token.Index s + 1 = Token.Index t" and i: "Token.Type t = FLOAT_NUMBER"
    and cv: "stod (getChar (Src p) (Token.Index s)
                     # getSubStr (Src p) (Token.Index t) (Token.Size t)) = Converted d"
    by (simp_all add: signedText_def)
  show "\<exists>t' q e. operandStep stod s instr p
           = Inr (OperandNext t'
                   (pushParam (FloatNode (new_ASTFloat (Token.Index t) (Token.Size t) (Token.LineRow t)
                                   (Token.LineCol t) d)) instr) q e)"
    by (rule operand_accepts_float [where stod = stod, OF sg nx i adj cv])
  assume fits: "checkFloatWidth c d (TypeInfo.DataType typeInfo)"
  show "parseVarValue c stod typeInfo s p
             = Inr (Some (FloatNode (new_ASTFloat (Token.Index t) (Token.Size t) (Token.LineRow t)
                                       (Token.LineCol t) d)), p1)"
    by (rule var_accepts_float [where stod = stod, OF sg nx i adj cv fits])
qed

theorem sign_adjacency_witness:
  "(\<exists>t' q e. operandStep no_floats (new_Token MINUS_SIGN 20 1 2 14 0) ex_push_i32 ex_adjacent_at_sign
       = Inr (OperandNext t' (pushParam (IntNode (new_ASTInt 21 1 2 15 (- 1) True)) ex_push_i32) q e))
   \<and> parseVarValue sample_consts no_floats (new_TypeInfo 16 3 2 10 (UVM_TYPE_I32 sample_consts))
         (new_Token MINUS_SIGN 20 1 2 14 0) ex_adjacent_at_sign
       = Inr (Some (IntNode (new_ASTInt 21 1 2 15 (- 1) True)), ex_adjacent_at_sign\<lparr> Cursor := 7 \<rparr>)
   \<and> operandStep no_floats (new_Token MINUS_SIGN 20 1 2 14 0) ex_push_i32 ex_gap_at_sign
       = Inr (OperandReturn ex_push_i32
               (printTokenError ''Unexpected operator'' (new_Token MINUS_SIGN 20 1 2 14 0)
                  (ex_gap_at_sign\<lparr> Cursor := 7 \<rparr>)))
   \<and> parseVarValue sample_consts no_floats (new_TypeInfo 23 3 2 15 (UVM_TYPE_I64 sample_consts))
         (new_Token MINUS_SIGN 29 1 2 21 0) ex_var_gap_at_sign
       = Inr (None, printTokenError ''Unexpected operator'' (new_Token MINUS_SIGN 29 1 2 21 0)
                      (ex_var_gap_at_sign\<lparr> Cursor := 9 \<rparr>))"
proof (intro conjI)
  note a = sign_adjacency [where s = "new_Token MINUS_SIGN 20 1 2 14 0" and p = ex_adjacent_at_sign
      and t = "new_Token INTEGER_NUMBER 21 1 2 15 0" and stod = no_floats and instr = ex_push_i32
      and c = sample_consts and typeInfo = "new_TypeInfo 16 3 2 10 (UVM_TYPE_I32 sample_consts)",
      OF _ ex_at_sign_facts(1)]
  have a': "Token.Type (new_Token MINUS_SIGN 20 1 2 14 0) = PLUS_SIGN
              \<or> Token.Type (new_Token MINUS_SIGN 20 1 2 14 0) = MINUS_SIGN"
           "Token.Type (new_Token INTEGER_NUMBER 21 1 2 15 0) = INTEGER_NUMBER
              \<or> Token.Type (new_Token INTEGER_NUMBER 21 1 2 15 0) = FLOAT_NUMBER"
    by (simp_all add: new_Token_fields)
  note acc = a [OF a', THEN conjunct2, THEN conjunct2, THEN conjunct2, THEN conjunct2, THEN conjunct2,
      THEN conjunct1, rule_format, of "- 1"]
  have h: "Token.Index (new_Token MINUS_SIGN 20 1 2 14 0) + 1 = Token.Index (new_Token INTEGER_NUMBER 21 1 2 15 0)
         \<and> Token.Type (new_Token INTEGER_NUMBER 21 1 2 15 0) = INTEGER_NUMBER
         \<and> strToInt (signedText ex_adjacent_at_sign (new_Token MINUS_SIGN 20 1 2 14 0)
               (new_Token INTEGER_NUMBER 21 1 2 15 0)) 0 = Inr (True, - 1)"
    by (simp add: new_Token_fields ex_at_sign_facts(4))
  from acc [OF h, THEN conjunct1]
  show "\<exists>t' q e. operandStep no_floats (new_Token MINUS_SIGN 20 1 2 14 0) ex_push_i32 ex_adjacent_at_sign
       = Inr (OperandNext t' (pushParam (IntNode (new_ASTInt 21 1 2 15 (- 1) True)) ex_push_i32) q e)"
    by (simp add: new_Token_fields)
  have f: "checkIntWidth sample_consts (- 1)
             (TypeInfo.DataType (new_TypeInfo 16 3 2 10 (UVM_TYPE_I32 sample_consts)))
             (Token.Type (new_Token MINUS_SIGN 20 1 2 14 0) = MINUS_SIGN)"
    by (simp add: new_Token_fields new_TypeInfo_def ex_at_sign_facts(5))
  from acc [OF h, THEN conjunct2, THEN mp, OF f]
  show "parseVarValue sample_consts no_floats (new_TypeInfo 16 3 2 10 (UVM_TYPE_I32 sample_consts))
         (new_Token MINUS_SIGN 20 1 2 14 0) ex_adjacent_at_sign
       = Inr (Some (IntNode (new_ASTInt 21 1 2 15 (- 1) True)), ex_adjacent_at_sign\<lparr> Cursor := 7 \<rparr>)"
    by (simp add: new_Token_fields)
next
  have b': "Token.Type (new_Token MINUS_SIGN 20 1 2 14 0) = PLUS_SIGN
              \<or> Token.Type (new_Token MINUS_SIGN 20 1 2 14 0) = MINUS_SIGN"
           "Token.Type (new_Token INTEGER_NUMBER 22 1 2 16 0) = INTEGER_NUMBER
              \<or> Token.Type (new_Token INTEGER_NUMBER 22 1 2 16 0) = FLOAT_NUMBER"
    by (simp_all add: new_Token_fields)
  from sign_adjacency [where stod = no_floats and instr = ex_push_i32,
      OF b'(1) ex_at_sign_facts(2) b'(2), THEN conjunct1]
  show "operandStep no_floats (new_Token MINUS_SIGN 20 1 2 14 0) ex_push_i32 ex_gap_at_sign
       = Inr (OperandReturn ex_push_i32
               (printTokenError ''Unexpected operator'' (new_Token MINUS_SIGN 20 1 2 14 0)
                  (ex_gap_at_sign\<lparr> Cursor := 7 \<rparr>)))"
    by (simp add: new_Token_fields)
next
  have c': "Token.Type (new_Token MINUS_SIGN 29 1 2 21 0) = PLUS_SIGN
              \<or> Token.Type (new_Token MINUS_SIGN 29 1 2 21 0) = MINUS_SIGN"
           "Token.Type (new_Token INTEGER_NUMBER 31 1 2 23 0) = INTEGER_NUMBER
              \<or> Token.Type (new_Token INTEGER_NUMBER 31 1 2 23 0) = FLOAT_NUMBER"
    by (simp_all add: new_Token_fields)
  from sign_adjacency [where c = sample_consts and stod = no_floats
      and typeInfo = "new_TypeInfo 23 3 2 15 (UVM_TYPE_I64 sample_consts)",
      OF c'(1) ex_at_sign_facts(3) c'(2), THEN conjunct2, THEN conjunct1]
  show "parseVarValue sample_consts no_floats (new_TypeInfo 23 3 2 15 (UVM_TYPE_I64 sample_consts))
         (new_Token MINUS_SIGN 29 1 2 21 0) ex_var_gap_at_sign
       = Inr (None, printTokenError ''Unexpected operator'' (new_Token MINUS_SIGN 29 1 2 21 0)
                      (ex_var_gap_at_sign\<lparr> Cursor := 9 \<rparr>))"
    by (simp add: new_Token_fields)
qed

text \<open>
  The text \<^verbatim>\<open>push i32, - 1\<close> of the claim does not reach the rule. After a type operand
  the next token is handed to the loop over the operands as it is, and a comma there is
  no operand: parsing fails with \<open>Expected parameter\<close> on the comma, and no diagnostic
  is reported on the sign, although the sign precedes an integer and is not adjacent
  to it.
\<close>

theorem sign_after_comma_not_reported:
  "\<exists>q. buildAST sample_consts no_floats 10 (ex_comma_gap_parser sample_consts) = Some (Inr (False, q))
      \<and> Console q = [TokenError ''Expected parameter'' 19 1 2 13]
      \<and> Token.Type (Tokens (ex_comma_gap_parser sample_consts) ! 6) = MINUS_SIGN
      \<and> Token.Type (Tokens (ex_comma_gap_parser sample_consts) ! 7) = INTEGER_NUMBER
      \<and> Token.Index (Tokens (ex_comma_gap_parser sample_consts) ! 6) + 1
          \<noteq> Token.Index (Tokens (ex_comma_gap_parser sample_consts) ! 7)
      \<and> TokenError ''Unexpected operator'' 21 1 2 15 \<notin> set (Console q)"
  using ex_comma_gap_eval [of sample_consts]
  by (auto simp: ex_comma_gap_tokens_facts)

end
